(* ===== verification/JS_Prelude.thy ===== *)
theory JS_Prelude
  imports Complex_Main "HOL-Library.Word"
begin

text \<open>
  The part of JavaScript the sources use, as HOL functions, and the lemmas the component
  theories share.

  \<^item> \<open>Uint8Array\<close> cells are \<open>8 word\<close> (type \<open>byte\<close>); reading outside a typed array
    gives \<open>undefined\<close> (\<open>None\<close>) and writing outside it is ignored.
  \<^item> Numbers that the code keeps integral (coordinates, indices, identifiers) are \<open>int\<close>;
    numbers that may be fractional (clock readings, cooldowns, loads) are \<open>rat\<close>. Rounding
    of binary floating point is not modelled.
  \<^item> \<open>>>\<close> and \<open>~~\<close> convert to a signed 32-bit integer first: \<open>to_int32\<close>.
  \<^item> \<open>Math.random()\<close> is an argument \<open>u\<close> with \<open>0 \<le> u < 1\<close>.
  \<^item> An exception is the left summand of a result.
\<close>

named_theorems js_simps \<open>evaluation rules of the JavaScript primitives\<close>
named_theorems wf_intros \<open>preservation of the component invariants\<close>
named_theorems frame_simps \<open>fields an operation leaves alone\<close>

type_synonym byte = "8 word"

section \<open>Exceptions\<close>

datatype js_error = TypeError | ReferenceError | UncompiledLabel string

type_synonym 'a result = "js_error + 'a"

fun ebind :: "'a result \<Rightarrow> ('a \<Rightarrow> 'b result) \<Rightarrow> 'b result" where
  "ebind (Inl e) f = Inl e"
| "ebind (Inr x) f = f x"

lemma ebind_eq_Inr: "ebind r f = Inr y \<longleftrightarrow> (\<exists>x. r = Inr x \<and> f x = Inr y)"
  by (cases r) auto

lemma ebind_assoc: "ebind (ebind r f) g = ebind r (\<lambda>x. ebind (f x) g)"
  by (cases r) auto

section \<open>Loops\<close>

lemma foldl_invariant:
  assumes "P s" and "\<And>s x. P s \<Longrightarrow> x \<in> set xs \<Longrightarrow> P (f s x)"
  shows "P (foldl f s xs)"
  using assms by (induction xs arbitrary: s) auto

lemma foldl_reaches:
  assumes "x \<in> set xs" "I s" "\<And>s y. I s \<Longrightarrow> I (f s y)" "\<And>s. I s \<Longrightarrow> Q (f s x)"
    and "\<And>s y. I s \<Longrightarrow> Q s \<Longrightarrow> Q (f s y)"
  shows "Q (foldl f s xs)"
proof -
  from assms(1) obtain ys zs where xs: "xs = ys @ x # zs" by (meson split_list)
  have I: "I (foldl f s ys)" by (rule foldl_invariant) (use assms in auto)
  have "I t \<and> Q t \<Longrightarrow> I (foldl f t zs) \<and> Q (foldl f t zs)" for t
    by (rule foldl_invariant [where P = "\<lambda>t. I t \<and> Q t"]) (use assms in auto)
  then show ?thesis using I assms(3,4) by (simp add: xs)
qed

section \<open>Event-driven systems\<close>

text \<open>
  A program that runs from an event loop: the states it may start in, its steps in any order, and
  an invariant every step keeps.
\<close>

locale event_system =
  fixes initial :: "'s \<Rightarrow> bool"
    and step :: "'s \<Rightarrow> 's \<Rightarrow> bool"
    and inv :: "'s \<Rightarrow> bool"
  assumes initial_inv: "initial s \<Longrightarrow> inv s"
    and step_inv: "step s t \<Longrightarrow> inv s \<Longrightarrow> inv t"
begin

lemma run_inv: "step\<^sup>*\<^sup>* s t \<Longrightarrow> inv s \<Longrightarrow> inv t"
  by (induction rule: rtranclp_induct) (blast intro: step_inv)+

lemma reachable_inv: "initial s \<Longrightarrow> step\<^sup>*\<^sup>* s t \<Longrightarrow> inv t"
  by (blast intro: initial_inv run_inv)

end

section \<open>Integers\<close>

definition to_int32 :: "int \<Rightarrow> int" where
  "to_int32 x = (x + 2 ^ 31) mod 2 ^ 32 - 2 ^ 31"

definition js_shr :: "int \<Rightarrow> nat \<Rightarrow> int" where
  "js_shr x n = to_int32 x div 2 ^ n"

definition js_shl :: "int \<Rightarrow> nat \<Rightarrow> int" where
  "js_shl x n = to_int32 (to_int32 x * 2 ^ n)"

definition js_rem :: "int \<Rightarrow> int \<Rightarrow> int" where
  "js_rem a b = sgn a * (\<bar>a\<bar> mod \<bar>b\<bar>)"

definition js_trunc :: "rat \<Rightarrow> int" where
  "js_trunc x = (if x < 0 then - \<lfloor>- x\<rfloor> else \<lfloor>x\<rfloor>)"

definition tilde2 :: "rat \<Rightarrow> int" where
  "tilde2 x = to_int32 (js_trunc x)"

definition int_of_bool :: "bool \<Rightarrow> int" where
  "int_of_bool b = (if b then 1 else 0)"

lemma to_int32_id [simp]: "- (2 ^ 31) \<le> x \<Longrightarrow> x < 2 ^ 31 \<Longrightarrow> to_int32 x = x"
  by (simp add: to_int32_def)

lemma to_int32_range: "- (2 ^ 31) \<le> to_int32 x \<and> to_int32 x < 2 ^ 31"
proof -
  have "0 \<le> (x + 2 ^ 31) mod 2 ^ 32" "(x + 2 ^ 31) mod 2 ^ 32 < 2 ^ 32" by simp_all
  then show ?thesis by (simp add: to_int32_def)
qed

lemma js_rem_nonneg [js_simps]: "0 \<le> a \<Longrightarrow> 0 < b \<Longrightarrow> js_rem a b = a mod b"
  by (cases "a = 0") (auto simp: js_rem_def)

lemma js_rem_bound: "0 \<le> a \<Longrightarrow> 0 < b \<Longrightarrow> 0 \<le> js_rem a b \<and> js_rem a b < b"
  by (simp add: js_rem_nonneg)

lemma js_shr5 [js_simps]: "- (2 ^ 31) \<le> x \<Longrightarrow> x < 2 ^ 31 \<Longrightarrow> js_shr x 5 = x div 32"
  by (simp add: js_shr_def)

lemma js_trunc_of_int [simp]: "js_trunc (of_int n) = n"
  by (simp add: js_trunc_def)

lemma js_trunc_nonneg: "0 \<le> x \<Longrightarrow> js_trunc x = \<lfloor>x\<rfloor>"
  by (simp add: js_trunc_def)

section \<open>Random integers (usefuladitions.js)\<close>

definition RandInt :: "rat \<Rightarrow> int \<Rightarrow> int \<Rightarrow> int" where
  "RandInt u mn mx = mn + \<lfloor>u * of_int (mx + 1 - mn)\<rfloor>"

abbreviation unit_draw :: "rat \<Rightarrow> bool" where
  "unit_draw u \<equiv> 0 \<le> u \<and> u < 1"

lemma RandInt_range:
  assumes "unit_draw u" and "mn \<le> mx"
  shows "mn \<le> RandInt u mn mx \<and> RandInt u mn mx \<le> mx"
proof -
  let ?k = "of_int (mx + 1 - mn) :: rat"
  have k: "0 < ?k" using assms(2) by simp
  have "0 \<le> u * ?k" using assms(1) k by simp
  moreover have "u * ?k < ?k" using assms(1) k by simp
  ultimately have "0 \<le> \<lfloor>u * ?k\<rfloor>" "\<lfloor>u * ?k\<rfloor> < mx + 1 - mn"
    by (simp_all add: floor_less_iff)
  then show ?thesis unfolding RandInt_def by linarith
qed

lemma RandInt_zero [simp]: "RandInt 0 mn mx = mn"
  by (simp add: RandInt_def)

section \<open>Typed arrays\<close>

definition ta_get :: "'a list \<Rightarrow> int \<Rightarrow> 'a option" where
  "ta_get xs i = (if 0 \<le> i \<and> i < int (length xs) then Some (xs ! nat i) else None)"

definition ta_set :: "'a list \<Rightarrow> int \<Rightarrow> 'a \<Rightarrow> 'a list" where
  "ta_set xs i v = (if 0 \<le> i \<and> i < int (length xs) then xs[nat i := v] else xs)"

lemma length_ta_set [simp]: "length (ta_set xs i v) = length xs"
  by (simp add: ta_set_def)

lemma ta_get_set: "ta_get (ta_set xs i v) j =
    (if i = j \<and> 0 \<le> i \<and> i < int (length xs) then Some v else ta_get xs j)"
  by (auto simp: ta_get_def ta_set_def nth_list_update)

lemma ta_get_set_same [simp]:
  "0 \<le> i \<Longrightarrow> i < int (length xs) \<Longrightarrow> ta_get (ta_set xs i v) i = Some v"
  by (simp add: ta_get_set)

lemma ta_get_set_other [simp]: "i \<noteq> j \<Longrightarrow> ta_get (ta_set xs i v) j = ta_get xs j"
  by (simp add: ta_get_set)

lemma ta_get_in_range: "0 \<le> i \<Longrightarrow> i < int (length xs) \<Longrightarrow> ta_get xs i = Some (xs ! nat i)"
  by (simp add: ta_get_def)

lemma ta_get_SomeD: "ta_get xs i = Some v \<Longrightarrow> 0 \<le> i \<and> i < int (length xs) \<and> v = xs ! nat i"
  by (auto simp: ta_get_def split: if_splits)

lemma ta_get_None_iff: "ta_get xs i = None \<longleftrightarrow> \<not> (0 \<le> i \<and> i < int (length xs))"
  by (simp add: ta_get_def)

lemma ta_get_set_mem: "v \<in> set (ta_set xs i w) \<Longrightarrow> v = w \<or> v \<in> set xs"
  by (auto simp: ta_set_def split: if_splits dest: set_update_subset_insert [THEN subsetD])

section \<open>Row-major indices\<close>

lemma row_index_range:
  fixes x y w h :: int
  assumes "0 \<le> x" "x < w" "0 \<le> y" "y < h"
  shows "0 \<le> x + y * w \<and> x + y * w < w * h"
proof -
  have "0 \<le> y * w" using assms by simp
  moreover have "y * w + w \<le> h * w"
  proof -
    have "(y + 1) * w \<le> h * w" using assms by (intro mult_right_mono) auto
    then show ?thesis by (simp add: algebra_simps)
  qed
  ultimately show ?thesis using assms by (simp add: algebra_simps)
qed

lemma row_index_inj:
  fixes x y x' y' w :: int
  assumes "0 \<le> x" "x < w" "0 \<le> x'" "x' < w" "x + y * w = x' + y' * w"
  shows "x = x' \<and> y = y'"
proof -
  have "(x + y * w) mod w = x" "(x' + y' * w) mod w = x'" using assms(1-4) by simp_all
  then have xx: "x = x'" using assms(5) by simp
  then have "y * w = y' * w" using assms(5) by simp
  then show ?thesis using xx assms(1,2) by simp
qed

lemma row_index_decode:
  fixes i w :: int
  assumes "0 < w"
  shows "i mod w + (i div w) * w = i"
  using div_mult_mod_eq [of i w] by (simp add: algebra_simps)

lemma row_of_index_lt:
  fixes i w h :: int
  assumes "0 < w" "i < w * h"
  shows "i div w < h"
proof (rule ccontr)
  assume "\<not> i div w < h"
  then have "w * h \<le> w * (i div w)" using assms(1) by simp
  moreover have "w * (i div w) \<le> i" using assms(1) by (simp add: minus_mod_eq_mult_div [symmetric])
  ultimately show False using assms(2) by linarith
qed

section \<open>Rational ceilings\<close>

definition ceil_div32 :: "int \<Rightarrow> int" where
  "ceil_div32 w = \<lceil>of_int w / (32 :: rat)\<rceil>"

lemma ceil_div32_eq: "ceil_div32 w = (w + 31) div 32"
proof -
  have "ceil_div32 w = - ((- w) div 32)"
  proof -
    have "\<lceil>(of_int w :: rat) / 32\<rceil> = - \<lfloor>(of_int (- w) :: rat) / of_int 32\<rfloor>"
      by (simp add: ceiling_def)
    then show ?thesis by (simp only: ceil_div32_def floor_divide_of_int_eq)
  qed
  then show ?thesis by linarith
qed

lemma div32_lt_ceil: "0 \<le> x \<Longrightarrow> x < w \<Longrightarrow> x div 32 < ceil_div32 w"
  by (simp add: ceil_div32_eq)

section \<open>Sets in insertion order\<close>

definition set_add :: "'a \<Rightarrow> 'a list \<Rightarrow> 'a list" where
  "set_add x xs = (if x \<in> set xs then xs else xs @ [x])"

lemma set_set_add [simp]: "set (set_add x xs) = insert x (set xs)"
  by (auto simp: set_add_def)

lemma distinct_set_add [simp]: "distinct xs \<Longrightarrow> distinct (set_add x xs)"
  by (simp add: set_add_def)

lemma set_foldl_set_add: "set (foldl (\<lambda>c x. set_add x c) c xs) = set c \<union> set xs"
  by (induction xs arbitrary: c) auto

lemma distinct_foldl_set_add: "distinct c \<Longrightarrow> distinct (foldl (\<lambda>c x. set_add x c) c xs)"
  by (induction xs arbitrary: c) auto

end
