(* ===== verification/Blocks.thy ===== *)
theory Blocks
  imports JS_Prelude
begin

text \<open>
  The block tables of \<^verbatim>\<open>scripts/tables/DataTables.js\<close>: the class \<open>BlockStatistics\<close>, the
  table \<open>BlockStats\<close> (256 entries, \<open>basicBS\<close> where the source assigns nothing), the
  enumeration \<open>Block\<close> and the random pickers of \<open>FallableBlocks\<close>. A block identifier is
  always read from a \<open>Uint8Array\<close> or is one of the constants, so it is a \<open>byte\<close> and a table
  access never misses. The lemmas at the end are the facts about the table the other
  components rely on; each is checked row by row.
\<close>

section \<open>Block statistics\<close>

datatype FallType = FT_sand | FT_bolder

record BlockStatistics =
  hasdensity :: bool
  hardness :: int
  replesable :: bool
  cantake :: bool
  solid :: bool
  falltype :: "FallType option"
  diggablerock :: bool
  damage_fall :: int
  damage_digg :: int
  is_alive :: bool
  is_slime :: bool
  is_cry :: bool

definition basicBS :: BlockStatistics where
  "basicBS = \<lparr>hasdensity = False, hardness = -1, replesable = False, cantake = False,
     solid = False, falltype = None, diggablerock = False, damage_fall = 0, damage_digg = 0,
     is_alive = False, is_slime = False, is_cry = False\<rparr>"

definition BlockStatsTable :: "(byte \<times> BlockStatistics) list" where
  "BlockStatsTable = [
    (30, basicBS),
    (31, basicBS),
    (32, basicBS\<lparr>replesable := True\<rparr>),
    (33, basicBS\<lparr>replesable := True\<rparr>),
    (34, basicBS\<lparr>replesable := True\<rparr>),
    (35, basicBS\<lparr>replesable := True\<rparr>),
    (36, basicBS),
    (37, basicBS),
    (38, basicBS\<lparr>solid := True, damage_fall := 1000\<rparr>),
    (39, basicBS),
    (40, basicBS\<lparr>hardness := 2091, cantake := True, solid := True,
       falltype := Some FT_bolder, damage_fall := 100\<rparr>),
    (41, basicBS\<lparr>hardness := 2091, cantake := True, solid := True,
       falltype := Some FT_bolder, damage_fall := 100\<rparr>),
    (42, basicBS\<lparr>hardness := 2091, cantake := True, solid := True,
       falltype := Some FT_bolder, damage_fall := 100\<rparr>),
    (43, basicBS\<lparr>hardness := 4191, cantake := True, solid := True,
       falltype := Some FT_bolder, damage_fall := 200\<rparr>),
    (44, basicBS\<lparr>hardness := 4191, cantake := True, solid := True,
       falltype := Some FT_bolder, damage_fall := 200\<rparr>),
    (45, basicBS\<lparr>hardness := 4191, cantake := True, solid := True,
       falltype := Some FT_bolder, damage_fall := 200\<rparr>),
    (48, basicBS\<lparr>hasdensity := True, hardness := 741, solid := True,
       damage_fall := 10\<rparr>),
    (49, basicBS\<lparr>hasdensity := False, hardness := 0, solid := True,
       damage_fall := 1\<rparr>),
    (50, basicBS\<lparr>hardness := 2091, cantake := True, solid := True, is_alive := True,
       damage_fall := 200\<rparr>),
    (51, basicBS\<lparr>hardness := 2091, cantake := True, solid := True, is_alive := True,
       damage_fall := 100\<rparr>),
    (52, basicBS\<lparr>hardness := 2091, cantake := True, solid := True, is_alive := True,
       damage_fall := 200\<rparr>),
    (53, basicBS\<lparr>hardness := 2091, cantake := True, solid := True, is_alive := True,
       damage_fall := 200\<rparr>),
    (54, basicBS\<lparr>hardness := 2091, cantake := True, solid := True, is_alive := True,
       damage_fall := 100\<rparr>),
    (55, basicBS\<lparr>hardness := 2091, cantake := True, solid := True, is_alive := True,
       damage_fall := 300\<rparr>),
    (60, basicBS\<lparr>hardness := 201, replesable := True, cantake := True, solid := True,
       falltype := Some FT_sand, damage_fall := 10\<rparr>),
    (61, basicBS\<lparr>hardness := 201, replesable := True, cantake := True, solid := True,
       falltype := Some FT_sand, damage_fall := 10\<rparr>),
    (62, basicBS\<lparr>hardness := 411, replesable := True, cantake := True, solid := True,
       falltype := Some FT_sand, damage_fall := 15\<rparr>),
    (63, basicBS\<lparr>hardness := 411, replesable := True, cantake := True, solid := True,
       falltype := Some FT_sand, damage_fall := 15\<rparr>),
    (64, basicBS\<lparr>hardness := 831, replesable := True, cantake := True, solid := True,
       falltype := Some FT_sand, damage_fall := 17\<rparr>),
    (65, basicBS\<lparr>hardness := 831, replesable := True, cantake := True, solid := True,
       falltype := Some FT_sand, damage_fall := 17\<rparr>),
    (66, basicBS\<lparr>hardness := 152, solid := True, falltype := Some FT_sand, is_slime := True,
       damage_fall := 100, damage_digg := 50\<rparr>),
    (67, basicBS\<lparr>hardness := 341, solid := True, falltype := Some FT_sand, is_slime := True,
       damage_fall := 200, damage_digg := 200\<rparr>),
    (68, basicBS\<lparr>hardness := 341, solid := True, falltype := Some FT_sand, is_slime := True,
       damage_fall := 350\<rparr>),
    (71, basicBS\<lparr>hasdensity := True, hardness := 96, cantake := True, solid := True,
       is_cry := True, damage_fall := 100\<rparr>),
    (72, basicBS\<lparr>hasdensity := True, hardness := 131, cantake := True, solid := True,
       is_cry := True, damage_fall := 100\<rparr>),
    (73, basicBS\<lparr>hasdensity := True, hardness := 201, cantake := True, solid := True,
       is_cry := True, damage_fall := 100\<rparr>),
    (74, basicBS\<lparr>hasdensity := True, hardness := 411, cantake := True, solid := True,
       is_cry := True, damage_fall := 100\<rparr>),
    (75, basicBS\<lparr>hasdensity := True, hardness := 224, cantake := True, solid := True,
       is_cry := True, damage_fall := 100\<rparr>),
    (80, basicBS\<lparr>solid := True, damage_fall := 10, damage_digg := 2\<rparr>),
    (81, basicBS\<lparr>hasdensity := True, hardness := 66, solid := True, damage_digg := 20,
       damage_fall := 100\<rparr>),
    (82, basicBS\<lparr>hardness := 66, cantake := True, solid := True, falltype := Some FT_sand,
       is_slime := True, damage_digg := 1, damage_fall := 20\<rparr>),
    (86, basicBS\<lparr>hardness := 68, solid := True, falltype := Some FT_sand, is_slime := True,
       damage_digg := 10, damage_fall := 20\<rparr>),
    (90, basicBS\<lparr>solid := True\<rparr>),
    (91, basicBS\<lparr>hardness := 43, cantake := True, solid := True, falltype := Some FT_sand,
       damage_fall := 100\<rparr>),
    (92, basicBS\<lparr>hardness := 1041, cantake := True, solid := True,
       falltype := Some FT_bolder, damage_fall := 110\<rparr>),
    (93, basicBS\<lparr>hardness := 1041, cantake := True, solid := True,
       falltype := Some FT_bolder, damage_fall := 110\<rparr>),
    (94, basicBS\<lparr>hardness := 1041, cantake := True, solid := True,
       falltype := Some FT_bolder, damage_fall := 110\<rparr>),
    (97, basicBS\<lparr>hardness := 96, replesable := True, cantake := True, solid := True,
       falltype := Some FT_sand, damage_fall := 10\<rparr>),
    (98, basicBS\<lparr>hardness := 96, replesable := True, cantake := True, solid := True,
       falltype := Some FT_sand, damage_fall := 10\<rparr>),
    (99, basicBS\<lparr>hardness := 43, replesable := True, cantake := True, solid := True,
       falltype := Some FT_sand, damage_fall := 2\<rparr>),
    (100, basicBS\<lparr>hardness := 43, replesable := True, cantake := True, solid := True,
       falltype := Some FT_sand, damage_fall := 2\<rparr>),
    (101, basicBS\<lparr>hasdensity := True, hardness := 66, solid := True,
       damage_fall := 10\<rparr>),
    (102, basicBS\<lparr>hasdensity := True, hardness := 91, solid := True,
       damage_fall := 10\<rparr>),
    (103, basicBS\<lparr>hardness := 43, solid := True, diggablerock := True,
       damage_fall := 10\<rparr>),
    (104, basicBS\<lparr>solid := True, damage_fall := 10000\<rparr>),
    (105, basicBS\<lparr>hasdensity := True, hardness := 391, solid := True,
       damage_fall := 10\<rparr>),
    (106, basicBS\<lparr>solid := True, damage_fall := 10000\<rparr>),
    (107, basicBS\<lparr>hasdensity := True, hardness := 14, cantake := True, solid := True,
       is_cry := True, damage_fall := 50\<rparr>),
    (108, basicBS\<lparr>hasdensity := True, hardness := 96, cantake := True, solid := True,
       is_cry := True, damage_fall := 50\<rparr>),
    (109, basicBS\<lparr>hasdensity := True, hardness := 61, cantake := True, solid := True,
       is_cry := True, damage_fall := 50\<rparr>),
    (110, basicBS\<lparr>hasdensity := True, hardness := 61, cantake := True, solid := True,
       is_cry := True, damage_fall := 50\<rparr>),
    (111, basicBS\<lparr>hasdensity := True, hardness := 61, cantake := True, solid := True,
       is_cry := True, damage_fall := 50\<rparr>),
    (112, basicBS\<lparr>hasdensity := True, hardness := 61, cantake := True, solid := True,
       is_cry := True, damage_fall := 50\<rparr>),
    (113, basicBS\<lparr>hardness := 306, solid := True, diggablerock := True,
       damage_fall := 10\<rparr>),
    (114, basicBS\<lparr>solid := True, damage_fall := 500\<rparr>),
    (115, basicBS\<lparr>solid := True, damage_fall := 500\<rparr>),
    (116, basicBS\<lparr>hardness := 1041, cantake := True, solid := True, is_alive := True,
       damage_fall := 50\<rparr>),
    (117, basicBS\<lparr>solid := True, damage_fall := 1000\<rparr>),
    (118, basicBS\<lparr>hardness := 516, solid := True, replesable := False, diggablerock := True,
       is_slime := True, damage_fall := 10, damage_digg := 5\<rparr>),
    (119, basicBS\<lparr>solid := True, cantake := True, damage_fall := 500\<rparr>),
    (120, basicBS\<lparr>hardness := 1881, solid := True, diggablerock := True,
       damage_fall := 50\<rparr>),
    (121, basicBS\<lparr>hardness := 3666, solid := True, diggablerock := True,
       damage_fall := 70\<rparr>),
    (122, basicBS\<lparr>hardness := 73491, solid := True, diggablerock := True,
       damage_fall := 90\<rparr>)]"

definition BlockStats :: "byte \<Rightarrow> BlockStatistics" where
  "BlockStats b = (case map_of BlockStatsTable b of Some s \<Rightarrow> s | None \<Rightarrow> basicBS)"

section \<open>The enumeration of block identifiers\<close>

definition BlockEnum :: "(string \<times> byte) list" where
  "BlockEnum = [
    (''empty'', 0), (''gate'', 30), (''vulk'', 31), (''ground0'', 32), (''ground1'', 33),
    (''ground2'', 34), (''road'', 35), (''g_road'', 36), (''build_entry'', 37),
    (''build_corner'', 38), (''poly'', 39), (''bolder_black0'', 40), (''bolder_black1'', 41),
    (''bolder_black2'', 42), (''bolder_metal0'', 43), (''bolder_metal1'', 44),
    (''bolder_metal2'', 45), (''block_quadro'', 48), (''block_support'', 49),
    (''alive_cyan'', 50), (''alive_red'', 51), (''alive_vio'', 52), (''alive_black'', 53),
    (''alive_white'', 54), (''alive_reinbow'', 55), (''sand_white0'', 60),
    (''sand_white1'', 61), (''sand_red0'', 62), (''sand_red1'', 63), (''sand_grey0'', 64),
    (''sand_grey1'', 65), (''slime_white'', 66), (''slime_vio'', 67), (''slime_perl'', 68),
    (''cry_x_green'', 71), (''cry_x_blue'', 72), (''cry_x_red'', 73), (''cry_x_cyan'', 74),
    (''cry_x_'', 75), (''block_war_constr'', 80), (''block_war'', 81), (''slime_war'', 82),
    (''slime_yellow'', 86), (''box'', 90), (''magma'', 91), (''bolder_grey0'', 92),
    (''bolder_grey1'', 93), (''bolder_grey2'', 94), (''sand_blue0'', 97), (''sand_blue1'', 98),
    (''sand_yellow0'', 99), (''sand_yellow'', 100), (''block_green'', 101),
    (''block_yellow'', 102), (''rock_vio'', 103), (''block_fed'', 104), (''block_red'', 105),
    (''build_frame'', 106), (''cry_green'', 107), (''cry_red'', 108), (''cry_blue'', 109),
    (''cry_vio'', 110), (''cry_white'', 111), (''cry_cyan'', 112), (''rock_blue'', 113),
    (''rock_black'', 114), (''rock_black_green'', 115), (''alive_blue'', 116),
    (''rock_red'', 117), (''rock_acid'', 118), (''rock_hypno'', 119), (''rock_golden'', 120),
    (''rock_green'', 121), (''rock_shit'', 122)]"

abbreviation Block_empty :: byte where "Block_empty \<equiv> 0"
abbreviation Block_gate :: byte where "Block_gate \<equiv> 30"
abbreviation Block_vulk :: byte where "Block_vulk \<equiv> 31"
abbreviation Block_ground0 :: byte where "Block_ground0 \<equiv> 32"
abbreviation Block_ground1 :: byte where "Block_ground1 \<equiv> 33"
abbreviation Block_ground2 :: byte where "Block_ground2 \<equiv> 34"
abbreviation Block_road :: byte where "Block_road \<equiv> 35"
abbreviation Block_g_road :: byte where "Block_g_road \<equiv> 36"
abbreviation Block_build_entry :: byte where "Block_build_entry \<equiv> 37"
abbreviation Block_build_corner :: byte where "Block_build_corner \<equiv> 38"
abbreviation Block_poly :: byte where "Block_poly \<equiv> 39"
abbreviation Block_bolder_black0 :: byte where "Block_bolder_black0 \<equiv> 40"
abbreviation Block_bolder_black1 :: byte where "Block_bolder_black1 \<equiv> 41"
abbreviation Block_bolder_black2 :: byte where "Block_bolder_black2 \<equiv> 42"
abbreviation Block_bolder_metal0 :: byte where "Block_bolder_metal0 \<equiv> 43"
abbreviation Block_bolder_metal1 :: byte where "Block_bolder_metal1 \<equiv> 44"
abbreviation Block_bolder_metal2 :: byte where "Block_bolder_metal2 \<equiv> 45"
abbreviation Block_block_quadro :: byte where "Block_block_quadro \<equiv> 48"
abbreviation Block_block_support :: byte where "Block_block_support \<equiv> 49"
abbreviation Block_alive_cyan :: byte where "Block_alive_cyan \<equiv> 50"
abbreviation Block_alive_red :: byte where "Block_alive_red \<equiv> 51"
abbreviation Block_alive_vio :: byte where "Block_alive_vio \<equiv> 52"
abbreviation Block_alive_black :: byte where "Block_alive_black \<equiv> 53"
abbreviation Block_alive_white :: byte where "Block_alive_white \<equiv> 54"
abbreviation Block_alive_reinbow :: byte where "Block_alive_reinbow \<equiv> 55"
abbreviation Block_sand_white0 :: byte where "Block_sand_white0 \<equiv> 60"
abbreviation Block_sand_white1 :: byte where "Block_sand_white1 \<equiv> 61"
abbreviation Block_sand_red0 :: byte where "Block_sand_red0 \<equiv> 62"
abbreviation Block_sand_red1 :: byte where "Block_sand_red1 \<equiv> 63"
abbreviation Block_sand_grey0 :: byte where "Block_sand_grey0 \<equiv> 64"
abbreviation Block_sand_grey1 :: byte where "Block_sand_grey1 \<equiv> 65"
abbreviation Block_slime_white :: byte where "Block_slime_white \<equiv> 66"
abbreviation Block_slime_vio :: byte where "Block_slime_vio \<equiv> 67"
abbreviation Block_slime_perl :: byte where "Block_slime_perl \<equiv> 68"
abbreviation Block_cry_x_green :: byte where "Block_cry_x_green \<equiv> 71"
abbreviation Block_cry_x_blue :: byte where "Block_cry_x_blue \<equiv> 72"
abbreviation Block_cry_x_red :: byte where "Block_cry_x_red \<equiv> 73"
abbreviation Block_cry_x_cyan :: byte where "Block_cry_x_cyan \<equiv> 74"
abbreviation Block_cry_x :: byte where "Block_cry_x \<equiv> 75"
abbreviation Block_block_war_constr :: byte where "Block_block_war_constr \<equiv> 80"
abbreviation Block_block_war :: byte where "Block_block_war \<equiv> 81"
abbreviation Block_slime_war :: byte where "Block_slime_war \<equiv> 82"
abbreviation Block_slime_yellow :: byte where "Block_slime_yellow \<equiv> 86"
abbreviation Block_box :: byte where "Block_box \<equiv> 90"
abbreviation Block_magma :: byte where "Block_magma \<equiv> 91"
abbreviation Block_bolder_grey0 :: byte where "Block_bolder_grey0 \<equiv> 92"
abbreviation Block_bolder_grey1 :: byte where "Block_bolder_grey1 \<equiv> 93"
abbreviation Block_bolder_grey2 :: byte where "Block_bolder_grey2 \<equiv> 94"
abbreviation Block_sand_blue0 :: byte where "Block_sand_blue0 \<equiv> 97"
abbreviation Block_sand_blue1 :: byte where "Block_sand_blue1 \<equiv> 98"
abbreviation Block_sand_yellow0 :: byte where "Block_sand_yellow0 \<equiv> 99"
abbreviation Block_sand_yellow :: byte where "Block_sand_yellow \<equiv> 100"
abbreviation Block_block_green :: byte where "Block_block_green \<equiv> 101"
abbreviation Block_block_yellow :: byte where "Block_block_yellow \<equiv> 102"
abbreviation Block_rock_vio :: byte where "Block_rock_vio \<equiv> 103"
abbreviation Block_block_fed :: byte where "Block_block_fed \<equiv> 104"
abbreviation Block_block_red :: byte where "Block_block_red \<equiv> 105"
abbreviation Block_build_frame :: byte where "Block_build_frame \<equiv> 106"
abbreviation Block_cry_green :: byte where "Block_cry_green \<equiv> 107"
abbreviation Block_cry_red :: byte where "Block_cry_red \<equiv> 108"
abbreviation Block_cry_blue :: byte where "Block_cry_blue \<equiv> 109"
abbreviation Block_cry_vio :: byte where "Block_cry_vio \<equiv> 110"
abbreviation Block_cry_white :: byte where "Block_cry_white \<equiv> 111"
abbreviation Block_cry_cyan :: byte where "Block_cry_cyan \<equiv> 112"
abbreviation Block_rock_blue :: byte where "Block_rock_blue \<equiv> 113"
abbreviation Block_rock_black :: byte where "Block_rock_black \<equiv> 114"
abbreviation Block_rock_black_green :: byte where "Block_rock_black_green \<equiv> 115"
abbreviation Block_alive_blue :: byte where "Block_alive_blue \<equiv> 116"
abbreviation Block_rock_red :: byte where "Block_rock_red \<equiv> 117"
abbreviation Block_rock_acid :: byte where "Block_rock_acid \<equiv> 118"
abbreviation Block_rock_hypno :: byte where "Block_rock_hypno \<equiv> 119"
abbreviation Block_rock_golden :: byte where "Block_rock_golden \<equiv> 120"
abbreviation Block_rock_green :: byte where "Block_rock_green \<equiv> 121"
abbreviation Block_rock_shit :: byte where "Block_rock_shit \<equiv> 122"

section \<open>Random pickers\<close>

text \<open>The getters of \<open>FallableBlocks\<close>; \<open>None\<close> is \<open>undefined\<close>: \<open>Block.red1\<close> does not exist.\<close>

definition pick_sand_yellow :: "rat \<Rightarrow> byte option" where
  "pick_sand_yellow u = Some (if RandInt u 0 1 \<noteq> 0 then Block_sand_yellow else Block_sand_yellow0)"

definition pick_sand_blue :: "rat \<Rightarrow> byte option" where
  "pick_sand_blue u = Some (if RandInt u 0 1 \<noteq> 0 then Block_sand_blue0 else Block_sand_blue1)"

definition pick_sand_grey :: "rat \<Rightarrow> byte option" where
  "pick_sand_grey u = Some (if RandInt u 0 1 \<noteq> 0 then Block_sand_grey0 else Block_sand_grey1)"

definition pick_sand_red :: "rat \<Rightarrow> byte option" where
  "pick_sand_red u = (if RandInt u 0 1 \<noteq> 0 then Some Block_sand_red0
                      else map_of BlockEnum ''red1'')"

definition pick_sand_white :: "rat \<Rightarrow> byte option" where
  "pick_sand_white u = Some (if RandInt u 0 1 \<noteq> 0 then Block_sand_white0 else Block_sand_white1)"

definition pick_bolder_black :: "rat \<Rightarrow> byte option" where
  "pick_bolder_black u = Some (Block_bolder_black0 + of_int (RandInt u 0 2))"

definition pick_bolder_grey :: "rat \<Rightarrow> byte option" where
  "pick_bolder_grey u = Some (Block_bolder_grey0 + of_int (RandInt u 0 2))"

definition pick_bolder_metal :: "rat \<Rightarrow> byte option" where
  "pick_bolder_metal u = Some (Block_bolder_metal0 + of_int (RandInt u 0 2))"

section \<open>Facts about the table\<close>

lemma BlockStats_cases:
  assumes "P basicBS" and "list_all (\<lambda>r. P (snd r)) BlockStatsTable"
  shows "P (BlockStats b)"
proof (cases "map_of BlockStatsTable b")
  case None
  then show ?thesis using assms(1) by (simp add: BlockStats_def)
next
  case (Some s)
  then have "(b, s) \<in> set BlockStatsTable" by (rule map_of_SomeD)
  then have "P s" using assms(2) by (force simp: list_all_iff)
  then show ?thesis using Some by (simp add: BlockStats_def)
qed

lemma BlockStats_at:
  "map_of BlockStatsTable b = Some s \<Longrightarrow> BlockStats b = s"
  by (simp add: BlockStats_def)

lemma falltype_solid: "falltype (BlockStats b) \<noteq> None \<Longrightarrow> solid (BlockStats b)"
  by (rule BlockStats_cases [where P = "\<lambda>s. falltype s \<noteq> None \<longrightarrow> solid s", THEN mp])
    (simp_all add: basicBS_def BlockStatsTable_def)

lemma falltype_no_density: "falltype (BlockStats b) \<noteq> None \<Longrightarrow> \<not> hasdensity (BlockStats b)"
  by (rule BlockStats_cases [where P = "\<lambda>s. falltype s \<noteq> None \<longrightarrow> \<not> hasdensity s", THEN mp])
    (simp_all add: basicBS_def BlockStatsTable_def)

lemma falltype_not_alive: "falltype (BlockStats b) \<noteq> None \<Longrightarrow> \<not> is_alive (BlockStats b)"
  by (rule BlockStats_cases [where P = "\<lambda>s. falltype s \<noteq> None \<longrightarrow> \<not> is_alive s", THEN mp])
    (simp_all add: basicBS_def BlockStatsTable_def)

lemma alive_solid: "is_alive (BlockStats b) \<Longrightarrow> solid (BlockStats b)"
  by (rule BlockStats_cases [where P = "\<lambda>s. is_alive s \<longrightarrow> solid s", THEN mp])
    (simp_all add: basicBS_def BlockStatsTable_def)

lemma alive_no_density: "is_alive (BlockStats b) \<Longrightarrow> \<not> hasdensity (BlockStats b)"
  by (rule BlockStats_cases [where P = "\<lambda>s. is_alive s \<longrightarrow> \<not> hasdensity s", THEN mp])
    (simp_all add: basicBS_def BlockStatsTable_def)

lemma hard_solid: "0 \<le> hardness (BlockStats b) \<Longrightarrow> solid (BlockStats b)"
  by (rule BlockStats_cases [where P = "\<lambda>s. 0 \<le> hardness s \<longrightarrow> solid s", THEN mp])
    (simp_all add: basicBS_def BlockStatsTable_def)

lemma cantake_solid: "cantake (BlockStats b) \<Longrightarrow> solid (BlockStats b)"
  by (rule BlockStats_cases [where P = "\<lambda>s. cantake s \<longrightarrow> solid s", THEN mp])
    (simp_all add: basicBS_def BlockStatsTable_def)

lemma cry_facts: "is_cry (BlockStats b) \<Longrightarrow>
    solid (BlockStats b) \<and> hasdensity (BlockStats b) \<and> 0 \<le> hardness (BlockStats b)"
  by (rule BlockStats_cases
      [where P = "\<lambda>s. is_cry s \<longrightarrow> solid s \<and> hasdensity s \<and> 0 \<le> hardness s", THEN mp])
    (simp_all add: basicBS_def BlockStatsTable_def)

lemma basicBS_simps [simp]:
  "\<not> solid basicBS" "\<not> is_alive basicBS" "\<not> hasdensity basicBS" "\<not> cantake basicBS"
  "\<not> replesable basicBS" "falltype basicBS = None" "hardness basicBS = -1" "\<not> is_cry basicBS"
  by (simp_all add: basicBS_def)

lemma BlockStats_0 [simp]: "BlockStats 0 = basicBS"
  by (simp add: BlockStats_def BlockStatsTable_def)

lemma BlockStats_104 [simp]: "BlockStats 104 = basicBS\<lparr>solid := True, damage_fall := 10000\<rparr>"
  by (simp add: BlockStats_def BlockStatsTable_def)

lemma ground_stats [simp]:
  "BlockStats 32 = basicBS\<lparr>replesable := True\<rparr>" "BlockStats 33 = basicBS\<lparr>replesable := True\<rparr>"
  "BlockStats 34 = basicBS\<lparr>replesable := True\<rparr>" "BlockStats 35 = basicBS\<lparr>replesable := True\<rparr>"
  "BlockStats 36 = basicBS" "BlockStats 37 = basicBS"
  by (simp_all add: BlockStats_def BlockStatsTable_def)

lemma built_solid [simp]:
  "solid (BlockStats 101)" "solid (BlockStats 102)" "solid (BlockStats 105)"
  "solid (BlockStats 48)" "solid (BlockStats 49)" "solid (BlockStats 81)"
  "solid (BlockStats 38)" "solid (BlockStats 106)"
  by (simp_all add: BlockStats_def BlockStatsTable_def)

lemma built_not_alive [simp]:
  "\<not> is_alive (BlockStats 101)" "\<not> is_alive (BlockStats 102)" "\<not> is_alive (BlockStats 105)"
  "\<not> is_alive (BlockStats 48)" "\<not> is_alive (BlockStats 49)" "\<not> is_alive (BlockStats 81)"
  by (simp_all add: BlockStats_def BlockStatsTable_def)

lemma crystal_stats [simp]:
  "is_cry (BlockStats 108)" "is_cry (BlockStats 109)" "is_cry (BlockStats 110)"
  "is_cry (BlockStats 111)" "is_cry (BlockStats 112)"
  "\<not> is_alive (BlockStats 108)" "\<not> is_alive (BlockStats 109)" "\<not> is_alive (BlockStats 110)"
  "\<not> is_alive (BlockStats 111)" "\<not> is_alive (BlockStats 112)" "is_alive (BlockStats 116)"
  by (simp_all add: BlockStats_def BlockStatsTable_def)

end
