(* ===== verification/Pack_Store.thy ===== *)
theory Pack_Store
  imports JS_Prelude
begin

text \<open>
  \<open>PacksContainer\<close> of \<^verbatim>\<open>scripts/entitys/packs.js\<close>: the store of buildings, a sparse array
  of 32 by 32 chunks, each a \<open>Map\<close> from the row-major index of a cell to the building entered
  there. The locale \<open>write_once\<close> states what the store promises its clients: a keyed store in
  which the first write of a key wins; the container is an instance of it.
\<close>

section \<open>Buildings as the store sees them (entity.js)\<close>

datatype pack_kind = Pack | Resp | Stock | Craft | Gun | Gate | Market | UP | TP | Clans | Science

record pack =
  pk_kind :: pack_kind
  pk_owner :: int
  pk_clan :: int
  pk_createTime :: rat
  pk_hp :: int
  pk_hpmax :: int
  pk_position :: "(int \<times> int) option"

section \<open>The container\<close>

record packs_container =
  pc_width :: int
  pc_height :: int
  pc_chunk_width :: int
  pc_chunk_height :: int
  pc_length :: int
  pc_chunks_count :: int
  pc_chunks :: "int \<Rightarrow> (int \<Rightarrow> pack option) option"

definition PacksContainer :: "int \<Rightarrow> int \<Rightarrow> packs_container" where
  "PacksContainer w h =
     \<lparr>pc_width = w, pc_height = h, pc_chunk_width = ceil_div32 w, pc_chunk_height = ceil_div32 h,
      pc_length = w * h, pc_chunks_count = ceil_div32 w * ceil_div32 h, pc_chunks = (\<lambda>_. None)\<rparr>"

definition pc_inside :: "packs_container \<Rightarrow> int \<times> int \<Rightarrow> bool" where
  "pc_inside c p = (case p of (x, y) \<Rightarrow> x \<ge> 0 \<and> x < pc_width c \<and> y \<ge> 0 \<and> y < pc_height c)"

definition Packs_Get :: "packs_container \<Rightarrow> int \<Rightarrow> int \<Rightarrow> pack option" where
  "Packs_Get c x y =
     (if pc_inside c (x, y) then
        (let cx = js_shr x 5; cy = js_shr y 5 in
         case pc_chunks c (cx + cy * pc_chunk_width c) of
           Some chunk \<Rightarrow> chunk (x + y * pc_width c)
         | None \<Rightarrow> None)
      else None)"

definition Packs_Set :: "packs_container \<Rightarrow> pack \<Rightarrow> int \<Rightarrow> int \<Rightarrow> packs_container" where
  "Packs_Set c pk x y =
     (if pc_inside c (x, y) then
        (let cx = js_shr x 5; cy = js_shr y 5;
             index = x + y * pc_width c;
             cindex = cx + cy * pc_chunk_width c
         in case pc_chunks c cindex of
              Some chunk \<Rightarrow>
                (if chunk index \<noteq> None then c
                 else c\<lparr>pc_chunks := (pc_chunks c)(cindex := Some (chunk(index := Some pk)))\<rparr>)
            | None \<Rightarrow>
                c\<lparr>pc_chunks := (pc_chunks c)(cindex := Some ((\<lambda>_. None)(index := Some pk)))\<rparr>)
      else c)"

text \<open>
  Outside the grid \<open>GetChunk\<close> logs a warning that mentions the variables \<open>x\<close> and \<open>y\<close>, which
  are not in scope there: the call raises instead of returning \<open>undefined\<close>.
\<close>

definition Packs_GetChunk ::
    "packs_container \<Rightarrow> int \<Rightarrow> int \<Rightarrow> (int \<Rightarrow> pack option) option result" where
  "Packs_GetChunk c cx cy =
     (if cx \<ge> 0 \<and> cx < pc_chunk_width c \<and> cy \<ge> 0 \<and> cy < pc_chunk_height c
      then Inr (pc_chunks c (cx + cy * pc_chunk_width c))
      else Inl ReferenceError)"

section \<open>The interface\<close>

locale write_once =
  fixes inside :: "'s \<Rightarrow> 'k \<Rightarrow> bool"
    and get :: "'s \<Rightarrow> 'k \<Rightarrow> 'v option"
    and put :: "'s \<Rightarrow> 'k \<Rightarrow> 'v \<Rightarrow> 's"
  assumes get_outside: "\<not> inside s k \<Longrightarrow> get s k = None"
    and inside_put: "inside (put s k v) k' = inside s k'"
    and get_put: "get (put s k v) k' =
      (if k' = k \<and> inside s k \<and> get s k = None then Some v else get s k')"
begin

definition view :: "'s \<Rightarrow> 'k \<Rightarrow> 'v option" where
  "view s = (\<lambda>k. get s k)"

lemma view_put:
  "view (put s k v) = (if inside s k \<and> view s k = None then (view s)(k \<mapsto> v) else view s)"
  by (rule ext) (simp add: view_def get_put)

lemma first_write_wins:
  "inside s k \<Longrightarrow> get s k = None \<Longrightarrow> get (put (put s k v) k v') k = Some v"
  by (simp add: get_put inside_put)

lemma put_keeps: "get s k' = Some v' \<Longrightarrow> get (put s k v) k' = Some v'"
  by (auto simp: get_put)

lemma fold_put_keeps:
  "get s k' = Some v' \<Longrightarrow> get (fold (\<lambda>(k, v) s. put s k v) kvs s) k' = Some v'"
  by (induction kvs arbitrary: s) (auto simp: put_keeps)

lemma fold_put_get:
  assumes "inside s k" "get s k = None"
  shows "get (fold (\<lambda>(k, v) s. put s k v) kvs s) k = map_of kvs k"
  using assms
proof (induction kvs arbitrary: s)
  case Nil
  then show ?case by simp
next
  case (Cons kv kvs)
  obtain k1 v1 where kv: "kv = (k1, v1)" by (cases kv)
  show ?case
  proof (cases "k1 = k")
    case True
    then have "get (put s k1 v1) k = Some v1" using Cons.prems by (simp add: get_put)
    then show ?thesis using kv True by (simp add: fold_put_keeps)
  next
    case False
    then have "get (put s k1 v1) k = None" "inside (put s k1 v1) k"
      using Cons.prems by (auto simp: get_put inside_put)
    then show ?thesis using kv False Cons.IH by simp
  qed
qed

end

lemma pc_inside_Set [simp]: "pc_inside (Packs_Set c pk x y) p = pc_inside c p"
  by (auto simp: Packs_Set_def pc_inside_def Let_def split: option.splits prod.splits)

lemma Packs_Get_outside: "\<not> pc_inside c (x, y) \<Longrightarrow> Packs_Get c x y = None"
  by (simp add: Packs_Get_def)

lemma Packs_Set_outside: "\<not> pc_inside c (x, y) \<Longrightarrow> Packs_Set c pk x y = c"
  by (simp add: Packs_Set_def)

lemma Packs_Get_Set:
  "Packs_Get (Packs_Set c pk x y) x' y' =
    (if x' = x \<and> y' = y \<and> pc_inside c (x, y) \<and> Packs_Get c x y = None then Some pk
     else Packs_Get c x' y')"
proof (cases "pc_inside c (x, y) \<and> pc_inside c (x', y')")
  case True
  let ?i = "x + y * pc_width c" and ?i' = "x' + y' * pc_width c"
  have inj: "?i = ?i' \<longleftrightarrow> x' = x \<and> y' = y"
    using True row_index_inj [of x "pc_width c" x' y y'] by (auto simp: pc_inside_def)
  have ins: "pc_inside (Packs_Set c pk x y) (x', y')" using True by simp
  have w: "pc_width (Packs_Set c pk x y) = pc_width c"
      "pc_chunk_width (Packs_Set c pk x y) = pc_chunk_width c"
    by (simp_all add: Packs_Set_def Let_def split: option.splits)
  show ?thesis
    using True inj ins unfolding Packs_Get_def [of "Packs_Set c pk x y"] w
    by (auto simp: Packs_Set_def Packs_Get_def Let_def split: option.splits)
next
  case False
  then show ?thesis by (auto simp: Packs_Get_outside Packs_Set_outside)
qed

interpretation pack_store: write_once pc_inside
  "\<lambda>c p. Packs_Get c (fst p) (snd p)" "\<lambda>c p pk. Packs_Set c pk (fst p) (snd p)"
  by unfold_locales (auto simp: Packs_Get_outside Packs_Get_Set)

section \<open>Properties\<close>

lemma Packs_Get_new [simp]: "Packs_Get (PacksContainer w h) x y = None"
  by (simp add: Packs_Get_def PacksContainer_def)

lemma pc_inside_new [simp]:
  "pc_inside (PacksContainer w h) (x, y) \<longleftrightarrow> 0 \<le> x \<and> x < w \<and> 0 \<le> y \<and> y < h"
  by (auto simp: pc_inside_def PacksContainer_def)

text \<open>
  (C31) The store refines a write-once map: after any sequence of writes to a new container a cell of
  the map holds the building written there first, and a cell outside the map none, although the
  container spreads the buildings over the chunks of a sparse array.
\<close>

theorem Packs_first_write_wins:
  "Packs_Get (fold (\<lambda>(p, pk) c. Packs_Set c pk (fst p) (snd p)) kvs (PacksContainer w h)) x y =
    (if 0 \<le> x \<and> x < w \<and> 0 \<le> y \<and> y < h then map_of kvs (x, y) else None)"
proof (cases "0 \<le> x \<and> x < w \<and> 0 \<le> y \<and> y < h")
  case True
  then show ?thesis
    using pack_store.fold_put_get [of "PacksContainer w h" "(x, y)" kvs] by (simp add: split_beta)
next
  case False
  have "pc_inside (fold (\<lambda>(p, pk) c. Packs_Set c pk (fst p) (snd p)) kvs c) q = pc_inside c q" for c q
    by (induction kvs arbitrary: c) (auto simp: split_beta)
  then have "\<not> pc_inside (fold (\<lambda>(p, pk) c. Packs_Set c pk (fst p) (snd p)) kvs (PacksContainer w h)) (x, y)"
    using False by simp
  then have "Packs_Get (fold (\<lambda>(p, pk) c. Packs_Set c pk (fst p) (snd p)) kvs (PacksContainer w h)) x y = None"
    by (rule Packs_Get_outside)
  then show ?thesis using False by metis
qed

end
