(* ===== verification/World_Map.thy ===== *)
theory World_Map
  imports Blocks Pack_Store "HOL-Library.Multiset"
begin

text \<open>
  \<open>WorldMap\<close> of \<^verbatim>\<open>scripts/wmap.js\<close>: three byte layers of \<open>width * height\<close> cells (the solid
  terrain, the background seen where the terrain is empty, the density of dense blocks), the
  set of living cells and the flags of the active chunks. Every method of the class is a
  definition; \<open>Math.random\<close> is an argument. The layer discipline (\<open>layered\<close>), the sizes of the
  arrays (\<open>wf_map\<close>) and the completeness of the list of living cells (\<open>alive_tracked\<close>) are the
  invariants. The locale \<open>tile_store\<close> is the interface physics and bots rely on.
\<close>

section \<open>State\<close>

record world_map =
  width :: int
  height :: int
  chunkWidth :: int
  chunkHeight :: int
  terrain :: "byte list"
  background :: "byte list"
  blocksMeta :: "byte list"
  packContainer :: packs_container
  activeChunks :: "byte list"
  alivesList :: "int list"

section \<open>Methods\<close>

definition ValidCoords :: "world_map \<Rightarrow> int \<Rightarrow> int \<Rightarrow> bool" where
  "ValidCoords w x y = (x \<ge> 0 \<and> x < width w \<and> y \<ge> 0 \<and> y < height w)"

text \<open>\<open>_SetTile\<close>: a solid block goes to the terrain, any other to the background.\<close>

definition SetTile :: "world_map \<Rightarrow> int \<Rightarrow> byte \<Rightarrow> int \<Rightarrow> world_map" where
  "SetTile w i b density =
     (if solid (BlockStats b) then
        w\<lparr>alivesList := (if is_alive (BlockStats b) then set_add i (alivesList w) else alivesList w),
          terrain := ta_set (terrain w) i b,
          blocksMeta := ta_set (blocksMeta w) i
            (if hasdensity (BlockStats b) then of_int density else 0)\<rparr>
      else w\<lparr>background := ta_set (background w) i b\<rparr>)"

definition SetTileWithCoords :: "world_map \<Rightarrow> int \<Rightarrow> int \<Rightarrow> byte \<Rightarrow> int \<Rightarrow> world_map" where
  "SetTileWithCoords w x y b density =
     (if ValidCoords w x y then SetTile w (x + y * width w) b density else w)"

definition SetTileWithIndex :: "world_map \<Rightarrow> int \<Rightarrow> byte \<Rightarrow> int \<Rightarrow> world_map" where
  "SetTileWithIndex w i b density =
     (if i < int (length (terrain w)) then SetTile w i b density else w)"

definition SetDensity :: "world_map \<Rightarrow> int \<Rightarrow> int \<Rightarrow> int \<Rightarrow> world_map" where
  "SetDensity w x y density =
     (if ValidCoords w x y
      then w\<lparr>blocksMeta := ta_set (blocksMeta w) (x + y * width w) (of_int density)\<rparr> else w)"

definition ta_byte :: "byte list \<Rightarrow> int \<Rightarrow> byte" where
  "ta_byte xs i = (case ta_get xs i of Some b \<Rightarrow> b | None \<Rightarrow> 0)"

definition GetDensity :: "world_map \<Rightarrow> int \<Rightarrow> int \<Rightarrow> byte" where
  "GetDensity w x y =
     (if ValidCoords w x y then ta_byte (blocksMeta w) (x + y * width w) else 0)"

definition DiggTile :: "world_map \<Rightarrow> int \<Rightarrow> int \<Rightarrow> world_map" where
  "DiggTile w x y =
     (let i = x + y * width w in
      case ta_get (blocksMeta w) i of
        Some m \<Rightarrow> (if m > 0 then w\<lparr>blocksMeta := ta_set (blocksMeta w) i (m - 1)\<rparr>
                   else w\<lparr>terrain := ta_set (terrain w) i 0,
                          blocksMeta := ta_set (blocksMeta w) i 0\<rparr>)
      | None \<Rightarrow> w\<lparr>terrain := ta_set (terrain w) i 0, blocksMeta := ta_set (blocksMeta w) i 0\<rparr>)"

definition ClearTile :: "world_map \<Rightarrow> int \<Rightarrow> int \<Rightarrow> bool \<Rightarrow> world_map" where
  "ClearTile w x y clearBackground =
     (let i = x + y * width w in
      w\<lparr>terrain := ta_set (terrain w) i 0,
        background := (if clearBackground then ta_set (background w) i Block_road
                       else background w),
        blocksMeta := ta_set (blocksMeta w) i 0\<rparr>)"

definition GetIDByCoord :: "world_map \<Rightarrow> int \<Rightarrow> int \<Rightarrow> byte" where
  "GetIDByCoord w x y =
     (if ValidCoords w x y then
        (let index = x + y * width w; tid = ta_byte (terrain w) index
         in if tid \<noteq> 0 \<and> solid (BlockStats tid) then tid else ta_byte (background w) index)
      else 104)"

definition GetIDByCoord_Terrain :: "world_map \<Rightarrow> int \<Rightarrow> int \<Rightarrow> byte" where
  "GetIDByCoord_Terrain w x y =
     (if ValidCoords w x y then ta_byte (terrain w) (x + y * width w) else 104)"

definition GetIDByCoord_Terrain_Unsafe :: "world_map \<Rightarrow> int \<Rightarrow> int \<Rightarrow> byte option" where
  "GetIDByCoord_Terrain_Unsafe w x y = ta_get (terrain w) (x + y * width w)"

definition GetMetaByCoord :: "world_map \<Rightarrow> int \<Rightarrow> int \<Rightarrow> byte" where
  "GetMetaByCoord w x y =
     (if ValidCoords w x y then ta_byte (blocksMeta w) (x + y * width w) else 0)"

text \<open>\<open>Fill\<close> with a number and with an array of numbers; \<open>us i\<close> is the draw for cell \<open>i\<close>.\<close>

definition Fill :: "world_map \<Rightarrow> byte \<Rightarrow> world_map" where
  "Fill w b =
     (if solid (BlockStats b) then w\<lparr>terrain := replicate (length (terrain w)) b\<rparr>
      else w\<lparr>background := replicate (min (length (terrain w)) (length (background w))) b
                              @ drop (length (terrain w)) (background w)\<rparr>)"

definition Fill_random :: "world_map \<Rightarrow> byte list \<Rightarrow> (nat \<Rightarrow> rat) \<Rightarrow> world_map" where
  "Fill_random w ids us =
     foldl (\<lambda>w i. let b = ids ! nat \<lfloor>us i * of_nat (length ids)\<rfloor> in
              if solid (BlockStats b) then w\<lparr>terrain := ta_set (terrain w) (int i) b\<rparr>
              else w\<lparr>background := ta_set (background w) (int i) b\<rparr>)
           w [0..<length (terrain w)]"

definition Resyze :: "world_map \<Rightarrow> int \<Rightarrow> int \<Rightarrow> world_map" where
  "Resyze w0 w h =
     (let n = nat (w * h) in
      Fill (w0\<lparr>width := w, chunkWidth := ceil_div32 w, height := h, chunkHeight := ceil_div32 h,
              terrain := replicate n 0, background := replicate n 0, blocksMeta := replicate n 0,
              packContainer := PacksContainer w h,
              activeChunks := replicate (nat (ceil_div32 w * ceil_div32 h)) 0,
              alivesList := []\<rparr>) Block_ground0)"

text \<open>The fields before the constructor runs, and the constructor.\<close>

definition no_map :: world_map where
  "no_map = \<lparr>width = 0, height = 0, chunkWidth = 0, chunkHeight = 0, terrain = [], background = [],
     blocksMeta = [], packContainer = PacksContainer 0 0, activeChunks = [], alivesList = []\<rparr>"

definition WorldMap :: "int \<Rightarrow> int \<Rightarrow> world_map" where
  "WorldMap w h = Resyze no_map w h"

fun rect_cells :: "int \<Rightarrow> int \<Rightarrow> int \<Rightarrow> int \<Rightarrow> (int \<times> int) list" where
  "rect_cells xs ys w h = concat (map (\<lambda>y. map (\<lambda>x. (x, y)) [xs..xs + w - 1]) [ys..ys + h - 1])"

definition FillRect :: "world_map \<Rightarrow> byte \<Rightarrow> int \<Rightarrow> int \<Rightarrow> int \<Rightarrow> int \<Rightarrow> world_map" where
  "FillRect wm b xs ys w h =
     foldl (\<lambda>wm (x, y). SetTileWithCoords wm x y b 0) wm (rect_cells xs ys w h)"

definition ClearRect :: "world_map \<Rightarrow> int \<Rightarrow> int \<Rightarrow> int \<Rightarrow> int \<Rightarrow> world_map" where
  "ClearRect wm xs ys w h =
     foldl (\<lambda>wm (x, y). ClearTile wm x y True) wm (rect_cells xs ys w h)"

section \<open>Loading a world\<close>

text \<open>
  The data of a saved world is a string of hexadecimal digit pairs. \<open>parseInt\<close> of two
  characters with radix 16: leading white space, a sign, a \<open>0x\<close> prefix, the longest run of
  digits; \<open>NaN\<close> is stored in a \<open>Uint8Array\<close> as 0.
\<close>

definition hexval :: "char \<Rightarrow> int option" where
  "hexval c = (let n = of_char c :: int in
     if 48 \<le> n \<and> n \<le> 57 then Some (n - 48)
     else if 97 \<le> n \<and> n \<le> 102 then Some (n - 87)
     else if 65 \<le> n \<and> n \<le> 70 then Some (n - 55)
     else None)"

definition is_space :: "char \<Rightarrow> bool" where
  "is_space c = (let n = of_char c :: int in n = 32 \<or> (9 \<le> n \<and> n \<le> 13))"

definition parse_hex2 :: "char \<Rightarrow> char \<Rightarrow> byte" where
  "parse_hex2 a b =
     (if is_space a \<or> a = CHR ''+'' then of_int (case hexval b of Some l \<Rightarrow> l | None \<Rightarrow> 0)
      else if a = CHR ''-'' then of_int (case hexval b of Some l \<Rightarrow> - l | None \<Rightarrow> 0)
      else if a = CHR ''0'' \<and> (b = CHR ''x'' \<or> b = CHR ''X'') then 0
      else case hexval a of
             None \<Rightarrow> 0
           | Some h \<Rightarrow> of_int (case hexval b of Some l \<Rightarrow> 16 * h + l | None \<Rightarrow> h))"

fun parse_hex :: "string \<Rightarrow> byte list" where
  "parse_hex (a # b # cs) = parse_hex2 a b # parse_hex cs"
| "parse_hex [c] = []"
| "parse_hex [] = []"

text \<open>
  The run-length loop: \<open>c 00 k\<close> with at least three bytes left stands for \<open>k\<close> copies of
  \<open>c\<close>, any other byte for itself.
\<close>

fun rle_expand :: "byte list \<Rightarrow> byte list" where
  "rle_expand (c # z # k # rest) =
     (if z = 0 then replicate (unat k) c @ rle_expand rest else c # rle_expand (z # k # rest))"
| "rle_expand [c, d] = [c, d]"
| "rle_expand [c] = [c]"
| "rle_expand [] = []"

fun place_tiles :: "world_map \<Rightarrow> nat \<Rightarrow> byte list \<Rightarrow> (nat \<Rightarrow> rat) \<Rightarrow> world_map" where
  "place_tiles w wi [] us = w"
| "place_tiles w wi (b # bs) us =
     place_tiles (SetTileWithIndex w (int wi) b (RandInt (us wi) 0 10)) (Suc wi) bs us"

definition LoadWorld :: "world_map \<Rightarrow> int \<Rightarrow> int \<Rightarrow> string \<Rightarrow> (nat \<Rightarrow> rat) \<Rightarrow> world_map" where
  "LoadWorld w0 w h data us = place_tiles (Resyze w0 w h) 0 (rle_expand (parse_hex data)) us"

section \<open>Invariants\<close>

definition wf_map :: "world_map \<Rightarrow> bool" where
  "wf_map w \<longleftrightarrow> 0 \<le> width w \<and> 0 \<le> height w
     \<and> int (length (terrain w)) = width w * height w
     \<and> length (background w) = length (terrain w) \<and> length (blocksMeta w) = length (terrain w)
     \<and> chunkWidth w = ceil_div32 (width w) \<and> chunkHeight w = ceil_div32 (height w)
     \<and> int (length (activeChunks w)) = chunkWidth w * chunkHeight w
     \<and> distinct (alivesList w) \<and> (\<forall>i \<in> set (alivesList w). 0 \<le> i \<and> i < width w * height w)"

definition layered :: "world_map \<Rightarrow> bool" where
  "layered w \<longleftrightarrow> (\<forall>b \<in> set (terrain w). b = 0 \<or> solid (BlockStats b))
     \<and> (\<forall>b \<in> set (background w). \<not> solid (BlockStats b))"

definition alive_tracked :: "world_map \<Rightarrow> bool" where
  "alive_tracked w \<longleftrightarrow>
     (\<forall>i b. ta_get (terrain w) i = Some b \<longrightarrow> is_alive (BlockStats b) \<longrightarrow> i \<in> set (alivesList w))"

definition map_ok :: "world_map \<Rightarrow> bool" where
  "map_ok w \<longleftrightarrow> wf_map w \<and> layered w \<and> alive_tracked w"

lemma wf_lengths: "wf_map w \<Longrightarrow> int (length (terrain w)) = width w * height w
    \<and> length (background w) = length (terrain w) \<and> length (blocksMeta w) = length (terrain w)"
  by (simp add: wf_map_def)

lemma ValidCoords_index:
  "wf_map w \<Longrightarrow> ValidCoords w x y \<Longrightarrow>
    0 \<le> x + y * width w \<and> x + y * width w < int (length (terrain w))"
  using row_index_range [of x "width w" y "height w"] by (simp add: wf_map_def ValidCoords_def)

lemma ValidCoords_inj:
  "ValidCoords w x y \<Longrightarrow> ValidCoords w x' y' \<Longrightarrow>
    x + y * width w = x' + y' * width w \<longleftrightarrow> x = x' \<and> y = y'"
  using row_index_inj [of x "width w" x' y y'] by (auto simp: ValidCoords_def)

lemma dims_SetTile [frame_simps, simp]:
  "width (SetTile w i b d) = width w" "height (SetTile w i b d) = height w"
  "chunkWidth (SetTile w i b d) = chunkWidth w" "chunkHeight (SetTile w i b d) = chunkHeight w"
  "activeChunks (SetTile w i b d) = activeChunks w"
  by (simp_all add: SetTile_def)

lemma dims_SetTileWithCoords [frame_simps, simp]:
  "width (SetTileWithCoords w x y b d) = width w"
  "height (SetTileWithCoords w x y b d) = height w"
  "chunkWidth (SetTileWithCoords w x y b d) = chunkWidth w"
  "chunkHeight (SetTileWithCoords w x y b d) = chunkHeight w"
  "activeChunks (SetTileWithCoords w x y b d) = activeChunks w"
  by (simp_all add: SetTileWithCoords_def)

lemma dims_ClearTile [frame_simps, simp]:
  "width (ClearTile w x y c) = width w" "height (ClearTile w x y c) = height w"
  "chunkWidth (ClearTile w x y c) = chunkWidth w" "chunkHeight (ClearTile w x y c) = chunkHeight w"
  "activeChunks (ClearTile w x y c) = activeChunks w"
  "alivesList (ClearTile w x y c) = alivesList w"
  by (simp_all add: ClearTile_def Let_def)

lemma dims_DiggTile [frame_simps, simp]:
  "width (DiggTile w x y) = width w" "height (DiggTile w x y) = height w"
  "chunkWidth (DiggTile w x y) = chunkWidth w" "chunkHeight (DiggTile w x y) = chunkHeight w"
  "activeChunks (DiggTile w x y) = activeChunks w" "alivesList (DiggTile w x y) = alivesList w"
  "background (DiggTile w x y) = background w"
  by (simp_all add: DiggTile_def Let_def split: option.splits)

lemma dims_SetDensity [frame_simps, simp]:
  "width (SetDensity w x y d) = width w" "height (SetDensity w x y d) = height w"
  "terrain (SetDensity w x y d) = terrain w" "background (SetDensity w x y d) = background w"
  "alivesList (SetDensity w x y d) = alivesList w"
  by (simp_all add: SetDensity_def)

lemma wf_SetTile: "wf_map w \<Longrightarrow> 0 \<le> i \<Longrightarrow> i < width w * height w \<Longrightarrow> wf_map (SetTile w i b d)"
  by (auto simp: wf_map_def SetTile_def)

lemma wf_SetTileWithCoords [wf_intros]: "wf_map w \<Longrightarrow> wf_map (SetTileWithCoords w x y b d)"
  using ValidCoords_index [of w x y] wf_lengths [of w]
  by (auto simp: SetTileWithCoords_def intro!: wf_SetTile)

lemma wf_SetTileWithIndex [wf_intros]: "wf_map w \<Longrightarrow> 0 \<le> i \<Longrightarrow> wf_map (SetTileWithIndex w i b d)"
  using wf_lengths [of w] by (auto simp: SetTileWithIndex_def intro!: wf_SetTile)

lemma wf_ClearTile [wf_intros]: "wf_map w \<Longrightarrow> wf_map (ClearTile w x y c)"
  by (simp add: ClearTile_def wf_map_def Let_def)

lemma wf_DiggTile [wf_intros]: "wf_map w \<Longrightarrow> wf_map (DiggTile w x y)"
  by (simp add: DiggTile_def wf_map_def Let_def split: option.splits)

lemma wf_SetDensity [wf_intros]: "wf_map w \<Longrightarrow> wf_map (SetDensity w x y d)"
  by (simp add: SetDensity_def wf_map_def)

lemma ta_byte_set:
  "0 \<le> i \<Longrightarrow> i < int (length xs) \<Longrightarrow> ta_byte (ta_set xs i v) j = (if j = i then v else ta_byte xs j)"
  by (simp add: ta_byte_def ta_get_set)

lemma ta_byte_in_set: "0 \<le> i \<Longrightarrow> i < int (length xs) \<Longrightarrow> ta_byte xs i \<in> set xs"
  by (simp add: ta_byte_def ta_get_def)

lemma layered_SetTile: "layered w \<Longrightarrow> layered (SetTile w i b d)"
  by (auto simp: layered_def SetTile_def dest!: ta_get_set_mem)

lemma layered_SetTileWithCoords [wf_intros]: "layered w \<Longrightarrow> layered (SetTileWithCoords w x y b d)"
  by (simp add: SetTileWithCoords_def layered_SetTile)

lemma layered_SetTileWithIndex [wf_intros]: "layered w \<Longrightarrow> layered (SetTileWithIndex w i b d)"
  by (simp add: SetTileWithIndex_def layered_SetTile)

lemma layered_ClearTile [wf_intros]: "layered w \<Longrightarrow> layered (ClearTile w x y c)"
  by (auto simp: layered_def ClearTile_def Let_def dest!: ta_get_set_mem)

lemma layered_DiggTile [wf_intros]: "layered w \<Longrightarrow> layered (DiggTile w x y)"
  by (auto simp: layered_def DiggTile_def Let_def dest!: ta_get_set_mem split: option.splits if_splits)

lemma layered_SetDensity [wf_intros]: "layered w \<Longrightarrow> layered (SetDensity w x y d)"
  by (simp add: layered_def)

lemma tracked_SetTile: "alive_tracked w \<Longrightarrow> alive_tracked (SetTile w i b d)"
  by (auto simp: alive_tracked_def SetTile_def ta_get_set split: if_splits)

lemma tracked_SetTileWithCoords [wf_intros]:
  "alive_tracked w \<Longrightarrow> alive_tracked (SetTileWithCoords w x y b d)"
  by (simp add: SetTileWithCoords_def tracked_SetTile)

lemma tracked_SetTileWithIndex [wf_intros]:
  "alive_tracked w \<Longrightarrow> alive_tracked (SetTileWithIndex w i b d)"
  by (simp add: SetTileWithIndex_def tracked_SetTile)

lemma tracked_ClearTile [wf_intros]: "alive_tracked w \<Longrightarrow> alive_tracked (ClearTile w x y c)"
  by (auto simp: alive_tracked_def ClearTile_def Let_def ta_get_set split: if_splits)

lemma tracked_DiggTile [wf_intros]: "alive_tracked w \<Longrightarrow> alive_tracked (DiggTile w x y)"
  by (auto simp: alive_tracked_def DiggTile_def Let_def ta_get_set split: if_splits option.splits)

lemma tracked_SetDensity [wf_intros]: "alive_tracked w \<Longrightarrow> alive_tracked (SetDensity w x y d)"
  by (simp add: alive_tracked_def)

lemma ok_SetTileWithCoords [wf_intros]: "map_ok w \<Longrightarrow> map_ok (SetTileWithCoords w x y b d)"
  by (simp add: map_ok_def wf_intros)

lemma ok_ClearTile [wf_intros]: "map_ok w \<Longrightarrow> map_ok (ClearTile w x y c)"
  by (simp add: map_ok_def wf_intros)

lemma ok_DiggTile [wf_intros]: "map_ok w \<Longrightarrow> map_ok (DiggTile w x y)"
  by (simp add: map_ok_def wf_intros)

lemma ok_SetDensity [wf_intros]: "map_ok w \<Longrightarrow> map_ok (SetDensity w x y d)"
  by (simp add: map_ok_def wf_intros)

lemma ok_SetTileWithIndex [wf_intros]:
  "map_ok w \<Longrightarrow> 0 \<le> i \<Longrightarrow> map_ok (SetTileWithIndex w i b d)"
  by (simp add: map_ok_def wf_intros)

lemma wf_Resyze: "0 \<le> w \<Longrightarrow> 0 \<le> h \<Longrightarrow> wf_map (Resyze w0 w h)"
  by (simp add: wf_map_def Resyze_def Fill_def Let_def ceil_div32_eq)

lemma ok_Resyze [wf_intros]: "0 \<le> w \<Longrightarrow> 0 \<le> h \<Longrightarrow> map_ok (Resyze w0 w h)"
  unfolding map_ok_def
  by (intro conjI wf_Resyze)
    (auto simp: layered_def alive_tracked_def Resyze_def Fill_def Let_def dest!: ta_get_SomeD)

lemma ok_place_tiles [wf_intros]: "map_ok w \<Longrightarrow> map_ok (place_tiles w wi bs us)"
  by (induction bs arbitrary: w wi) (simp_all add: ok_SetTileWithIndex)

lemma ok_FillRect [wf_intros]: "map_ok w \<Longrightarrow> map_ok (FillRect w b xs ys rw rh)"
  unfolding FillRect_def by (rule foldl_invariant) (auto intro: wf_intros)

lemma ok_ClearRect [wf_intros]: "map_ok w \<Longrightarrow> map_ok (ClearRect w xs ys rw rh)"
  unfolding ClearRect_def by (rule foldl_invariant) (auto intro: wf_intros)

section \<open>Reading back what was written\<close>

lemma Terrain_SetTileWithCoords:
  assumes "wf_map w" "ValidCoords w x y"
  shows "GetIDByCoord_Terrain (SetTileWithCoords w x y b d) x' y' =
    (if x' = x \<and> y' = y \<and> solid (BlockStats b) then b else GetIDByCoord_Terrain w x' y')"
proof (cases "ValidCoords w x' y'")
  case True
  then show ?thesis
    using assms ValidCoords_index [OF assms] ValidCoords_inj [OF True assms(2)]
    by (auto simp: GetIDByCoord_Terrain_def SetTileWithCoords_def SetTile_def ta_byte_set
        ValidCoords_def)
next
  case False
  then show ?thesis using assms
    by (auto simp: GetIDByCoord_Terrain_def SetTileWithCoords_def SetTile_def ValidCoords_def)
qed

lemma Terrain_ClearTile:
  assumes "wf_map w" "ValidCoords w x y"
  shows "GetIDByCoord_Terrain (ClearTile w x y c) x' y' =
    (if x' = x \<and> y' = y then 0 else GetIDByCoord_Terrain w x' y')"
proof (cases "ValidCoords w x' y'")
  case True
  then show ?thesis
    using assms ValidCoords_index [OF assms] ValidCoords_inj [OF True assms(2)]
    by (auto simp: GetIDByCoord_Terrain_def ClearTile_def Let_def ta_byte_set ValidCoords_def)
next
  case False
  then show ?thesis using assms
    by (auto simp: GetIDByCoord_Terrain_def ClearTile_def Let_def ValidCoords_def)
qed

lemma Terrain_outside: "\<not> ValidCoords w x y \<Longrightarrow> GetIDByCoord_Terrain w x y = 104"
  by (simp add: GetIDByCoord_Terrain_def)

lemma ValidCoords_frame [simp]:
  "ValidCoords (SetTileWithCoords w x y b d) x' y' = ValidCoords w x' y'"
  "ValidCoords (ClearTile w x y c) x' y' = ValidCoords w x' y'"
  "ValidCoords (DiggTile w x y) x' y' = ValidCoords w x' y'"
  "ValidCoords (SetDensity w x y d) x' y' = ValidCoords w x' y'"
  by (simp_all add: ValidCoords_def)

lemma GetID_layers:
  assumes "map_ok w" "ValidCoords w x y"
  shows "GetIDByCoord w x y = (if GetIDByCoord_Terrain w x y = 0 then ta_byte (background w) (x + y * width w)
      else GetIDByCoord_Terrain w x y)"
    and "\<not> solid (BlockStats (ta_byte (background w) (x + y * width w)))"
proof -
  let ?i = "x + y * width w"
  have wf: "wf_map w" using assms(1) by (simp add: map_ok_def)
  have r: "0 \<le> ?i" "?i < int (length (terrain w))" "?i < int (length (background w))"
    using ValidCoords_index [OF wf assms(2)] wf_lengths [OF wf] by auto
  have "ta_byte (terrain w) ?i \<in> set (terrain w)" "ta_byte (background w) ?i \<in> set (background w)"
    using r by (simp_all add: ta_byte_in_set)
  then have "ta_byte (terrain w) ?i = 0 \<or> solid (BlockStats (ta_byte (terrain w) ?i))"
      "\<not> solid (BlockStats (ta_byte (background w) ?i))"
    using assms(1) by (auto simp: map_ok_def layered_def)
  then show "GetIDByCoord w x y = (if GetIDByCoord_Terrain w x y = 0 then ta_byte (background w) ?i
      else GetIDByCoord_Terrain w x y)" "\<not> solid (BlockStats (ta_byte (background w) ?i))"
    using assms(2) by (auto simp: GetIDByCoord_def GetIDByCoord_Terrain_def Let_def)
qed

lemma GetID_solid_terrain:
  assumes "map_ok w" "solid (BlockStats (GetIDByCoord w x y))" "ValidCoords w x y"
  shows "GetIDByCoord_Terrain w x y = GetIDByCoord w x y"
  using GetID_layers [OF assms(1,3)] assms(2) by (auto split: if_splits)

lemma background_ClearTile: "background (ClearTile w x y False) = background w"
  by (simp add: ClearTile_def Let_def)

lemma visible_after_put:
  assumes "map_ok w" "ValidCoords w x y" "solid (BlockStats t) \<or> \<not> solid (BlockStats (GetIDByCoord w x y))"
  shows "GetIDByCoord (SetTileWithCoords w x y t d) x y = t"
proof -
  let ?w = "SetTileWithCoords w x y t d"
  have wf: "wf_map w" using assms(1) by (simp add: map_ok_def)
  have ok: "map_ok ?w" and v: "ValidCoords ?w x y" using assms(1,2) by (simp_all add: wf_intros)
  have len: "0 \<le> x + y * width w" "x + y * width w < int (length (background w))"
    using ValidCoords_index [OF wf assms(2)] wf_lengths [OF wf] by auto
  show ?thesis
  proof (cases "solid (BlockStats t)")
    case True
    then have "t \<noteq> 0" by auto
    with True show ?thesis
      using GetID_layers(1) [OF ok v] Terrain_SetTileWithCoords [OF wf assms(2)] by simp
  next
    case False
    then have free: "\<not> solid (BlockStats (GetIDByCoord w x y))" using assms(3) by simp
    have "GetIDByCoord_Terrain w x y = 0"
    proof (rule ccontr)
      assume nz: "GetIDByCoord_Terrain w x y \<noteq> 0"
      then have "GetIDByCoord_Terrain w x y \<in> set (terrain w)"
        using ValidCoords_index [OF wf assms(2)] assms(2) by (simp add: GetIDByCoord_Terrain_def ta_byte_in_set)
      then show False using nz free GetID_layers(1) [OF assms(1,2)] assms(1)
        by (auto simp: map_ok_def layered_def)
    qed
    then show ?thesis
      using False GetID_layers(1) [OF ok v] Terrain_SetTileWithCoords [OF wf assms(2), of t d x y] len
      by simp (simp add: SetTileWithCoords_def SetTile_def assms(2) ta_byte_set)
  qed
qed

lemma not_fed_valid: "GetIDByCoord w x y \<noteq> 104 \<Longrightarrow> ValidCoords w x y"
  by (auto simp: GetIDByCoord_def split: if_splits)

lemma GetID_SetTile_other:
  assumes "wf_map w" "(x', y') \<noteq> (x, y)"
  shows "GetIDByCoord (SetTileWithCoords w x y b d) x' y' = GetIDByCoord w x' y'"
proof (cases "ValidCoords w x y \<and> ValidCoords w x' y'")
  case True
  then have "x' + y' * width w \<noteq> x + y * width w" using ValidCoords_inj [of w x' y' x y] assms(2) by auto
  then show ?thesis
    by (auto simp: GetIDByCoord_def SetTileWithCoords_def SetTile_def ValidCoords_def ta_byte_def Let_def)
next
  case False
  then show ?thesis
    by (auto simp: GetIDByCoord_def SetTileWithCoords_def SetTile_def ValidCoords_def Let_def)
qed

section \<open>The interface physics and bots rely on\<close>

definition cell_grid :: "world_map \<Rightarrow> (int \<times> int) set" where
  "cell_grid w = {0..<width w} \<times> {0..<height w}"

lemma finite_cell_grid [simp]: "finite (cell_grid w)"
  by (simp add: cell_grid_def)

lemma cell_grid_iff [simp]: "(x, y) \<in> cell_grid w \<longleftrightarrow> ValidCoords w x y"
  by (auto simp: cell_grid_def ValidCoords_def)

lemma image_mset_swap:
  assumes "finite A" "p \<in> A" "q \<in> A" "p \<noteq> q" "g p = f q" "g q = f p"
    and "\<And>r. r \<in> A \<Longrightarrow> r \<noteq> p \<Longrightarrow> r \<noteq> q \<Longrightarrow> g r = f r"
  shows "image_mset g (mset_set A) = image_mset f (mset_set A)"
proof -
  let ?B = "A - {p, q}"
  have A: "mset_set A = add_mset p (add_mset q (mset_set ?B))"
  proof -
    have "A = insert p (insert q ?B)" using assms(2,3) by auto
    then have "mset_set A = mset_set (insert p (insert q ?B))" by simp
    then show ?thesis using assms(1,4) by simp
  qed
  have "image_mset g (mset_set ?B) = image_mset f (mset_set ?B)"
    using assms(1,7) by (intro image_mset_cong) auto
  then show ?thesis unfolding A using assms(5,6) by (simp add: add_mset_commute)
qed

locale tile_store =
  fixes grid :: "'w \<Rightarrow> (int \<times> int) set"
    and tile :: "'w \<Rightarrow> int \<times> int \<Rightarrow> byte"
    and put :: "'w \<Rightarrow> int \<times> int \<Rightarrow> byte \<Rightarrow> 'w"
    and wipe :: "'w \<Rightarrow> int \<times> int \<Rightarrow> 'w"
    and invar :: "'w \<Rightarrow> bool"
  assumes finite_grid: "finite (grid w)"
    and tile_outside: "p \<notin> grid w \<Longrightarrow> tile w p = 104"
    and grid_put: "grid (put w p b) = grid w"
    and grid_wipe: "grid (wipe w p) = grid w"
    and tile_put: "invar w \<Longrightarrow> p \<in> grid w \<Longrightarrow> solid (BlockStats b) \<Longrightarrow>
      tile (put w p b) q = (if q = p then b else tile w q)"
    and tile_wipe: "invar w \<Longrightarrow> p \<in> grid w \<Longrightarrow> tile (wipe w p) q = (if q = p then 0 else tile w q)"
    and invar_put: "invar w \<Longrightarrow> invar (put w p b)"
    and invar_wipe: "invar w \<Longrightarrow> invar (wipe w p)"
begin

definition shift :: "'w \<Rightarrow> int \<times> int \<Rightarrow> int \<times> int \<Rightarrow> 'w" where
  "shift w p q = put (wipe w p) q (tile w p)"

definition census :: "'w \<Rightarrow> byte multiset" where
  "census w = image_mset (tile w) (mset_set (grid w))"

lemma shift_grid: "grid (shift w p q) = grid w"
  by (simp add: shift_def grid_put grid_wipe)

lemma shift_invar: "invar w \<Longrightarrow> invar (shift w p q)"
  by (simp add: shift_def invar_put invar_wipe)

lemma tile_shift:
  assumes "invar w" "p \<in> grid w" "q \<in> grid w" "p \<noteq> q" "solid (BlockStats (tile w p))"
  shows "tile (shift w p q) r = (if r = q then tile w p else if r = p then 0 else tile w r)"
  using assms by (simp add: shift_def tile_put tile_wipe invar_wipe grid_wipe)

lemma census_shift:
  assumes "invar w" "p \<in> grid w" "q \<in> grid w" "p \<noteq> q" "solid (BlockStats (tile w p))"
    and "tile w q = 0"
  shows "census (shift w p q) = census w"
  unfolding census_def shift_grid
  by (rule image_mset_swap [OF finite_grid assms(2-4)]) (use assms in \<open>simp_all add: tile_shift\<close>)

lemma census_put_free:
  assumes "invar w" "p \<in> grid w" "solid (BlockStats b)" "tile w p = 0"
  shows "census (put w p b) + {#0#} = census w + {#b#}"
proof -
  let ?B = "grid w - {p}"
  have A: "mset_set (grid w) = add_mset p (mset_set ?B)"
    by (rule mset_set.remove [OF finite_grid assms(2)])
  have "image_mset (tile (put w p b)) (mset_set ?B) = image_mset (tile w) (mset_set ?B)"
    using finite_grid assms by (intro image_mset_cong) (auto simp: tile_put)
  then show ?thesis unfolding census_def grid_put A using assms by (simp add: tile_put)
qed

end

interpretation wmap: tile_store cell_grid
  "\<lambda>w p. GetIDByCoord_Terrain w (fst p) (snd p)"
  "\<lambda>w p b. SetTileWithCoords w (fst p) (snd p) b 0"
  "\<lambda>w p. ClearTile w (fst p) (snd p) False" wf_map
  by unfold_locales
    (auto simp: Terrain_outside Terrain_SetTileWithCoords Terrain_ClearTile wf_intros cell_grid_def
      simp flip: cell_grid_iff)

section \<open>Digging\<close>

abbreviation digg_at :: "int \<Rightarrow> int \<Rightarrow> world_map \<Rightarrow> world_map" where
  "digg_at x y w \<equiv> DiggTile w x y"

lemma unat_pred: "(m :: byte) > 0 \<Longrightarrow> unat (m - 1) = unat m - 1"
  by (metis unat_minus_one word_neq_0_conv)

lemma Meta_at: "wf_map w \<Longrightarrow> ValidCoords w x y \<Longrightarrow>
    ta_get (blocksMeta w) (x + y * width w) = Some (GetMetaByCoord w x y)"
  using ValidCoords_index [of w x y] wf_lengths [of w]
  by (simp add: GetMetaByCoord_def ta_byte_def ta_get_in_range)

lemma DiggTile_dense:
  assumes "wf_map w" "ValidCoords w x y" "GetMetaByCoord w x y > 0"
  shows "GetMetaByCoord (DiggTile w x y) x y = GetMetaByCoord w x y - 1"
    and "terrain (DiggTile w x y) = terrain w"
  using assms ValidCoords_index [of w x y] wf_lengths [of w] Meta_at [OF assms(1,2)]
  by (simp_all add: DiggTile_def Let_def GetMetaByCoord_def [of "DiggTile w x y"] ta_byte_set
      GetMetaByCoord_def [of "w\<lparr>blocksMeta := _\<rparr>"] ValidCoords_def)

lemma DiggTile_bare:
  assumes "wf_map w" "ValidCoords w x y" "GetMetaByCoord w x y = 0"
  shows "GetIDByCoord_Terrain (DiggTile w x y) x' y' =
    (if x' = x \<and> y' = y then 0 else GetIDByCoord_Terrain w x' y')"
proof -
  have "DiggTile w x y = ClearTile w x y False"
    using assms Meta_at [OF assms(1,2)] by (simp add: DiggTile_def ClearTile_def Let_def)
  then show ?thesis by (simp add: Terrain_ClearTile assms)
qed

text \<open>
  (C20) A block of density \<open>n\<close> survives exactly \<open>n\<close> calls of \<open>DiggTile\<close>: the terrain layer is
  untouched after any \<open>k \<le> n\<close> digs and the cell is empty after \<open>n + 1\<close>.
\<close>

theorem DiggTile_layers:
  assumes "wf_map w" "ValidCoords w x y" 
  shows "unat (GetMetaByCoord w x y) = n \<Longrightarrow>
    (\<forall>k \<le> n. terrain ((digg_at x y ^^ k) w) = terrain w)
    \<and> GetIDByCoord_Terrain ((digg_at x y ^^ Suc n) w) x y = 0"
  using assms
proof (induction n arbitrary: w)
  case 0
  then have "GetMetaByCoord w x y = 0" by (simp add: unat_eq_zero)
  then show ?case using DiggTile_bare [OF "0.prems"(2,3)] by simp
next
  case (Suc n)
  then have pos: "GetMetaByCoord w x y > 0" by (metis unat_gt_0 zero_less_Suc word_neq_0_conv)
  let ?w = "DiggTile w x y"
  have "unat (GetMetaByCoord ?w x y) = n"
    using DiggTile_dense(1) [OF Suc.prems(2,3) pos] unat_pred [OF pos] Suc.prems(1) by simp
  then have IH: "(\<forall>k \<le> n. terrain ((digg_at x y ^^ k) ?w) = terrain ?w)
      \<and> GetIDByCoord_Terrain ((digg_at x y ^^ Suc n) ?w) x y = 0"
    using Suc.prems by (intro Suc.IH) (auto intro: wf_intros)
  have same: "terrain ?w = terrain w" by (rule DiggTile_dense(2) [OF Suc.prems(2,3) pos])
  show ?case
  proof (intro conjI allI impI)
    fix k assume "k \<le> Suc n"
    then show "terrain ((digg_at x y ^^ k) w) = terrain w"
      using IH same by (cases k) (auto simp: funpow_swap1 simp del: funpow.simps(2) simp add: funpow_Suc_right)
  next
    show "GetIDByCoord_Terrain ((digg_at x y ^^ Suc (Suc n)) w) x y = 0"
      using IH by (simp only: funpow_Suc_right o_apply)
  qed
qed

section \<open>The run-length format\<close>

text \<open>A reference encoder: every run of at most 255 equal tiles becomes one triple.\<close>

fun rle_encode :: "byte list \<Rightarrow> byte list" where
  "rle_encode [] = []"
| "rle_encode (b # bs) =
     (let n = length (takeWhile (\<lambda>c. c = b) (b # bs)); k = min n 255
      in b # 0 # of_nat k # rle_encode (drop k (b # bs)))"

text \<open>
  (C21) The run-length format of saved worlds can express every sequence of tiles: what the
  loader expands from the triples of the reference encoder is the sequence encoded.
\<close>

theorem rle_roundtrip: "rle_expand (rle_encode bs) = bs"
proof (induction bs rule: rle_encode.induct)
  case 1
  then show ?case by simp
next
  case (2 b bs)
  let ?n = "length (takeWhile (\<lambda>c. c = b) (b # bs))" 
  let ?k = "min ?n 255"
  have k: "1 \<le> ?k" "?k \<le> 255" "?k \<le> ?n" by simp_all
  have rep: "replicate ?k b = take ?k (b # bs)"
  proof -
    have "take ?k (b # bs) = take ?k (takeWhile (\<lambda>c. c = b) (b # bs))"
      using k(3) by (metis takeWhile_eq_take take_take min.absorb1)
    also have "takeWhile (\<lambda>c. c = b) (b # bs) = replicate ?n b"
      by (rule replicate_eqI) (auto dest: set_takeWhileD)
    finally show ?thesis using k by simp
  qed
  define k' where "k' = ?k"
  have "k' \<le> 255" unfolding k'_def by (rule k(2))
  then have "k' < 2 ^ 8" by simp
  then have "unat (of_nat k' :: byte) = k'" by (simp add: unat_of_nat)
  then have "rle_expand (rle_encode (b # bs)) = replicate ?k b @ rle_expand (rle_encode (drop ?k (b # bs)))"
    unfolding k'_def by (simp only: rle_encode.simps Let_def rle_expand.simps simp_thms if_True)
  also have "\<dots> = take ?k (b # bs) @ drop ?k (b # bs)"
    using "2" rep by (simp add: Let_def)
  finally show ?case by simp
qed

section \<open>A loaded world\<close>

definition id_at :: "world_map \<Rightarrow> int \<Rightarrow> byte" where
  "id_at w i = (let tid = ta_byte (terrain w) i in
     if tid \<noteq> 0 \<and> solid (BlockStats tid) then tid else ta_byte (background w) i)"

lemma GetIDByCoord_id_at: "ValidCoords w x y \<Longrightarrow> GetIDByCoord w x y = id_at w (x + y * width w)"
  by (simp add: GetIDByCoord_def id_at_def Let_def)

lemma solid_nonzero: "solid (BlockStats b) \<Longrightarrow> b \<noteq> 0"
  by auto

lemma id_at_SetTileWithIndex_same:
  assumes "wf_map w" "0 \<le> i" "i < int (length (terrain w))" "ta_byte (terrain w) i = 0"
  shows "id_at (SetTileWithIndex w i b d) i = b"
  using assms wf_lengths [of w] solid_nonzero [of b]
  by (auto simp: id_at_def SetTileWithIndex_def SetTile_def Let_def ta_byte_set)

lemma SetTileWithIndex_other:
  assumes "i \<noteq> j"
  shows "ta_byte (terrain (SetTileWithIndex w i b d)) j = ta_byte (terrain w) j"
    and "ta_byte (background (SetTileWithIndex w i b d)) j = ta_byte (background w) j"
  using assms by (simp_all add: SetTileWithIndex_def SetTile_def ta_byte_def)

lemma length_SetTileWithIndex [simp]:
  "length (terrain (SetTileWithIndex w i b d)) = length (terrain w)"
  by (simp add: SetTileWithIndex_def SetTile_def)

lemma place_tiles_frame:
  "j < int wi \<Longrightarrow> ta_byte (terrain (place_tiles w wi bs us)) j = ta_byte (terrain w) j
     \<and> ta_byte (background (place_tiles w wi bs us)) j = ta_byte (background w) j"
  by (induction bs arbitrary: w wi) (simp_all add: SetTileWithIndex_other)

lemma place_tiles_id_at:
  assumes "wf_map w" "\<forall>j \<ge> int wi. ta_byte (terrain w) j = 0" "k < length bs"
    and "int (wi + k) < int (length (terrain w))"
  shows "id_at (place_tiles w wi bs us) (int (wi + k)) = bs ! k"
  using assms
proof (induction bs arbitrary: w wi k)
  case Nil
  then show ?case by simp
next
  case (Cons b bs)
  let ?w = "SetTileWithIndex w (int wi) b (RandInt (us wi) 0 10)"
  show ?case
  proof (cases k)
    case 0
    have "id_at ?w (int wi) = b"
      using Cons.prems 0 by (intro id_at_SetTileWithIndex_same) auto
    moreover have "id_at (place_tiles ?w (Suc wi) bs us) (int wi) = id_at ?w (int wi)"
      by (simp add: id_at_def place_tiles_frame Let_def)
    ultimately show ?thesis using 0 by simp
  next
    case (Suc k')
    have z: "\<forall>j \<ge> int (Suc wi). ta_byte (terrain ?w) j = 0"
      using Cons.prems(2) by (auto simp: SetTileWithIndex_other)
    have "id_at (place_tiles ?w (Suc wi) bs us) (int (Suc wi + k')) = bs ! k'"
      using Cons.prems Suc by (intro Cons.IH z) (auto intro: wf_intros)
    then show ?thesis using Suc by simp
  qed
qed

lemma dims_place_tiles [simp]:
  "width (place_tiles w wi bs us) = width w" "height (place_tiles w wi bs us) = height w"
  by (induction bs arbitrary: w wi) (simp_all add: SetTileWithIndex_def)

lemma Resyze_blank: "width (Resyze w0 w h) = w" "height (Resyze w0 w h) = h"
    "terrain (Resyze w0 w h) = replicate (nat (w * h)) 0"
  by (simp_all add: Resyze_def Fill_def Let_def)

text \<open>
  (C18) After \<open>LoadWorld\<close> the cell with row-major index \<open>i\<close> reads as the \<open>i\<close>-th tile of the expanded
  data, whichever layer the tile was stored in.
\<close>

theorem LoadWorld_reads:
  assumes "0 < w" "0 < h" "int i < w * h" "i < length (rle_expand (parse_hex data))"
  shows "GetIDByCoord (LoadWorld w0 w h data us) (int i mod w) (int i div w)
    = rle_expand (parse_hex data) ! i"
proof -
  let ?r = "Resyze w0 w h" and ?bs = "rle_expand (parse_hex data)"
  have "int i div w < h"
    using assms(1,3) by (rule row_of_index_lt)
  then have valid: "ValidCoords (LoadWorld w0 w h data us) (int i mod w) (int i div w)"
    using assms(1) by (simp add: ValidCoords_def LoadWorld_def Resyze_blank pos_imp_zdiv_nonneg_iff)
  have z: "\<forall>j \<ge> int 0. ta_byte (terrain ?r) j = 0"
    by (auto simp: ta_byte_def Resyze_blank ta_get_def)
  have "id_at (place_tiles ?r 0 ?bs us) (int (0 + i)) = ?bs ! i"
    using assms z by (intro place_tiles_id_at) (auto intro: wf_Resyze simp: Resyze_blank)
  then show ?thesis
    using valid row_index_decode [OF assms(1), of "int i"]
    by (simp add: GetIDByCoord_id_at LoadWorld_def Resyze_blank)
qed

theorem DiggTile_layers_witness:
  "GetIDByCoord_Terrain ((digg_at 1 0 ^^ Suc 2)
     (SetTileWithCoords (Resyze no_map 2 2) 1 0 107 2)) 1 0 = 0"
proof -
  let ?w = "SetTileWithCoords (Resyze no_map 2 2) 1 0 107 2"
  have ok: "wf_map ?w" by (intro wf_intros wf_Resyze) simp_all
  have v: "ValidCoords ?w 1 0" by (simp add: ValidCoords_def Resyze_blank)
  have "hasdensity (BlockStats 107)" "solid (BlockStats 107)"
    by (simp_all add: BlockStats_def BlockStatsTable_def)
  then have "unat (GetMetaByCoord ?w 1 0) = 2"
    by (simp add: GetMetaByCoord_def SetTileWithCoords_def SetTile_def ValidCoords_def ta_byte_def
        ta_get_def ta_set_def Resyze_def Fill_def Let_def)
  from DiggTile_layers [OF ok v this] show ?thesis by simp
qed

theorem LoadWorld_reads_witness:
  "GetIDByCoord (LoadWorld no_map 2 2 ''6b000372'' (\<lambda>_. 0)) 1 1 = 114"
proof -
  have d: "rle_expand (parse_hex ''6b000372'') = [107, 107, 107, 114]"
    by code_simp
  have "GetIDByCoord (LoadWorld no_map 2 2 ''6b000372'' (\<lambda>_. 0)) (int 3 mod 2) (int 3 div 2)
      = rle_expand (parse_hex ''6b000372'') ! 3"
    by (rule LoadWorld_reads) (simp_all only: d, simp_all)
  then show ?thesis unfolding d by simp
qed

section \<open>Clearing outside the map\<close>

text \<open>
  \<open>ClearTile\<close> does not check its coordinates: clearing the cell left of column 0 clears
  the last cell of the row above.
\<close>

theorem ClearTile_wraps_rows:
  assumes "wf_map w" "ValidCoords w (width w - 1) y"
  shows "\<not> ValidCoords w (-1) (y + 1)
    \<and> GetIDByCoord_Terrain (ClearTile w (-1) (y + 1) c) (width w - 1) y = 0"
proof -
  have "ClearTile w (-1) (y + 1) c = ClearTile w (width w - 1) y c"
    by (simp add: ClearTile_def algebra_simps)
  then show ?thesis using Terrain_ClearTile [OF assms] by (simp add: ValidCoords_def)
qed

theorem ClearTile_wraps_rows_witness:
  "GetIDByCoord_Terrain (ClearTile (Resyze no_map 2 2) (-1) 1 False) 1 0 = 0"
proof -
  have "wf_map (Resyze no_map 2 2)" by (simp add: wf_Resyze)
  moreover have "ValidCoords (Resyze no_map 2 2) (width (Resyze no_map 2 2) - 1) 0"
    by (simp add: ValidCoords_def Resyze_blank)
  ultimately show ?thesis
    using ClearTile_wraps_rows [of "Resyze no_map 2 2" 0 False] by (simp add: Resyze_blank)
qed

section \<open>The invariant\<close>

text \<open>
  (C7) Every public method that changes tiles keeps the map well formed: the arrays keep their
  sizes, the terrain holds only empty or solid blocks and the background only non-solid ones,
  and every living block is on \<open>alivesList\<close>.
\<close>

theorem map_ok_preserved:
  assumes "map_ok w"
  shows "map_ok (SetTileWithCoords w x y b d) \<and> map_ok (ClearTile w x y c)
    \<and> map_ok (DiggTile w x y) \<and> map_ok (SetDensity w x y d)
    \<and> map_ok (FillRect w b x y rw rh) \<and> map_ok (ClearRect w x y rw rh)
    \<and> (0 \<le> i \<longrightarrow> map_ok (SetTileWithIndex w i b d))
    \<and> (0 \<le> nw \<longrightarrow> 0 \<le> nh \<longrightarrow> map_ok (LoadWorld w nw nh data us))"
  using assms by (intro conjI impI) (auto intro: wf_intros simp: LoadWorld_def)

theorem map_ok_preserved_witness:
  "map_ok (DiggTile (Resyze no_map 2 2) 1 1)"
proof -
  have "map_ok (Resyze no_map 2 2)" by (intro wf_intros) simp_all
  then show ?thesis using map_ok_preserved by blast
qed

end
