(* ===== verification/Geophys.thy ===== *)
theory Geophys
  imports World_Map
begin

text \<open>
  \<open>GeoPhisics\<close> of \<^verbatim>\<open>scripts/geophys.js\<close>: falling sand and boulders, the chunks kept active
  around the bots, and the growth of living blocks with the timer that walks over
  \<open>alivesList\<close>. A falling cycle visits every cell of an active chunk once and draws at most one
  random number there, so the draws are a function of the cell. The step relation \<open>fall_step\<close>
  is the abstract physics the cycle implements.
\<close>

section \<open>Falling blocks\<close>

definition solid_at :: "world_map \<Rightarrow> int \<Rightarrow> int \<Rightarrow> bool" where
  "solid_at w x y = solid (BlockStats (GetIDByCoord_Terrain w x y))"

definition DownFree :: "world_map \<Rightarrow> int \<Rightarrow> int \<Rightarrow> nat" where
  "DownFree w x y =
     (if \<not> solid (BlockStats (GetIDByCoord w x (y + 1))) then
        (if falltype (BlockStats (GetIDByCoord w x (y + 2))) \<noteq> None then
           (if solid (BlockStats (GetIDByCoord w x (y + 3))) then 1 else 2)
         else 1)
      else if falltype (BlockStats (GetIDByCoord w x (y + 1))) \<noteq> None then 0
      else 2)"

definition drop_to :: "world_map \<Rightarrow> int \<Rightarrow> int \<Rightarrow> int \<Rightarrow> byte \<Rightarrow> world_map" where
  "drop_to w x y x' cblock = SetTileWithCoords (ClearTile w x y False) x' (y + 1) cblock 0"

definition side_free :: "FallType \<Rightarrow> world_map \<Rightarrow> int \<Rightarrow> int \<Rightarrow> bool" where
  "side_free t w x' y =
     (case t of
        FT_bolder \<Rightarrow> \<not> solid_at w x' (y + 1) \<and> \<not> solid_at w x' y
      | FT_sand \<Rightarrow> \<not> solid_at w x' (y + 1))"

definition fall_cell :: "rat \<Rightarrow> world_map \<Rightarrow> int \<Rightarrow> int \<Rightarrow> world_map" where
  "fall_cell u w x y =
     (let cblock = GetIDByCoord_Terrain w x y in
      case falltype (BlockStats cblock) of
        None \<Rightarrow> w
      | Some t \<Rightarrow>
          (let df = DownFree w x y in
           if df \<noteq> 0 then (if df = 1 then drop_to w x y x cblock else w)
           else if RandInt u 0 1 = 0 then
             (if side_free t w (x + 1) y then drop_to w x y (x + 1) cblock
              else if side_free t w (x - 1) y then drop_to w x y (x - 1) cblock
              else w)
           else
             (if side_free t w (x - 1) y then drop_to w x y (x - 1) cblock
              else if side_free t w (x + 1) y then drop_to w x y (x + 1) cblock
              else w)))"

definition chunk_cells :: "world_map \<Rightarrow> int \<Rightarrow> int \<Rightarrow> (int \<times> int) list" where
  "chunk_cells w dx dy =
     concat (map (\<lambda>y. map (\<lambda>x. (x, y)) (takeWhile (\<lambda>x. x < width w) [js_shl dx 5..js_shl dx 5 + 31]))
       (rev [js_shl dy 5..js_shl dy 5 + 31]))"

definition fall_chunk :: "(int \<Rightarrow> int \<Rightarrow> rat) \<Rightarrow> world_map \<Rightarrow> int \<times> int \<Rightarrow> world_map" where
  "fall_chunk us w d =
     (case d of (dx, dy) \<Rightarrow>
       if ta_byte (activeChunks w) (dx + dy * chunkWidth w) \<noteq> 0 then
         (let w1 = foldl (\<lambda>w (x, y). fall_cell (us x y) w x y) w (chunk_cells w dx dy)
          in w1\<lparr>activeChunks := ta_set (activeChunks w1) (dx + dy * chunkWidth w) 0\<rparr>)
       else w)"

definition chunk_order :: "world_map \<Rightarrow> (int \<times> int) list" where
  "chunk_order w = concat (map (\<lambda>dy. map (\<lambda>dx. (dx, dy)) [0..chunkWidth w - 1])
     (rev [0..chunkHeight w - 1]))"

text \<open>The flag \<open>inProcess\<close> guards the cycle and is cleared at the end in either case.\<close>

definition FallingCycle ::
    "(int \<Rightarrow> int \<Rightarrow> rat) \<Rightarrow> bool \<times> world_map \<Rightarrow> bool \<times> world_map" where
  "FallingCycle us s =
     (case s of (inProcess, w) \<Rightarrow>
        (False, if \<not> inProcess then foldl (fall_chunk us) w (chunk_order w) else w))"

section \<open>Active chunks\<close>

text \<open>The rectangle of chunks around a bot: wide for the bot the user controls.\<close>

definition active_margin :: "bool \<Rightarrow> rat \<Rightarrow> int \<times> int \<times> int \<times> int" where
  "active_margin is_cur u =
     (if is_cur then (2, 4, 2, 3) else if RandInt u 0 3 = 0 then (1, 1, 1, 0) else (0, 1, 0, 0))"

definition mark_around :: "world_map \<Rightarrow> int \<times> int \<Rightarrow> int \<times> int \<times> int \<times> int \<Rightarrow> world_map" where
  "mark_around w cpos m =
     (case m of (ax1, ay1, ax2, ay2) \<Rightarrow>
        let bx = js_shr (fst cpos) 5; by = js_shr (snd cpos) 5 in
        foldl (\<lambda>w (x, y).
            if x \<ge> 0 \<and> y \<ge> 0 \<and> x < chunkWidth w \<and> y < chunkHeight w
            then w\<lparr>activeChunks := ta_set (activeChunks w) (x + y * chunkWidth w) 1\<rparr> else w) w
          (concat (map (\<lambda>y. map (\<lambda>x. (x, y)) [bx - ax1..bx + ax2]) [by - ay1..by + ay2])))"

definition SetActiveChunks ::
    "(nat \<Rightarrow> rat) \<Rightarrow> world_map \<Rightarrow> (int \<times> int) list \<Rightarrow> nat option \<Rightarrow> world_map" where
  "SetActiveChunks us w bots curbot =
     foldl (\<lambda>w i. mark_around w (bots ! i) (active_margin (curbot = Some i) (us i))) w
       [0..<length bots]"

text \<open>The body of the first timer, with a renderer attached.\<close>

definition physics_tick ::
    "(int \<Rightarrow> int \<Rightarrow> rat) \<Rightarrow> (nat \<Rightarrow> rat) \<Rightarrow> (int \<times> int) list \<Rightarrow> nat option \<Rightarrow>
      bool \<times> world_map \<Rightarrow> bool \<times> world_map" where
  "physics_tick us vs bots curbot s =
     FallingCycle us (fst s, SetActiveChunks vs (snd s) bots curbot)"

section \<open>Living blocks\<close>

definition AliveProductHardness :: "byte \<Rightarrow> int option" where
  "AliveProductHardness = map_of [(50, 1), (51, 2), (52, 1), (53, 1), (54, 8), (55, 1), (116, 20)]"

definition CalculateAliveProductHardness :: "world_map \<Rightarrow> int \<Rightarrow> int \<Rightarrow> int \<Rightarrow> int" where
  "CalculateAliveProductHardness w x y base =
     base * (1 + int_of_bool (GetIDByCoord_Terrain w (x - 1) y = Block_rock_hypno)
               + int_of_bool (GetIDByCoord_Terrain w (x + 1) y = Block_rock_hypno)
               + int_of_bool (GetIDByCoord_Terrain w x (y + 1) = Block_rock_hypno)
               + int_of_bool (GetIDByCoord_Terrain w x (y - 1) = Block_rock_hypno))"

definition IsBlackRockNear :: "world_map \<Rightarrow> int \<Rightarrow> int \<Rightarrow> bool" where
  "IsBlackRockNear w x y \<longleftrightarrow>
     GetIDByCoord_Terrain w (x - 1) (y - 1) = Block_rock_black
     \<or> GetIDByCoord_Terrain w x (y - 1) = Block_rock_black
     \<or> GetIDByCoord_Terrain w (x + 1) (y - 1) = Block_rock_black
     \<or> GetIDByCoord_Terrain w (x - 1) y = Block_rock_black
     \<or> GetIDByCoord_Terrain w (x + 1) y = Block_rock_black
     \<or> GetIDByCoord_Terrain w (x - 1) (y + 1) = Block_rock_black
     \<or> GetIDByCoord_Terrain w x (y + 1) = Block_rock_black
     \<or> GetIDByCoord_Terrain w (x + 1) (y + 1) = Block_rock_black"

definition SetIfFree :: "world_map \<Rightarrow> int \<Rightarrow> int \<Rightarrow> byte \<Rightarrow> int \<Rightarrow> world_map" where
  "SetIfFree w x y b h =
     (if \<not> solid (BlockStats (GetIDByCoord_Terrain w x y)) then SetTileWithCoords w x y b h else w)"

fun set_free_list :: "world_map \<Rightarrow> byte \<Rightarrow> int \<Rightarrow> (int \<times> int) list \<Rightarrow> world_map" where
  "set_free_list w b h [] = w"
| "set_free_list w b h ((x, y) # ps) = set_free_list (SetIfFree w x y b h) b h ps"

definition plus_cells :: "int \<Rightarrow> int \<Rightarrow> (int \<times> int) list" where
  "plus_cells x y = [(x - 1, y), (x + 1, y), (x, y - 1), (x, y + 1)]"

definition white_cells :: "int \<Rightarrow> int \<Rightarrow> (int \<times> int) list" where
  "white_cells x y = [(x - 1, y), (x + 1, y), (x, y + 1), (x + 1, y + 1), (x + 1, y - 1),
     (x + 1, y - 1), (x - 1, y + 1)]"

definition blue_target :: "rat \<Rightarrow> int \<Rightarrow> int \<Rightarrow> int \<times> int" where
  "blue_target u x y =
     (let moveDir = RandInt u 0 3 in
      if moveDir = 0 then (x, y + 1) else if moveDir = 1 then (x, y - 1)
      else if moveDir = 2 then (x + 1, y) else (x - 1, y))"

definition grow_blue :: "rat \<Rightarrow> world_map \<Rightarrow> int \<Rightarrow> int \<Rightarrow> int \<Rightarrow> world_map" where
  "grow_blue u w x y base =
     (if GetDensity w x y > 0 then SetDensity w x y 0
      else
        (let (mx, my) = blue_target u x y in
         if \<not> solid (BlockStats (GetIDByCoord_Terrain w mx my)) then
           (let h = CalculateAliveProductHardness w x y base;
                w1 = SetTileWithCoords w mx my Block_alive_blue 0;
                w2 = SetDensity w1 mx my 1
            in SetTileWithCoords w2 x y Block_cry_blue h)
         else w))"

definition AliveGrowth :: "rat \<Rightarrow> world_map \<Rightarrow> int \<Rightarrow> int \<Rightarrow> bool \<times> world_map" where
  "AliveGrowth u w x y =
     (let block = GetIDByCoord_Terrain w x y in
      if is_alive (BlockStats block) then
        (True,
         case AliveProductHardness block of
           None \<Rightarrow> w
         | Some base \<Rightarrow>
             (let h = CalculateAliveProductHardness w x y base in
              if block = Block_alive_cyan then set_free_list w Block_cry_cyan h (plus_cells x y)
              else if block = Block_alive_red then
                (if IsBlackRockNear w x y then set_free_list w Block_cry_red h (plus_cells x y) else w)
              else if block = Block_alive_vio then
                (if IsBlackRockNear w x y then set_free_list w Block_cry_vio h (plus_cells x y) else w)
              else if block = Block_alive_black then w
              else if block = Block_alive_white then
                (if GetIDByCoord w x (y - 1) = Block_magma
                 then ClearTile (set_free_list w Block_cry_white h (white_cells x y)) x (y - 1) False
                 else w)
              else if block = Block_alive_reinbow then w
              else if block = Block_alive_blue then grow_blue u w x y base
              else w))
      else (False, w))"

text \<open>
  The growth timer walks over \<open>alivesList\<close> with one iterator that survives between ticks. A
  \<open>Set\<close> iterator visits the elements in insertion order, those appended later included; an
  iterator that has reported its end stays at its end. \<open>Some k\<close>: \<open>k\<close> of the elements present
  have been visited; \<open>None\<close>: exhausted.
\<close>

type_synonym set_iter = "nat option"

definition iter_next :: "int list \<Rightarrow> set_iter \<Rightarrow> int option \<times> set_iter" where
  "iter_next xs it =
     (case it of
        None \<Rightarrow> (None, None)
      | Some k \<Rightarrow> (if k < length xs then (Some (xs ! k), Some (Suc k)) else (None, None)))"

definition grow_next :: "rat \<Rightarrow> set_iter \<times> world_map \<Rightarrow> set_iter \<times> world_map" where
  "grow_next u s =
     (case s of (it, w) \<Rightarrow>
        case iter_next (alivesList w) it of
          (None, _) \<Rightarrow> (Some 0, w)
        | (Some val, it1) \<Rightarrow>
            (case AliveGrowth u w (js_rem val (width w)) (tilde2 (of_int val / of_int (width w))) of
               (True, w1) \<Rightarrow> (it1, w1)
             | (False, w1) \<Rightarrow> (map_option (\<lambda>k. k - 1) it1, w1\<lparr>alivesList := removeAll val (alivesList w1)\<rparr>)))"

definition growth_tick :: "rat \<Rightarrow> (nat \<Rightarrow> rat) \<Rightarrow> set_iter \<times> world_map \<Rightarrow> set_iter \<times> world_map" where
  "growth_tick coin us s =
     (if alivesList (snd s) \<noteq> [] \<and> RandInt coin 0 1 \<noteq> 0
      then foldl (\<lambda>s i. grow_next (us i) s) s [0..<10] else s)"

section \<open>Abstract physics\<close>

text \<open>
  One abstract step moves one falling block one row down, straight or diagonally, into an empty
  cell of the map, or changes the flags of the active chunks.
\<close>

inductive fall_step :: "world_map \<Rightarrow> world_map \<Rightarrow> bool" where
  tile_falls: "\<lbrakk>falltype (BlockStats (GetIDByCoord_Terrain w x y)) \<noteq> None; \<bar>x' - x\<bar> \<le> 1;
      ValidCoords w x y; ValidCoords w x' (y + 1); GetIDByCoord_Terrain w x' (y + 1) = 0\<rbrakk> \<Longrightarrow>
    fall_step w (drop_to w x y x' (GetIDByCoord_Terrain w x y))"
| chunk_done: "length ac = length (activeChunks w) \<Longrightarrow> fall_step w (w\<lparr>activeChunks := ac\<rparr>)"

inductive_cases fall_stepE: "fall_step w w'"

lemma drop_to_shift: "drop_to w x y x' (GetIDByCoord_Terrain w x y) = wmap.shift w (x, y) (x', y + 1)"
  by (simp add: drop_to_def wmap.shift_def)

lemma drop_to_ok [wf_intros]: "map_ok w \<Longrightarrow> map_ok (drop_to w x y x' b)"
  by (simp add: drop_to_def wf_intros)

lemma flags_ok [wf_intros]:
  "map_ok w \<Longrightarrow> length ac = length (activeChunks w) \<Longrightarrow> map_ok (w\<lparr>activeChunks := ac\<rparr>)"
  by (simp add: map_ok_def wf_map_def layered_def alive_tracked_def)

lemma fall_step_ok: "fall_step w w' \<Longrightarrow> map_ok w \<Longrightarrow> map_ok w'"
  by (auto elim!: fall_stepE intro: wf_intros)

lemma ok_wf: "map_ok w \<Longrightarrow> wf_map w"
  by (simp add: map_ok_def)

lemma Terrain_flags [simp]:
  "GetIDByCoord_Terrain (w\<lparr>activeChunks := ac\<rparr>) x y = GetIDByCoord_Terrain w x y"
  by (simp add: GetIDByCoord_Terrain_def ValidCoords_def)

lemma Terrain_drop_to:
  assumes "map_ok w" "falltype (BlockStats (GetIDByCoord_Terrain w x y)) \<noteq> None"
    and "ValidCoords w x y" "ValidCoords w x' (y + 1)"
  shows "GetIDByCoord_Terrain (drop_to w x y x' (GetIDByCoord_Terrain w x y)) a b =
    (if (a, b) = (x', y + 1) then GetIDByCoord_Terrain w x y
     else if (a, b) = (x, y) then 0 else GetIDByCoord_Terrain w a b)"
  using wmap.tile_shift [OF ok_wf [OF assms(1)], of "(x, y)" "(x', y + 1)" "(a, b)"] assms(2-)
  by (simp add: drop_to_shift falltype_solid)

lemma census_flags: "wmap.census (w\<lparr>activeChunks := ac\<rparr>) = wmap.census w"
  by (simp add: wmap.census_def cell_grid_def)

lemma fall_step_census:
  assumes "fall_step w w'" "map_ok w"
  shows "wmap.census w' = wmap.census w"
  using assms(1)
proof (cases rule: fall_step.cases)
  case (tile_falls x y x')
  then show ?thesis
    using wmap.census_shift [OF ok_wf [OF assms(2)], of "(x, y)" "(x', y + 1)"]
    by (simp add: drop_to_shift falltype_solid)
next
  case (chunk_done ac)
  then show ?thesis by (simp add: census_flags)
qed

lemma drop_to_frame [simp]:
  "falltype (BlockStats b) \<noteq> None \<Longrightarrow> background (drop_to w x y x' b) = background w"
  "falltype (BlockStats b) \<noteq> None \<Longrightarrow> alivesList (drop_to w x y x' b) = alivesList w"
  "width (drop_to w x y x' b) = width w" "height (drop_to w x y x' b) = height w"
  "chunkWidth (drop_to w x y x' b) = chunkWidth w" "chunkHeight (drop_to w x y x' b) = chunkHeight w"
  "activeChunks (drop_to w x y x' b) = activeChunks w"
  using falltype_solid [of b] falltype_not_alive [of b]
  by (auto simp: drop_to_def SetTileWithCoords_def SetTile_def ClearTile_def Let_def)

text \<open>What falling leaves alone: the sizes, the background, the living cells and every block that does not fall.\<close>

definition falls_to :: "world_map \<Rightarrow> world_map \<Rightarrow> bool" where
  "falls_to w w' \<longleftrightarrow> width w' = width w \<and> height w' = height w \<and> chunkWidth w' = chunkWidth w
     \<and> chunkHeight w' = chunkHeight w \<and> length (activeChunks w') = length (activeChunks w)
     \<and> background w' = background w \<and> alivesList w' = alivesList w \<and> map_ok w'
     \<and> wmap.census w' = wmap.census w
     \<and> (\<forall>x y b. b \<noteq> 0 \<longrightarrow> falltype (BlockStats b) = None \<longrightarrow>
          (GetIDByCoord_Terrain w' x y = b \<longleftrightarrow> GetIDByCoord_Terrain w x y = b))"

lemma falls_to_refl: "map_ok w \<Longrightarrow> falls_to w w"
  by (simp add: falls_to_def)

lemma falls_to_trans: "falls_to w w' \<Longrightarrow> falls_to w' w'' \<Longrightarrow> falls_to w w''"
  by (simp add: falls_to_def)

lemma fall_step_falls_to:
  assumes "fall_step w w'" "map_ok w"
  shows "falls_to w w'"
  using assms(1)
proof (cases rule: fall_step.cases)
  case (tile_falls x y x')
  have "GetIDByCoord_Terrain w' a b = c \<longleftrightarrow> GetIDByCoord_Terrain w a b = c"
    if "c \<noteq> 0" "falltype (BlockStats c) = None" for a b c
    unfolding tile_falls(1) Terrain_drop_to [OF assms(2) tile_falls(2,4,5)]
    using tile_falls that by auto
  then show ?thesis
    unfolding falls_to_def using tile_falls fall_step_census [OF assms] fall_step_ok [OF assms] by simp
next
  case (chunk_done ac)
  then show ?thesis
    using fall_step_census [OF assms] fall_step_ok [OF assms] by (simp add: falls_to_def)
qed

lemma fall_steps_falls_to:
  assumes "fall_step\<^sup>*\<^sup>* w w'" "map_ok w"
  shows "falls_to w w'"
  using assms
proof (induction rule: rtranclp_induct)
  case base
  then show ?case by (rule falls_to_refl)
next
  case (step w1 w2)
  then have "falls_to w w1" by blast
  moreover from this have "map_ok w1" by (simp add: falls_to_def)
  ultimately show ?case using fall_step_falls_to [OF step.hyps(2)] falls_to_trans by blast
qed

section \<open>The cycle implements the abstract physics\<close>

lemma not_solid_terrain:
  assumes "map_ok w" "\<not> solid (BlockStats (GetIDByCoord_Terrain w x y))"
  shows "ValidCoords w x y \<and> GetIDByCoord_Terrain w x y = 0"
proof -
  have v: "ValidCoords w x y" using assms(2) Terrain_outside [of w x y] by (cases "ValidCoords w x y") auto
  then have "GetIDByCoord_Terrain w x y \<in> set (terrain w)"
    using ValidCoords_index [OF ok_wf [OF assms(1)] v] ta_byte_in_set
    by (simp add: GetIDByCoord_Terrain_def)
  then show ?thesis using v assms by (auto simp: map_ok_def layered_def)
qed

lemma not_solid_visible:
  assumes "\<not> solid (BlockStats (GetIDByCoord w x y))"
  shows "\<not> solid (BlockStats (GetIDByCoord_Terrain w x y))"
  using assms by (auto simp: GetIDByCoord_def GetIDByCoord_Terrain_def Let_def split: if_splits)

lemma falltype_valid: "falltype (BlockStats (GetIDByCoord_Terrain w x y)) \<noteq> None \<Longrightarrow> ValidCoords w x y"
  using Terrain_outside [of w x y] by (cases "ValidCoords w x y") auto

lemma side_free_target: "side_free t w x' y \<Longrightarrow> \<not> solid (BlockStats (GetIDByCoord_Terrain w x' (y + 1)))"
  by (auto simp: side_free_def solid_at_def split: FallType.splits)

lemma DownFree_1: "DownFree w x y = 1 \<Longrightarrow> \<not> solid (BlockStats (GetIDByCoord_Terrain w x (y + 1)))"
  by (rule not_solid_visible) (auto simp: DownFree_def split: if_splits)

lemma fall_cell_cases:
  obtains "fall_cell u w x y = w"
  | x' where "fall_cell u w x y = drop_to w x y x' (GetIDByCoord_Terrain w x y)" "\<bar>x' - x\<bar> \<le> 1"
      "falltype (BlockStats (GetIDByCoord_Terrain w x y)) \<noteq> None"
      "\<not> solid (BlockStats (GetIDByCoord_Terrain w x' (y + 1)))"
proof -
  let ?b = "GetIDByCoord_Terrain w x y"
  let ?to = "\<lambda>x'. fall_cell u w x y = drop_to w x y x' ?b
    \<and> \<not> solid (BlockStats (GetIDByCoord_Terrain w x' (y + 1)))"
  have "fall_cell u w x y = w \<or> (falltype (BlockStats ?b) \<noteq> None \<and> (?to (x - 1) \<or> ?to x \<or> ?to (x + 1)))"
  proof (cases "falltype (BlockStats ?b)")
    case None
    then show ?thesis by (simp add: fall_cell_def Let_def)
  next
    case (Some t)
    then show ?thesis
      using DownFree_1 [of w x y] side_free_target [of t w _ y] by (simp add: fall_cell_def Let_def)
  qed
  then show thesis using that(1) that(2) [of "x - 1"] that(2) [of x] that(2) [of "x + 1"] by auto
qed

lemma fall_cell_steps:
  assumes "map_ok w"
  shows "fall_step\<^sup>*\<^sup>* w (fall_cell u w x y)"
proof (cases rule: fall_cell_cases [of u w x y])
  case 1
  then show ?thesis by simp
next
  case (2 x')
  then have "fall_step w (fall_cell u w x y)"
    using not_solid_terrain [OF assms 2(4)] falltype_valid [OF 2(3)] by (simp add: fall_step.intros)
  then show ?thesis by blast
qed

lemma fall_steps_ok: "fall_step\<^sup>*\<^sup>* w w' \<Longrightarrow> map_ok w \<Longrightarrow> map_ok w'"
  by (drule (1) fall_steps_falls_to) (simp add: falls_to_def)

lemma foldl_fall_steps:
  assumes "\<And>w x. map_ok w \<Longrightarrow> fall_step\<^sup>*\<^sup>* w (f w x)" "map_ok w"
  shows "fall_step\<^sup>*\<^sup>* w (foldl f w xs)"
  using assms(2)
proof (induction xs arbitrary: w)
  case (Cons x xs)
  have "fall_step\<^sup>*\<^sup>* w (f w x)" by (rule assms(1) [OF Cons.prems])
  moreover from this have "fall_step\<^sup>*\<^sup>* (f w x) (foldl f (f w x) xs)"
    using Cons fall_steps_ok by blast
  ultimately show ?case by simp
qed simp

lemma fall_chunk_steps:
  assumes "map_ok w"
  shows "fall_step\<^sup>*\<^sup>* w (fall_chunk us w d)"
proof -
  obtain dx dy where d: "d = (dx, dy)" by (cases d)
  let ?w = "foldl (\<lambda>w (x, y). fall_cell (us x y) w x y) w (chunk_cells w dx dy)"
  have "fall_step\<^sup>*\<^sup>* w ?w"
    by (rule foldl_fall_steps [OF _ assms]) (auto intro: fall_cell_steps)
  moreover have "fall_step ?w (?w\<lparr>activeChunks := ta_set (activeChunks ?w) i 0\<rparr>)" for i
    by (rule chunk_done) simp
  ultimately show ?thesis
    by (auto simp: fall_chunk_def d Let_def intro: rtranclp.rtrancl_into_rtrancl)
qed

lemma FallingCycle_steps: "map_ok w \<Longrightarrow> fall_step\<^sup>*\<^sup>* w (snd (FallingCycle us (p, w)))"
  by (auto simp: FallingCycle_def intro: foldl_fall_steps fall_chunk_steps)

definition flags_only :: "world_map \<Rightarrow> world_map \<Rightarrow> bool" where
  "flags_only w v \<longleftrightarrow> (\<exists>ac. v = w\<lparr>activeChunks := ac\<rparr> \<and> length ac = length (activeChunks w))"

lemma flags_only_refl: "flags_only w w"
  unfolding flags_only_def by (rule exI [of _ "activeChunks w"]) simp

lemma flags_only_dims: "flags_only w v \<Longrightarrow> chunkWidth v = chunkWidth w \<and> chunkHeight v = chunkHeight w
    \<and> length (activeChunks v) = length (activeChunks w)"
  by (auto simp: flags_only_def)

lemma flags_only_set: "flags_only w v \<Longrightarrow> flags_only w (v\<lparr>activeChunks := ta_set (activeChunks v) i b\<rparr>)"
  by (auto simp: flags_only_def)

lemma flags_only_mark: "flags_only w v \<Longrightarrow> flags_only w (mark_around v p m)"
  unfolding mark_around_def Let_def
  by (cases m) (auto intro!: foldl_invariant [where P = "flags_only w"] flags_only_set)

lemma SetActiveChunks_flags: "flags_only w (SetActiveChunks us w bots cur)"
  unfolding SetActiveChunks_def
  by (rule foldl_invariant [where P = "flags_only w", OF flags_only_refl]) (rule flags_only_mark)

lemma physics_tick_steps:
  assumes "map_ok w"
  shows "fall_step\<^sup>*\<^sup>* w (snd (physics_tick us vs bots cur (p, w)))"
proof -
  let ?w = "SetActiveChunks vs w bots cur"
  have st: "fall_step w ?w" using SetActiveChunks_flags [of w vs bots cur] chunk_done by (auto simp: flags_only_def)
  moreover have "fall_step\<^sup>*\<^sup>* ?w (snd (FallingCycle us (p, ?w)))"
    by (rule FallingCycle_steps [OF fall_step_ok [OF st assms]])
  ultimately show ?thesis by (simp add: physics_tick_def converse_rtranclp_into_rtranclp)
qed

section \<open>Falling stops\<close>

text \<open>The sum of the rows of the falling blocks grows by one with every step.\<close>

definition depth_sum :: "world_map \<Rightarrow> int" where
  "depth_sum w = (\<Sum>p \<in> cell_grid w.
     if falltype (BlockStats (GetIDByCoord_Terrain w (fst p) (snd p))) \<noteq> None then snd p else 0)"

lemma sum_move:
  fixes f g :: "'a \<Rightarrow> int"
  assumes "finite A" "p \<in> A" "q \<in> A" "p \<noteq> q"
    and "\<And>r. r \<in> A \<Longrightarrow> r \<noteq> p \<Longrightarrow> r \<noteq> q \<Longrightarrow> g r = f r"
  shows "sum g A - sum f A = (g p + g q) - (f p + f q)"
proof -
  have "sum h A = h p + (h q + sum h (A - {p} - {q}))" for h :: "'a \<Rightarrow> int"
    using assms by (simp add: sum.remove [of A p] sum.remove [of "A - {p}" q])
  moreover have "sum g (A - {p} - {q}) = sum f (A - {p} - {q})"
    using assms(5) by (intro sum.cong) auto
  ultimately show ?thesis by simp
qed

lemma fall_step_depth:
  assumes "fall_step w w'" "map_ok w"
  shows "terrain w' = terrain w \<and> depth_sum w' = depth_sum w \<or> depth_sum w' = depth_sum w + 1"
  using assms(1)
proof (cases rule: fall_step.cases)
  case (tile_falls x y x')
  let ?f = "\<lambda>w p. if falltype (BlockStats (GetIDByCoord_Terrain w (fst p) (snd p))) \<noteq> None then snd p else 0"
  have g: "cell_grid w' = cell_grid w" by (simp add: tile_falls cell_grid_def)
  have t: "GetIDByCoord_Terrain w' a b = (if (a, b) = (x', y + 1) then GetIDByCoord_Terrain w x y
      else if (a, b) = (x, y) then 0 else GetIDByCoord_Terrain w a b)" for a b
    unfolding tile_falls(1) by (rule Terrain_drop_to [OF assms(2) tile_falls(2,4,5)])
  have "sum (?f w') (cell_grid w) - sum (?f w) (cell_grid w)
      = (?f w' (x, y) + ?f w' (x', y + 1)) - (?f w (x, y) + ?f w (x', y + 1))"
    using tile_falls(2-) by (intro sum_move) (auto simp: t)
  also have "\<dots> = 1" using tile_falls(2-) by (auto simp: t)
  finally show ?thesis unfolding depth_sum_def g by simp
next
  case (chunk_done ac)
  then show ?thesis by (simp add: depth_sum_def cell_grid_def)
qed

lemma fall_steps_depth:
  assumes "fall_step\<^sup>*\<^sup>* w w'" "map_ok w"
  shows "terrain w' = terrain w \<and> depth_sum w' = depth_sum w \<or> depth_sum w < depth_sum w'"
  using assms
proof (induction rule: rtranclp_induct)
  case (step w1 w2)
  have "map_ok w1" by (rule fall_steps_ok [OF step.hyps(1) step.prems])
  from fall_step_depth [OF step.hyps(2) this] step.IH [OF step.prems] show ?case by auto
qed simp

lemma depth_sum_bound: "depth_sum w \<le> of_nat (card (cell_grid w)) * height w"
  unfolding depth_sum_def by (rule sum_bounded_above) (auto simp: cell_grid_def)

lemma bounded_mono_settles:
  fixes f :: "nat \<Rightarrow> int"
  assumes "\<And>n. f n \<le> f (Suc n)" "\<And>n. f n \<le> B"
  shows "\<exists>N. \<forall>n \<ge> N. f n = f N"
proof -
  define g where "g = (\<lambda>n. nat (B - f n))"
  define m where "m = (LEAST k. \<exists>n. g n = k)"
  have "\<exists>n. g n = m" unfolding m_def by (rule LeastI [of "\<lambda>k. \<exists>n. g n = k" "g 0"]) blast
  then obtain N where N: "g N = m" by blast
  have least: "m \<le> g n" for n unfolding m_def by (rule Least_le) blast
  have "f n = f N" if "N \<le> n" for n
  proof -
    have "f N \<le> f n" using that assms(1) by (rule lift_Suc_mono_le [rotated])
    moreover have "g N \<le> g n" using N least by simp
    then have "f n \<le> f N" using assms(2) [of n] assms(2) [of N] unfolding g_def by linarith
    ultimately show ?thesis by simp
  qed
  then show ?thesis by blast
qed

section \<open>Properties of falling\<close>

lemma chunk_order_iff:
  "(dx, dy) \<in> set (chunk_order w) \<longleftrightarrow> 0 \<le> dx \<and> dx < chunkWidth w \<and> 0 \<le> dy \<and> dy < chunkHeight w"
  by (auto simp: chunk_order_def image_iff Bex_def)

lemma ta_byte_clear: "ta_byte (ta_set xs j 0) i = (if i = j then 0 else ta_byte xs i)"
proof (cases "0 \<le> j \<and> j < int (length xs)")
  case False
  then have "ta_set xs j 0 = xs" "ta_byte xs j = 0" by (auto simp: ta_set_def ta_byte_def ta_get_def)
  then show ?thesis by simp
qed (simp add: ta_byte_set)

lemma fall_chunk_flags:
  assumes "map_ok w"
  shows "activeChunks (fall_chunk us w (dx, dy)) =
    (if ta_byte (activeChunks w) (dx + dy * chunkWidth w) \<noteq> 0
     then ta_set (activeChunks w) (dx + dy * chunkWidth w) 0 else activeChunks w)"
proof -
  let ?P = "\<lambda>v :: world_map. activeChunks v = activeChunks w"
  have "?P (foldl (\<lambda>w (x, y). fall_cell (us x y) w x y) w (chunk_cells w dx dy))"
  proof (rule foldl_invariant [where P = ?P])
    fix v p assume "?P v"
    then show "?P (case p of (x, y) \<Rightarrow> fall_cell (us x y) v x y)"
      by (cases p, cases rule: fall_cell_cases [of "us (fst p) (snd p)" v "fst p" "snd p"]) simp_all
  qed simp
  then show ?thesis by (simp add: fall_chunk_def Let_def)
qed

lemma fall_chunks_clear:
  assumes "map_ok w"
  shows "ta_byte (activeChunks (foldl (fall_chunk us) w ds)) i =
    (if \<exists>dx dy. (dx, dy) \<in> set ds \<and> i = dx + dy * chunkWidth w then 0 else ta_byte (activeChunks w) i)"
  using assms
proof (induction ds arbitrary: w)
  case (Cons d ds)
  obtain dx dy where d: "d = (dx, dy)" by (cases d)
  have st: "falls_to w (fall_chunk us w d)"
    by (rule fall_steps_falls_to [OF fall_chunk_steps [OF Cons.prems] Cons.prems])
  have "ta_byte (activeChunks (fall_chunk us w d)) i =
      (if i = dx + dy * chunkWidth w then 0 else ta_byte (activeChunks w) i)"
    unfolding d fall_chunk_flags [OF Cons.prems] by (simp add: ta_byte_clear)
  moreover have "map_ok (fall_chunk us w d)" "chunkWidth (fall_chunk us w d) = chunkWidth w"
    using st by (simp_all add: falls_to_def)
  ultimately show ?case using Cons.IH [of "fall_chunk us w d"] by (auto simp: d)
qed simp

lemma FallingCycle_idle:
  assumes "map_ok w"
  shows "ta_byte (activeChunks (snd (FallingCycle us (False, w)))) i = 0"
proof (cases "0 \<le> i \<and> i < chunkWidth w * chunkHeight w")
  case True
  then have "0 < chunkWidth w" using assms by (cases "chunkWidth w = 0") (auto simp: map_ok_def wf_map_def ceil_div32_eq)
  then have "(i mod chunkWidth w, i div chunkWidth w) \<in> set (chunk_order w)"
    using True row_of_index_lt [of "chunkWidth w" i "chunkHeight w"]
    by (simp add: chunk_order_iff pos_imp_zdiv_nonneg_iff)
  then have "\<exists>dx dy. (dx, dy) \<in> set (chunk_order w) \<and> i = dx + dy * chunkWidth w"
    using row_index_decode [OF \<open>0 < chunkWidth w\<close>, of i] by (metis)
  then show ?thesis by (simp add: fall_chunks_clear [OF assms] FallingCycle_def)
next
  case False
  have "falls_to w (snd (FallingCycle us (False, w)))"
    by (rule fall_steps_falls_to [OF FallingCycle_steps [OF assms] assms])
  then have "int (length (activeChunks (snd (FallingCycle us (False, w))))) = chunkWidth w * chunkHeight w"
    using assms by (simp add: falls_to_def map_ok_def wf_map_def)
  then show ?thesis using False by (auto simp: ta_byte_def ta_get_def)
qed

text \<open>
  (C4) A falling cycle implements the abstract physics: it is a sequence of moves of single
  falling blocks one row down into empty cells. So it keeps the map well formed, neither creates
  nor destroys a block, leaves every block that does not fall, the background and the list of
  living cells alone, and ends with no chunk active.
\<close>

theorem FallingCycle_refines:
  assumes "map_ok w"
  shows "fall_step\<^sup>*\<^sup>* w (snd (FallingCycle us (False, w)))
    \<and> falls_to w (snd (FallingCycle us (False, w)))
    \<and> (\<forall>i. ta_byte (activeChunks (snd (FallingCycle us (False, w)))) i = 0)
    \<and> FallingCycle us (True, w) = (False, w)"
  by (intro conjI allI FallingCycle_steps [OF assms] FallingCycle_idle [OF assms]
      fall_steps_falls_to [OF FallingCycle_steps [OF assms] assms]) (simp add: FallingCycle_def)

theorem FallingCycle_refines_witness:
  "wmap.census (snd (FallingCycle (\<lambda>_ _. 0) (False, SetTileWithCoords (Resyze no_map 2 2) 1 0 100 0)))
    = wmap.census (SetTileWithCoords (Resyze no_map 2 2) 1 0 100 0)"
proof -
  have "map_ok (SetTileWithCoords (Resyze no_map 2 2) 1 0 100 0)" by (intro wf_intros) simp_all
  then show ?thesis using FallingCycle_refines by (simp add: falls_to_def)
qed

text \<open>
  (C10) Falling comes to rest: however the active chunks are chosen and the coins fall, if nothing
  but the physics timer changes the map then from some tick on the terrain no longer changes.
\<close>

theorem falling_settles:
  assumes "map_ok (snd (s 0))"
    and "\<And>n. s (Suc n) = physics_tick (us n) (vs n) (bots n) (cur n) (s n)"
  shows "\<exists>N. \<forall>n \<ge> N. terrain (snd (s n)) = terrain (snd (s N))"
proof -
  have st: "fall_step\<^sup>*\<^sup>* (snd (s n)) (snd (s (Suc n)))" if "map_ok (snd (s n))" for n
    using physics_tick_steps [OF that, of "us n" "vs n" "bots n" "cur n" "fst (s n)"]
    by (simp add: assms(2))
  have ok: "map_ok (snd (s n))" for n
    by (induction n) (use assms(1) st fall_steps_ok in blast)+
  have wh: "width (snd (s n)) = width (snd (s 0)) \<and> height (snd (s n)) = height (snd (s 0))" for n
    by (induction n) (use fall_steps_falls_to [OF st [OF ok] ok] in \<open>simp_all add: falls_to_def\<close>)
  have dims: "cell_grid (snd (s n)) = cell_grid (snd (s 0))" "height (snd (s n)) = height (snd (s 0))" for n
    using wh [of n] by (simp_all add: cell_grid_def)
  define f where "f = (\<lambda>n. depth_sum (snd (s n)))"
  have step: "terrain (snd (s (Suc n))) = terrain (snd (s n)) \<and> f (Suc n) = f n \<or> f n < f (Suc n)" for n
    unfolding f_def by (rule fall_steps_depth [OF st [OF ok] ok])
  have "\<exists>N. \<forall>n \<ge> N. f n = f N"
  proof (rule bounded_mono_settles)
    show "f n \<le> f (Suc n)" for n using step [of n] by auto
    show "f n \<le> of_nat (card (cell_grid (snd (s 0)))) * height (snd (s 0))" for n
      unfolding f_def using depth_sum_bound [of "snd (s n)"] dims [of n] by simp
  qed
  then obtain N where N: "\<And>n. N \<le> n \<Longrightarrow> f n = f N" by blast
  have "terrain (snd (s n)) = terrain (snd (s N))" if "N \<le> n" for n
    using that
  proof (induction n rule: dec_induct)
    case (step n)
    have "f (Suc n) = f n" using N [of n] N [of "Suc n"] step.hyps by simp
    then show ?case using \<open>\<And>n. _ \<or> f n < f (Suc n)\<close> [of n] step.IH by auto
  qed simp
  then show ?thesis by blast
qed

theorem falling_settles_witness:
  "\<exists>N. \<forall>n \<ge> N. terrain (snd ((physics_tick (\<lambda>_ _. 0) (\<lambda>_. 0) [(0, 0)] (Some 0) ^^ n)
       (False, SetTileWithCoords (Resyze no_map 2 2) 1 0 100 0)))
     = terrain (snd ((physics_tick (\<lambda>_ _. 0) (\<lambda>_. 0) [(0, 0)] (Some 0) ^^ N)
       (False, SetTileWithCoords (Resyze no_map 2 2) 1 0 100 0)))"
proof -
  have "map_ok (SetTileWithCoords (Resyze no_map 2 2) 1 0 100 0)" by (intro wf_intros) simp_all
  then show ?thesis
    by (intro falling_settles [where us = "\<lambda>_ _ _. 0" and vs = "\<lambda>_ _. 0" and bots = "\<lambda>_. [(0, 0)]"
          and cur = "\<lambda>_. Some 0"]) simp_all
qed

section \<open>Growth\<close>

abbreviation free_cell :: "world_map \<Rightarrow> int \<Rightarrow> int \<Rightarrow> bool" where
  "free_cell w x y \<equiv> \<not> solid (BlockStats (GetIDByCoord_Terrain w x y))"

lemma Terrain_SetIfFree:
  assumes "map_ok w" "solid (BlockStats b)"
  shows "GetIDByCoord_Terrain (SetIfFree w x y b h) x' y' =
    (if (x', y') = (x, y) \<and> free_cell w x y then b else GetIDByCoord_Terrain w x' y')"
  using not_solid_terrain [OF assms(1), of x y] Terrain_SetTileWithCoords [OF ok_wf [OF assms(1)], of x y b h x' y']
    assms(2) by (auto simp: SetIfFree_def)

lemma ok_SetIfFree [wf_intros]: "map_ok w \<Longrightarrow> map_ok (SetIfFree w x y b h)"
  by (simp add: SetIfFree_def wf_intros)

lemma ok_set_free_list [wf_intros]: "map_ok w \<Longrightarrow> map_ok (set_free_list w b h ps)"
  by (induction w b h ps rule: set_free_list.induct) (simp_all add: ok_SetIfFree)

lemma Terrain_set_free_list:
  assumes "map_ok w" "solid (BlockStats b)"
  shows "GetIDByCoord_Terrain (set_free_list w b h ps) x' y' =
    (if (x', y') \<in> set ps \<and> free_cell w x' y' then b else GetIDByCoord_Terrain w x' y')"
  using assms
  by (induction w b h ps rule: set_free_list.induct) (auto simp: Terrain_SetIfFree ok_SetIfFree)

lemma crystal_solid: "solid (BlockStats 108)" "solid (BlockStats 109)" "solid (BlockStats 110)"
    "solid (BlockStats 111)" "solid (BlockStats 112)" "solid (BlockStats 116)"
  using cry_facts crystal_stats alive_solid by blast+

lemma ok_grow_blue [wf_intros]: "map_ok w \<Longrightarrow> map_ok (grow_blue u w x y base)"
  by (auto simp: grow_blue_def Let_def split: prod.splits intro: wf_intros)

lemma ok_AliveGrowth [wf_intros]: "map_ok w \<Longrightarrow> map_ok (snd (AliveGrowth u w x y))"
  by (auto simp: AliveGrowth_def Let_def split: option.splits intro: wf_intros)

lemma dims_SetIfFree [simp]:
  "width (SetIfFree w x y b h) = width w" "height (SetIfFree w x y b h) = height w"
  by (simp_all add: SetIfFree_def)

lemma dims_set_free_list [simp]:
  "width (set_free_list w b h ps) = width w" "height (set_free_list w b h ps) = height w"
  by (induction w b h ps rule: set_free_list.induct) simp_all

lemma dims_AliveGrowth [simp]:
  "width (snd (AliveGrowth u w x y)) = width w" "height (snd (AliveGrowth u w x y)) = height w"
  by (auto simp: AliveGrowth_def grow_blue_def Let_def split: option.splits prod.splits)

lemma Terrain_SetDensity [simp]:
  "GetIDByCoord_Terrain (SetDensity w x y d) x' y' = GetIDByCoord_Terrain w x' y'"
  by (simp add: GetIDByCoord_Terrain_def)

lemma Terrain_grow_blue:
  assumes "map_ok w" "ValidCoords w x y" "blue_target u x y = (mx, my)"
  shows "GetIDByCoord_Terrain (grow_blue u w x y base) x' y' =
    (if GetDensity w x y > 0 \<or> \<not> free_cell w mx my then GetIDByCoord_Terrain w x' y'
     else if (x', y') = (x, y) then Block_cry_blue
     else if (x', y') = (mx, my) then Block_alive_blue else GetIDByCoord_Terrain w x' y')"
proof (cases "GetDensity w x y > 0 \<or> \<not> free_cell w mx my")
  case False
  then have mv: "ValidCoords w mx my" using not_solid_terrain [OF assms(1)] by blast
  then show ?thesis
    using False assms crystal_solid
    by (auto simp: grow_blue_def Let_def Terrain_SetTileWithCoords wf_intros ok_wf)
qed (auto simp: grow_blue_def assms)

lemma tilde2_row:
  assumes "0 \<le> v" "v < 2 ^ 31" "0 < w"
  shows "tilde2 (of_int v / of_int w) = v div w"
proof -
  have "0 \<le> (of_int v / of_int w :: rat)" using assms by simp
  then have "js_trunc (of_int v / of_int w) = v div w"
    by (simp only: js_trunc_nonneg floor_divide_of_int_eq)
  moreover have "0 \<le> v div w" "v div w \<le> v"
    using assms zdiv_mono2 [of v 1 w] by (simp_all add: pos_imp_zdiv_nonneg_iff)
  ultimately show ?thesis using assms(2) by (simp add: tilde2_def)
qed

lemma growth_frame:
  assumes "map_ok w" "solid (BlockStats (GetIDByCoord_Terrain w a b))"
    and "(a, b) \<noteq> (x, y)" "(a, b) \<noteq> (x, y - 1)"
  shows "GetIDByCoord_Terrain (snd (AliveGrowth u w x y)) a b = GetIDByCoord_Terrain w a b"
proof (cases "is_alive (BlockStats (GetIDByCoord_Terrain w x y))")
  case True
  then have v: "ValidCoords w x y" using Terrain_outside [of w x y] by (cases "ValidCoords w x y") auto
  have white: "GetIDByCoord_Terrain (ClearTile (set_free_list w Block_cry_white h ps) x (y - 1) False) a b
      = GetIDByCoord_Terrain w a b" if "GetIDByCoord w x (y - 1) = Block_magma" for h ps
  proof -
    have "ValidCoords (set_free_list w Block_cry_white h ps) x (y - 1)"
      using that by (auto simp: GetIDByCoord_def ValidCoords_def split: if_splits)
    then show ?thesis
      using assms crystal_solid by (auto simp: Terrain_ClearTile Terrain_set_free_list wf_intros ok_wf)
  qed
  obtain mx my where m: "blue_target u x y = (mx, my)" by (cases "blue_target u x y")
  have blue: "GetIDByCoord_Terrain (grow_blue u w x y base) a b = GetIDByCoord_Terrain w a b" for base
    unfolding Terrain_grow_blue [OF assms(1) v m] using assms(2,3) by auto
  have plus: "GetIDByCoord_Terrain (set_free_list w c h ps) a b = GetIDByCoord_Terrain w a b"
    if "solid (BlockStats c)" for c h ps
    using assms(2) by (simp add: Terrain_set_free_list [OF assms(1) that])
  show ?thesis
    using True by (simp add: AliveGrowth_def Let_def white blue plus crystal_solid split: option.splits)
qed (simp add: AliveGrowth_def Let_def)

lemma AliveGrowth_alive: "fst (AliveGrowth u w x y) \<longleftrightarrow> is_alive (BlockStats (GetIDByCoord_Terrain w x y))"
  by (simp add: AliveGrowth_def Let_def)

lemma AliveGrowth_dead: "\<not> fst (AliveGrowth u w x y) \<Longrightarrow> snd (AliveGrowth u w x y) = w"
  by (simp add: AliveGrowth_def Let_def split: if_splits)

text \<open>Forgetting a cell that no longer lives keeps the list of living cells complete.\<close>

lemma forget_dead_ok:
  assumes "map_ok w" "0 \<le> v" "v < width w * height w"
    and "\<not> is_alive (BlockStats (GetIDByCoord_Terrain w (v mod width w) (v div width w)))"
  shows "map_ok (w\<lparr>alivesList := removeAll v (alivesList w)\<rparr>)"
proof -
  have w: "0 < width w" using assms(1-3) by (cases "width w = 0") (auto simp: map_ok_def wf_map_def)
  have "v div width w < height w" by (rule row_of_index_lt [OF w assms(3)])
  then have val: "ValidCoords w (v mod width w) (v div width w)"
    using w assms(2) by (simp add: ValidCoords_def pos_imp_zdiv_nonneg_iff)
  have "ta_byte (terrain w) v = GetIDByCoord_Terrain w (v mod width w) (v div width w)"
    using val row_index_decode [OF w, of v] by (simp add: GetIDByCoord_Terrain_def)
  then have dead: "\<not> is_alive (BlockStats b)" if "ta_get (terrain w) v = Some b" for b
    using assms(4) that by (simp add: ta_byte_def)
  show ?thesis
    using assms(1) dead by (auto simp: map_ok_def wf_map_def layered_def alive_tracked_def distinct_removeAll)
qed

lemma iter_next_Some: "iter_next xs it = (Some v, it') \<Longrightarrow> v \<in> set xs"
  by (auto simp: iter_next_def split: option.splits if_splits)

lemma grow_next_ok:
  assumes "map_ok (snd s)" "width (snd s) * height (snd s) \<le> 2 ^ 31"
  shows "map_ok (snd (grow_next u s)) \<and> width (snd (grow_next u s)) = width (snd s)
    \<and> height (snd (grow_next u s)) = height (snd s)"
proof -
  obtain it w where s: "s = (it, w)" by (cases s)
  obtain vo it1 where n: "iter_next (alivesList w) it = (vo, it1)" by (cases "iter_next (alivesList w) it")
  show ?thesis
  proof (cases vo)
    case None
    then show ?thesis using assms by (simp add: grow_next_def s n)
  next
    case (Some v)
    then have "v \<in> set (alivesList w)" using n iter_next_Some by blast
    then have v: "0 \<le> v" "v < width w * height w" using assms(1) by (auto simp: s map_ok_def wf_map_def)
    then have w: "0 < width w" using assms(1) by (cases "width w = 0") (auto simp: s map_ok_def wf_map_def)
    have xy: "js_rem v (width w) = v mod width w" "tilde2 (of_int v / of_int (width w)) = v div width w"
      using v w assms(2) by (auto simp: s js_rem_nonneg intro: tilde2_row)
    let ?g = "AliveGrowth u w (v mod width w) (v div width w)"
    show ?thesis
    proof (cases "fst ?g")
      case True
      then have "grow_next u s = (it1, snd ?g)" using Some by (cases ?g) (simp add: grow_next_def s n xy)
      then show ?thesis using assms(1) by (simp add: s ok_AliveGrowth)
    next
      case False
      then show ?thesis
        using assms(1) Some forget_dead_ok [of w v] v AliveGrowth_dead [OF False]
          AliveGrowth_alive [of u w "v mod width w" "v div width w"]
        by (cases ?g) (auto simp: grow_next_def s n xy)
    qed
  qed
qed

text \<open>
  (C17) Growing a cell reports whether it lives, keeps the map well formed and overwrites no solid
  block other than the growing cell itself and the cell above it; a dead cell changes nothing. The
  growth timer, which forgets the cells reported dead, never forgets a living one: the list of
  living cells stays complete however long it runs.
\<close>

theorem growth_keeps_world:
  assumes "map_ok w" "width w * height w \<le> 2 ^ 31"
  shows "fst (AliveGrowth u w x y) = is_alive (BlockStats (GetIDByCoord_Terrain w x y))
    \<and> map_ok (snd (AliveGrowth u w x y))
    \<and> (\<forall>a b. solid (BlockStats (GetIDByCoord_Terrain w a b)) \<and> (a, b) \<notin> {(x, y), (x, y - 1)} \<longrightarrow>
         GetIDByCoord_Terrain (snd (AliveGrowth u w x y)) a b = GetIDByCoord_Terrain w a b)
    \<and> map_ok (snd (growth_tick coin us (it, w)))"
proof -
  let ?P = "\<lambda>s. map_ok (snd s) \<and> width (snd s) = width w \<and> height (snd s) = height w"
  have "?P (foldl (\<lambda>s i. grow_next (us i) s) (it, w) [0..<10])"
    by (rule foldl_invariant [where P = ?P]) (use assms grow_next_ok in auto)
  then have "map_ok (snd (growth_tick coin us (it, w)))" using assms(1) by (simp add: growth_tick_def)
  then show ?thesis using AliveGrowth_alive ok_AliveGrowth [OF assms(1)] growth_frame [OF assms(1)] by blast
qed

theorem growth_keeps_world_witness:
  "map_ok (snd (growth_tick (1 / 2) (\<lambda>_. 0) (Some 0, SetTileWithCoords (Resyze no_map 3 3) 1 1 50 0)))"
proof -
  let ?w = "SetTileWithCoords (Resyze no_map 3 3) 1 1 50 0"
  have "map_ok ?w" by (intro wf_intros) simp_all
  moreover have "width ?w * height ?w \<le> 2 ^ 31" by (simp add: Resyze_blank)
  ultimately show ?thesis using growth_keeps_world by blast
qed

text \<open>
  A blue living block that has rested walks to the free neighbour the draw selects and leaves
  a blue crystal behind: exactly these two cells of the terrain change.
\<close>

theorem AliveGrowth_blue_walks:
  assumes "map_ok w" "GetIDByCoord_Terrain w x y = Block_alive_blue" "GetDensity w x y = 0"
    and "blue_target u x y = (mx, my)" "\<not> solid (BlockStats (GetIDByCoord_Terrain w mx my))"
  shows "GetIDByCoord_Terrain (snd (AliveGrowth u w x y)) a b =
    (if (a, b) = (x, y) then Block_cry_blue else if (a, b) = (mx, my) then Block_alive_blue
     else GetIDByCoord_Terrain w a b)"
proof -
  have v: "ValidCoords w x y" using assms(2) Terrain_outside [of w x y] by (cases "ValidCoords w x y") auto
  have "snd (AliveGrowth u w x y) = grow_blue u w x y 20"
    by (simp add: AliveGrowth_def Let_def assms(2) AliveProductHardness_def)
  then show ?thesis using assms(3,5) by (simp add: Terrain_grow_blue [OF assms(1) v assms(4)])
qed

theorem AliveGrowth_blue_walks_witness:
  "GetIDByCoord_Terrain (snd (AliveGrowth 0 (SetTileWithCoords (Resyze no_map 3 3) 1 1 116 0) 1 1)) 1 1 = 109"
proof -
  let ?w = "SetTileWithCoords (Resyze no_map 3 3) 1 1 116 0"
  have r: "wf_map (Resyze no_map 3 3)" and v: "ValidCoords (Resyze no_map 3 3) 1 1"
    by (simp_all add: wf_Resyze ValidCoords_def Resyze_blank)
  have ok: "map_ok ?w" by (intro wf_intros) simp_all
  have b: "GetIDByCoord_Terrain ?w 1 1 = 116" "GetIDByCoord_Terrain ?w 1 2 = 0"
    by (simp_all add: Terrain_SetTileWithCoords [OF r v] crystal_solid)
      (simp add: GetIDByCoord_Terrain_def ValidCoords_def Resyze_blank ta_byte_def ta_get_def)
  have d: "GetDensity ?w 1 1 = 0"
    using crystal_solid alive_no_density [of 116]
    by (simp add: GetDensity_def SetTileWithCoords_def SetTile_def v ta_byte_def ta_get_def ta_set_def
        Resyze_def Fill_def Let_def ValidCoords_def)
  have t: "blue_target 0 1 1 = (1, 2)" by (simp add: blue_target_def)
  have "GetIDByCoord_Terrain (snd (AliveGrowth 0 ?w 1 1)) 1 1 =
    (if ((1 :: int), (1 :: int)) = (1, 1) then Block_cry_blue else if (1 :: int, 1 :: int) = (1, 2) then Block_alive_blue
     else GetIDByCoord_Terrain ?w 1 1)"
    by (rule AliveGrowth_blue_walks [OF ok b(1) d t]) (simp add: b(2))
  then show ?thesis by simp
qed

text \<open>
  A cyan living block surrounds itself with cyan crystals: the free cells among its four
  neighbours, and no others, become cyan crystals.
\<close>

theorem AliveGrowth_cyan:
  assumes "map_ok w" "GetIDByCoord_Terrain w x y = Block_alive_cyan"
  shows "GetIDByCoord_Terrain (snd (AliveGrowth u w x y)) a b =
    (if \<bar>a - x\<bar> + \<bar>b - y\<bar> = 1 \<and> \<not> solid (BlockStats (GetIDByCoord_Terrain w a b))
     then Block_cry_cyan else GetIDByCoord_Terrain w a b)"
proof -
  have al: "is_alive (BlockStats Block_alive_cyan)" by (simp add: BlockStats_def BlockStatsTable_def)
  have "(a, b) \<in> set (plus_cells x y) \<longleftrightarrow> \<bar>a - x\<bar> + \<bar>b - y\<bar> = 1"
    by (auto simp: plus_cells_def)
  then show ?thesis
    by (simp add: AliveGrowth_def Let_def assms(2) AliveProductHardness_def al
        Terrain_set_free_list [OF assms(1)] crystal_solid)
qed

theorem AliveGrowth_cyan_witness:
  "GetIDByCoord_Terrain (snd (AliveGrowth 0 (SetTileWithCoords (Resyze no_map 3 3) 1 1 50 0) 1 1)) 0 1 = 112"
proof -
  let ?w = "SetTileWithCoords (Resyze no_map 3 3) 1 1 50 0"
  have r: "wf_map (Resyze no_map 3 3)" and v: "ValidCoords (Resyze no_map 3 3) 1 1"
    by (simp_all add: wf_Resyze ValidCoords_def Resyze_blank)
  have s: "solid (BlockStats 50)" by (simp add: BlockStats_def BlockStatsTable_def)
  have b: "GetIDByCoord_Terrain ?w 1 1 = 50" "GetIDByCoord_Terrain ?w 0 1 = 0"
    by (simp_all add: Terrain_SetTileWithCoords [OF r v] s)
      (simp add: GetIDByCoord_Terrain_def ValidCoords_def Resyze_blank ta_byte_def ta_get_def)
  have ok: "map_ok ?w" by (intro wf_intros) simp_all
  show ?thesis using AliveGrowth_cyan [OF ok b(1), of 0 0 1] by (simp add: b(2))
qed

lemma ta_byte_mark: "ta_byte xs i \<noteq> 0 \<Longrightarrow> ta_byte (ta_set xs j 1) i \<noteq> 0"
  by (auto simp: ta_byte_def ta_get_set split: option.splits)

lemma mark_around_keeps:
  "ta_byte (activeChunks w) i \<noteq> 0 \<Longrightarrow> ta_byte (activeChunks (mark_around w p m)) i \<noteq> 0"
  unfolding mark_around_def Let_def
  by (cases m, simp only: prod.case,
      rule foldl_invariant [where P = "\<lambda>w :: world_map. ta_byte (activeChunks w) i \<noteq> 0"])
    (auto simp: ta_byte_mark split: if_splits)

lemma mark_around_centre:
  assumes "int (length (activeChunks w)) = chunkWidth w * chunkHeight w"
    and "bx = js_shr (fst p) 5" "by = js_shr (snd p) 5"
    and "0 \<le> bx" "bx < chunkWidth w" "0 \<le> by" "by < chunkHeight w"
  shows "ta_byte (activeChunks (mark_around w p (active_margin c u))) (bx + by * chunkWidth w) \<noteq> 0"
proof -
  obtain ax1 ay1 ax2 ay2 where m: "active_margin c u = (ax1, ay1, ax2, ay2)" by (cases "active_margin c u")
  then have nonneg: "0 \<le> ax1" "0 \<le> ay1" "0 \<le> ax2" "0 \<le> ay2"
    by (auto simp: active_margin_def split: if_splits)
  let ?cells = "concat (map (\<lambda>y. map (\<lambda>x. (x, y)) [bx - ax1..bx + ax2]) [by - ay1..by + ay2])"
  have mem: "(bx, by) \<in> set ?cells" using nonneg by force
  show ?thesis
    unfolding mark_around_def m Let_def prod.case assms(2,3) [symmetric]
    by (rule foldl_reaches [OF mem, where I = "flags_only w"])
      (use assms(1,4-) row_index_range [of bx "chunkWidth w" "by" "chunkHeight w"] in
        \<open>auto simp: flags_only_refl flags_only_set ta_byte_set ta_byte_mark dest: flags_only_dims
          split: if_splits\<close>)
qed

text \<open>
  \<open>SetActiveChunks\<close> activates the chunk of every bot that stands on the map, whatever the
  random margins, switches no chunk off and touches nothing but the chunk flags.
\<close>

theorem SetActiveChunks_covers:
  assumes "map_ok w" "ValidCoords w x y" "(x, y) \<in> set bots" "width w \<le> 2 ^ 31" "height w \<le> 2 ^ 31"
  shows "ta_byte (activeChunks (SetActiveChunks us w bots cur)) (x div 32 + (y div 32) * chunkWidth w) \<noteq> 0
    \<and> (\<forall>i. ta_byte (activeChunks w) i \<noteq> 0 \<longrightarrow> ta_byte (activeChunks (SetActiveChunks us w bots cur)) i \<noteq> 0)
    \<and> flags_only w (SetActiveChunks us w bots cur)"
proof -
  let ?i = "x div 32 + (y div 32) * chunkWidth w"
  from assms(3) obtain k where k: "k < length bots" "bots ! k = (x, y)" by (auto simp: in_set_conv_nth)
  have sh: "x div 32 = js_shr x 5" "y div 32 = js_shr y 5"
    using assms(2,4,5) by (auto simp: ValidCoords_def js_shr5)
  have rng: "0 \<le> x div 32" "x div 32 < chunkWidth w" "0 \<le> y div 32" "y div 32 < chunkHeight w"
    using assms(1,2) by (auto simp: ValidCoords_def map_ok_def wf_map_def pos_imp_zdiv_nonneg_iff
        intro: div32_lt_ceil)
  have len: "int (length (activeChunks w)) = chunkWidth w * chunkHeight w"
    using assms(1) by (simp add: map_ok_def wf_map_def)
  have hit: "ta_byte (activeChunks (mark_around v (x, y) (active_margin c u))) ?i \<noteq> 0"
    if "flags_only w v" for v c u
    using that mark_around_centre [of v "x div 32" "(x, y)" "y div 32" c u] rng len sh
    by (auto simp: flags_only_def)
  have "ta_byte (activeChunks (SetActiveChunks us w bots cur)) ?i \<noteq> 0"
    unfolding SetActiveChunks_def
    by (rule foldl_reaches [where x = k and I = "flags_only w"])
      (use k hit in \<open>auto simp: flags_only_refl flags_only_mark mark_around_keeps\<close>)
  moreover have "ta_byte (activeChunks (SetActiveChunks us w bots cur)) i \<noteq> 0"
    if "ta_byte (activeChunks w) i \<noteq> 0" for i
    unfolding SetActiveChunks_def
    by (rule foldl_invariant [where P = "\<lambda>w. ta_byte (activeChunks w) i \<noteq> 0"])
      (use that mark_around_keeps in auto)
  ultimately show ?thesis using SetActiveChunks_flags by blast
qed

theorem SetActiveChunks_covers_witness:
  "ta_byte (activeChunks (SetActiveChunks (\<lambda>_. 0) (Resyze no_map 64 64) [(40, 3)] None)) 1 \<noteq> 0"
proof -
  have ok: "map_ok (Resyze no_map 64 64)" by (intro wf_intros) simp_all
  have v: "ValidCoords (Resyze no_map 64 64) 40 3" by (simp add: ValidCoords_def Resyze_blank)
  show ?thesis
    using SetActiveChunks_covers [OF ok v, of "[(40, 3)]" "\<lambda>_. 0" None] by (simp add: Resyze_blank)
qed

end
