(* ===== verification/Cargo.thy ===== *)
theory Cargo
  imports JS_Prelude "HOL-Library.AList"
begin

text \<open>
  \<^verbatim>\<open>scripts/cargo.js\<close> and the class \<open>BotSkillEffects\<close> of \<^verbatim>\<open>scripts/bot.js\<close>: the six crystal
  counters (a \<open>Uint32Array\<close>), the geology stack of a bot, the load of its hold and its item
  inventory. The geology stack is an instance of the locale \<open>bounded_lifo\<close>.
\<close>

section \<open>Computed parameters of a bot (bot.js)\<close>

datatype cry = CryG | CryB | CryR | CryW | CryV | CryC

definition CryCodes :: "cry list" where
  "CryCodes = [CryG, CryB, CryR, CryW, CryV, CryC]"

record bot_stats =
  hpNow :: int
  hpMax :: int
  st_digg :: int
  geology :: nat
  moveSpeed :: rat
  moveRoadSpeedMul :: rat
  coolingToDepth :: int
  mining :: int
  sorting :: int
  miningCrys :: "cry \<Rightarrow> int"
  cargo_base :: int
  cargo_of :: "cry \<Rightarrow> int"

definition BotSkillEffects :: "rat \<Rightarrow> bot_stats" where
  "BotSkillEffects u =
     \<lparr>hpNow = 500, hpMax = 500, st_digg = 10, geology = 10, moveSpeed = 20 + u * 20,
      moveRoadSpeedMul = 34 / 10, coolingToDepth = 100, mining = 5, sorting = 3,
      miningCrys = (\<lambda>k. case k of CryG \<Rightarrow> 6 | CryB \<Rightarrow> 5 | CryR \<Rightarrow> 4 | CryW \<Rightarrow> 3 | CryV \<Rightarrow> 2 | CryC \<Rightarrow> 1),
      cargo_base = 100,
      cargo_of = (\<lambda>k. case k of CryG \<Rightarrow> 10 | CryB \<Rightarrow> 5 | CryR \<Rightarrow> 6 | CryW \<Rightarrow> 2 | CryV \<Rightarrow> 7 | CryC \<Rightarrow> 2)\<rparr>"

definition CryCargoSyze :: "bot_stats \<Rightarrow> cry \<Rightarrow> int" where
  "CryCargoSyze st k = cargo_base st * cargo_of st k"

section \<open>Crystals\<close>

fun cry_slot :: "cry \<Rightarrow> nat" where
  "cry_slot CryG = 0" | "cry_slot CryB = 1" | "cry_slot CryR = 2"
| "cry_slot CryW = 3" | "cry_slot CryV = 4" | "cry_slot CryC = 5"

record cry_cargo =
  cry_cells :: "32 word list"

definition CryCargo :: cry_cargo where
  "CryCargo = \<lparr>cry_cells = replicate 6 0\<rparr>"

definition get_cry :: "'a cry_cargo_scheme \<Rightarrow> cry \<Rightarrow> 32 word" where
  "get_cry c k = cry_cells c ! cry_slot k"

text \<open>The setters refuse a negative value with a message on the console.\<close>

definition set_cry :: "'a cry_cargo_scheme \<Rightarrow> cry \<Rightarrow> int \<Rightarrow> 'a cry_cargo_scheme" where
  "set_cry c k v = (if v \<ge> 0 then c\<lparr>cry_cells := (cry_cells c)[cry_slot k := of_int v]\<rparr> else c)"

section \<open>The hold of a bot\<close>

record bot_cargo = cry_cargo +
  geoLast :: int
  geo :: "byte list"

definition BotCargo :: "bot_stats \<Rightarrow> bot_cargo" where
  "BotCargo st = \<lparr>cry_cells = replicate 6 0, geoLast = -1, geo = replicate (geology st) 0\<rparr>"

definition geoLastID :: "bot_cargo \<Rightarrow> byte option" where
  "geoLastID c = (if geoLast c \<ge> 0 then ta_get (geo c) (geoLast c) else None)"

definition geoIsNoFull :: "bot_cargo \<Rightarrow> bool" where
  "geoIsNoFull c = (geoLast c + 1 < int (length (geo c)))"

text \<open>The division is truncated before the multiplication.\<close>

definition geoFilledPersent :: "bot_cargo \<Rightarrow> int" where
  "geoFilledPersent c = tilde2 (of_int (geoLast c + 1) / of_nat (length (geo c))) * 100"

definition geoFilledValue :: "bot_cargo \<Rightarrow> int" where
  "geoFilledValue c = geoLast c + 1"

definition PopGeo :: "bot_cargo \<Rightarrow> byte option \<times> bot_cargo" where
  "PopGeo c =
     (if geoLast c \<ge> 0
      then (ta_get (geo c) (geoLast c), c\<lparr>geo := ta_set (geo c) (geoLast c) 0, geoLast := geoLast c - 1\<rparr>)
      else (None, c))"

definition PushGeo :: "bot_cargo \<Rightarrow> byte \<Rightarrow> bool \<times> bot_cargo" where
  "PushGeo c b =
     (if geoIsNoFull c
      then (True, c\<lparr>geoLast := geoLast c + 1, geo := ta_set (geo c) (geoLast c + 1) b\<rparr>)
      else (False, c))"

definition GetVolume :: "bot_stats \<Rightarrow> 'a cry_cargo_scheme \<Rightarrow> cry \<Rightarrow> rat" where
  "GetVolume st c k = of_nat (unat (get_cry c k)) / of_int (CryCargoSyze st k)"

definition GetVolume_max :: "bot_stats \<Rightarrow> 'a cry_cargo_scheme \<Rightarrow> rat" where
  "GetVolume_max st c =
     foldl (\<lambda>mx k. let crycargo = GetVolume st c k in if mx < crycargo then crycargo else mx)
       (GetVolume st c (hd CryCodes)) (tl CryCodes)"

section \<open>Items\<close>

text \<open>A JavaScript \<open>Map\<close> keeps insertion order; storing an existing key keeps its place.\<close>

type_synonym inventory = "(int \<times> int) list"

definition Inv_Check :: "inventory \<Rightarrow> int \<Rightarrow> int" where
  "Inv_Check iv code = (case map_of iv code of Some n \<Rightarrow> n | None \<Rightarrow> 0)"

definition Inv_Add :: "inventory \<Rightarrow> int \<Rightarrow> int \<Rightarrow> int \<times> inventory" where
  "Inv_Add iv code count =
     (let curcount = (case map_of iv code of Some n \<Rightarrow> n | None \<Rightarrow> 0)
      in (curcount, AList.update code (curcount + count) iv))"

definition Inv_Take :: "inventory \<Rightarrow> int \<Rightarrow> int \<Rightarrow> int option \<times> inventory" where
  "Inv_Take iv code count =
     (case map_of iv code of
        Some curcount \<Rightarrow>
          (if curcount \<noteq> 0
           then (Some (curcount - count), AList.update code (curcount - count) iv)
           else (None, iv))
      | None \<Rightarrow> (None, iv))"

fun GenerateRandomItems :: "inventory \<Rightarrow> nat \<Rightarrow> int \<Rightarrow> (nat \<Rightarrow> rat) \<Rightarrow> inventory" where
  "GenerateRandomItems iv 0 maxCount us = iv"
| "GenerateRandomItems iv (Suc n) maxCount us =
     GenerateRandomItems (snd (Inv_Add iv (RandInt (us 0) 0 50) (RandInt (us 1) 0 maxCount)))
       n maxCount (\<lambda>i. us (i + 2))"

text \<open>The items of a bot: each at most once, with a code of the table.\<close>

definition items_ok :: "inventory \<Rightarrow> bool" where
  "items_ok iv \<longleftrightarrow> distinct (map fst iv) \<and> fst ` set iv \<subseteq> {0..50}"

lemma items_ok_Nil [simp]: "items_ok []"
  by (simp add: items_ok_def)

lemma Inv_Add_ok [wf_intros]: "items_ok iv \<Longrightarrow> code \<in> {0..50} \<Longrightarrow> items_ok (snd (Inv_Add iv code count))"
  by (auto simp: items_ok_def Inv_Add_def Let_def distinct_update dom_update)

lemma GenerateRandomItems_ok:
  "(\<And>n. unit_draw (us n)) \<Longrightarrow> items_ok iv \<Longrightarrow> items_ok (GenerateRandomItems iv n mx us)"
proof (induction iv n mx us rule: GenerateRandomItems.induct)
  case (2 iv n mx us)
  have "RandInt (us 0) 0 50 \<in> {0..50}" using RandInt_range [of "us 0" 0 50] 2(2) by auto
  then show ?case using 2 by (simp add: wf_intros)
qed simp

section \<open>The geology stack is a bounded stack\<close>

locale bounded_lifo =
  fixes invar :: "'s \<Rightarrow> bool"
    and items :: "'s \<Rightarrow> 'x list"
    and capacity :: "'s \<Rightarrow> nat"
    and push :: "'s \<Rightarrow> 'x \<Rightarrow> bool \<times> 's"
    and pop :: "'s \<Rightarrow> 'x option \<times> 's"
  assumes push_room: "invar s \<Longrightarrow> length (items s) < capacity s \<Longrightarrow>
      fst (push s x) \<and> items (snd (push s x)) = x # items s"
    and push_full: "invar s \<Longrightarrow> length (items s) = capacity s \<Longrightarrow> push s x = (False, s)"
    and pop_some: "invar s \<Longrightarrow> items s = x # xs \<Longrightarrow> fst (pop s) = Some x \<and> items (snd (pop s)) = xs"
    and pop_none: "invar s \<Longrightarrow> items s = [] \<Longrightarrow> pop s = (None, s)"
    and bounded: "invar s \<Longrightarrow> length (items s) \<le> capacity s"
    and invar_push: "invar s \<Longrightarrow> invar (snd (push s x))"
    and invar_pop: "invar s \<Longrightarrow> invar (snd (pop s))"
    and capacity_push: "capacity (snd (push s x)) = capacity s"
    and capacity_pop: "capacity (snd (pop s)) = capacity s"
begin

fun push_all :: "'s \<Rightarrow> 'x list \<Rightarrow> 's" where
  "push_all s [] = s"
| "push_all s (x # xs) = push_all (snd (push s x)) xs"

fun pop_n :: "'s \<Rightarrow> nat \<Rightarrow> 'x option list" where
  "pop_n s 0 = []"
| "pop_n s (Suc n) = fst (pop s) # pop_n (snd (pop s)) n"

lemma pop_push: "invar s \<Longrightarrow> length (items s) < capacity s \<Longrightarrow>
    fst (pop (snd (push s x))) = Some x \<and> items (snd (pop (snd (push s x)))) = items s"
  by (meson invar_push pop_some push_room)

lemma push_all_items:
  "invar s \<Longrightarrow> length (items s) + length xs \<le> capacity s \<Longrightarrow>
    invar (push_all s xs) \<and> items (push_all s xs) = rev xs @ items s"
  by (induction xs arbitrary: s) (auto simp: push_room invar_push capacity_push)

lemma pop_n_items: "invar s \<Longrightarrow> n \<le> length (items s) \<Longrightarrow> pop_n s n = map Some (take n (items s))"
proof (induction n arbitrary: s)
  case 0
  then show ?case by simp
next
  case (Suc n)
  then obtain x xs where s: "items s = x # xs" by (cases "items s") auto
  then show ?case using Suc pop_some [OF Suc.prems(1) s] by (simp add: invar_pop)
qed

lemma lifo_order:
  assumes "invar s" "length (items s) + length xs \<le> capacity s"
  shows "pop_n (push_all s xs) (length xs) = map Some (rev xs)"
  using push_all_items [OF assms] by (simp add: pop_n_items)

end

definition geo_ok :: "bot_cargo \<Rightarrow> bool" where
  "geo_ok c \<longleftrightarrow> -1 \<le> geoLast c \<and> geoLast c < int (length (geo c))"

definition geo_items :: "bot_cargo \<Rightarrow> byte list" where
  "geo_items c = rev (take (nat (geoLast c + 1)) (geo c))"

lemma length_geo_items: "geo_ok c \<Longrightarrow> int (length (geo_items c)) = geoLast c + 1"
  by (auto simp: geo_ok_def geo_items_def)

lemma geo_items_push:
  assumes "geo_ok c" "geoIsNoFull c"
  shows "geo_items (snd (PushGeo c b)) = b # geo_items c"
proof -
  let ?n = "nat (geoLast c + 1)"
  have n: "?n < length (geo c)" "nat (2 + geoLast c) = Suc ?n" "0 \<le> geoLast c + 1"
    using assms by (auto simp: geo_ok_def geoIsNoFull_def)
  then show ?thesis
    using assms(2) by (simp add: geo_items_def PushGeo_def ta_set_def geoIsNoFull_def take_Suc_conv_app_nth)
qed

lemma geo_items_pop:
  assumes "geo_ok c" "0 \<le> geoLast c"
  shows "geo_items c = geo c ! nat (geoLast c) # geo_items (snd (PopGeo c))"
    and "fst (PopGeo c) = Some (geo c ! nat (geoLast c))"
proof -
  let ?n = "nat (geoLast c)"
  have n: "?n < length (geo c)" "nat (geoLast c + 1) = Suc ?n"
    using assms by (auto simp: geo_ok_def)
  then show "geo_items c = geo c ! ?n # geo_items (snd (PopGeo c))"
    using assms(2) by (simp add: geo_items_def PopGeo_def ta_set_def take_Suc_conv_app_nth)
  show "fst (PopGeo c) = Some (geo c ! ?n)"
    using assms n by (simp add: PopGeo_def ta_get_def geo_ok_def)
qed

lemma geo_items_Nil: "geo_ok c \<Longrightarrow> geo_items c = [] \<longleftrightarrow> geoLast c = -1"
  using length_geo_items [of c] by (auto simp: geo_ok_def)

interpretation geology: bounded_lifo geo_ok geo_items "\<lambda>c. length (geo c)" PushGeo PopGeo
proof (unfold_locales, goal_cases)
  case (1 s x)
  then have "geoIsNoFull s" using length_geo_items [of s] by (simp add: geoIsNoFull_def)
  with 1 show ?case by (simp add: geo_items_push) (simp add: PushGeo_def)
next
  case (2 s x)
  then show ?case using length_geo_items [of s] by (simp add: PushGeo_def geoIsNoFull_def)
next
  case (3 s x xs)
  then have "0 \<le> geoLast s" using geo_items_Nil [of s] by (auto simp: geo_ok_def)
  with 3 show ?case using geo_items_pop [of s] by auto
next
  case (4 s)
  then show ?case by (simp add: geo_items_Nil PopGeo_def)
next
  case (5 s)
  then show ?case using length_geo_items [of s] by (simp add: geo_ok_def)
qed (auto simp: PushGeo_def PopGeo_def geo_ok_def geoIsNoFull_def)

lemma geo_ok_new: "geo_ok (BotCargo st)"
  by (simp add: geo_ok_def BotCargo_def)

lemma geo_ok_PushGeo [wf_intros]: "geo_ok c \<Longrightarrow> geo_ok (snd (PushGeo c b))"
  by (rule geology.invar_push)

lemma geo_ok_PopGeo [wf_intros]: "geo_ok c \<Longrightarrow> geo_ok (snd (PopGeo c))"
  by (rule geology.invar_pop)

section \<open>Properties\<close>

text \<open>
  (C26) The geology hold is a bounded stack of blocks: \<open>PushGeo\<close> puts a block on top and says so
  exactly when there is room, \<open>PopGeo\<close> takes the top block off and gives \<open>null\<close> exactly when the
  stack is empty, and both keep the fill index inside the array.
\<close>

theorem geology_refines_stack:
  assumes "geo_ok c"
  shows "PushGeo c b = (if length (geo_items c) < length (geo c) then (True, snd (PushGeo c b)) else (False, c))
    \<and> (length (geo_items c) < length (geo c) \<longrightarrow> geo_items (snd (PushGeo c b)) = b # geo_items c)
    \<and> fst (PopGeo c) = (case geo_items c of [] \<Rightarrow> None | x # _ \<Rightarrow> Some x)
    \<and> geo_items (snd (PopGeo c)) = tl (geo_items c)
    \<and> geo_ok (snd (PushGeo c b)) \<and> geo_ok (snd (PopGeo c))"
proof -
  have push: "length (geo_items c) < length (geo c) \<Longrightarrow>
      fst (PushGeo c b) \<and> geo_items (snd (PushGeo c b)) = b # geo_items c"
    by (rule geology.push_room [OF assms])
  have full: "\<not> length (geo_items c) < length (geo c) \<Longrightarrow> PushGeo c b = (False, c)"
    using geology.push_full [OF assms] geology.bounded [OF assms] by simp
  have pop: "fst (PopGeo c) = (case geo_items c of [] \<Rightarrow> None | x # _ \<Rightarrow> Some x)
      \<and> geo_items (snd (PopGeo c)) = tl (geo_items c)"
    using geology.pop_some [OF assms] geology.pop_none [OF assms] by (cases "geo_items c") auto
  show ?thesis
    using push full pop geology.invar_push [OF assms] geology.invar_pop [OF assms]
    by (auto simp: prod_eq_iff)
qed

theorem geology_refines_stack_witness:
  "geo_items (snd (PopGeo (snd (PushGeo (BotCargo (BotSkillEffects 0)) 40)))) = []"
proof -
  let ?c = "BotCargo (BotSkillEffects 0)"
  have ok: "geo_ok ?c" by (rule geo_ok_new)
  have e: "geo_items ?c = []" and l: "length (geo ?c) = 10"
    by (simp_all add: geo_items_def BotCargo_def BotSkillEffects_def)
  have "geo_items (snd (PushGeo ?c 40)) = [40]" and ok': "geo_ok (snd (PushGeo ?c 40))"
    using geology_refines_stack [OF ok, of 40] e l by auto
  then show ?thesis using geology_refines_stack [OF ok'] by auto
qed

text \<open>
  The programmator variable for the fill of the geology hold is truncated before it is
  scaled: it is 100 when the hold is full and 0 otherwise, never a percentage in between.
\<close>

theorem geoFilledPersent_two_valued:
  assumes "geo_ok c" "0 < length (geo c)"
  shows "geoFilledPersent c = (if geoFilledValue c = int (length (geo c)) then 100 else 0)"
proof -
  let ?n = "of_nat (length (geo c)) :: rat"
  have n: "0 < ?n" using assms(2) by simp
  have r: "0 \<le> geoLast c + 1" "geoLast c + 1 \<le> int (length (geo c))"
    using assms(1) by (auto simp: geo_ok_def)
  show ?thesis
  proof (cases "geoLast c + 1 = int (length (geo c))")
    case True
    then have "of_int (geoLast c + 1) / ?n = 1" using n by simp
    then show ?thesis using True
      by (simp add: geoFilledPersent_def geoFilledValue_def tilde2_def js_trunc_def)
  next
    case False
    then have "(of_int (geoLast c + 1) :: rat) < ?n"
      using r(2) by (metis of_int_less_iff of_int_of_nat_eq order_le_imp_less_or_eq)
    then have "0 \<le> of_int (geoLast c + 1) / ?n" "of_int (geoLast c + 1) / ?n < 1"
      using r(1) n by (simp_all only: divide_less_eq_1_pos zero_le_divide_iff) auto
    then have "js_trunc (of_int (geoLast c + 1) / ?n) = 0"
      by (simp only: js_trunc_nonneg floor_eq_iff) simp
    then show ?thesis using False
      by (simp add: geoFilledPersent_def geoFilledValue_def tilde2_def)
  qed
qed

theorem geoFilledPersent_two_valued_witness:
  "geoFilledPersent (snd (PushGeo (BotCargo (BotSkillEffects 0)) 40)) = 0"
proof -
  let ?c = "snd (PushGeo (BotCargo (BotSkillEffects 0)) 40)"
  have "geo_ok ?c" by (intro wf_intros geo_ok_new)
  moreover have "length (geo ?c) = 10" "geoFilledValue ?c = 1"
    by (simp_all add: PushGeo_def BotCargo_def BotSkillEffects_def geoIsNoFull_def geoFilledValue_def)
  ultimately show ?thesis using geoFilledPersent_two_valued [of ?c] by simp
qed

text \<open>
  \<open>GetVolume()\<close> without a crystal code is the largest of the six loads: no load exceeds
  it and one of them equals it.
\<close>

theorem GetVolume_max_greatest:
  "(\<forall>k. GetVolume st c k \<le> GetVolume_max st c) \<and> (\<exists>k. GetVolume_max st c = GetVolume st c k)"
proof -
  have step: "(\<forall>k \<in> A \<union> set ks. GetVolume st c k \<le> m') \<and> (\<exists>k. m' = GetVolume st c k)"
    if "\<forall>k \<in> A. GetVolume st c k \<le> m" "\<exists>k. m = GetVolume st c k"
      "m' = foldl (\<lambda>mx k. let v = GetVolume st c k in if mx < v then v else mx) m ks" for A m m' ks
    using that
  proof (induction ks arbitrary: m A)
    case Nil
    then show ?case by simp
  next
    case (Cons k ks)
    let ?m = "if m < GetVolume st c k then GetVolume st c k else m"
    have "(\<forall>j \<in> insert k A \<union> set ks. GetVolume st c j \<le> m') \<and> (\<exists>j. m' = GetVolume st c j)"
      using Cons.prems by (intro Cons.IH [where m = ?m]) (auto simp: Let_def)
    then show ?case by auto
  qed
  have "(\<forall>k \<in> {CryG} \<union> set (tl CryCodes). GetVolume st c k \<le> GetVolume_max st c)
      \<and> (\<exists>k. GetVolume_max st c = GetVolume st c k)"
    by (rule step [where m = "GetVolume st c CryG"]) (auto simp: GetVolume_max_def CryCodes_def)
  moreover have "k \<in> {CryG} \<union> set (tl CryCodes)" for k
    by (cases k) (simp_all add: CryCodes_def)
  ultimately show ?thesis by blast
qed

text \<open>
  A crystal counter reads back what was stored when the value fits in 32 bits, a negative
  value is refused, and the other five counters are untouched.
\<close>

theorem set_cry_get:
  assumes "length (cry_cells c) = 6" "v < 2 ^ 32"
  shows "uint (get_cry (set_cry c k v) k') =
    (if k' = k \<and> 0 \<le> v then v else uint (get_cry c k'))"
proof -
  have slot: "cry_slot k' < 6" "cry_slot k' = cry_slot k \<longleftrightarrow> k' = k"
    by (cases k; cases k'; simp)+
  have "uint (of_int v :: 32 word) = v" if "0 \<le> v"
    using that assms(2) by (simp add: uint_word_of_int)
  then show ?thesis using slot assms(1) by (auto simp: get_cry_def set_cry_def nth_list_update)
qed

theorem set_cry_get_witness: "uint (get_cry (set_cry CryCargo CryW 77) CryW) = 77"
  using set_cry_get [of CryCargo 77 CryW CryW] by (simp add: CryCargo_def)

text \<open>
  The inventory: \<open>Add\<close> raises the count of its item by the amount added and \<open>Take\<close> of an
  item that is there lowers it by the amount asked for, which may leave a negative count; no
  other item changes.
\<close>

theorem inventory_counts:
  "Inv_Check (snd (Inv_Add iv code n)) code' = Inv_Check iv code' + (if code' = code then n else 0)
   \<and> Inv_Check (snd (Inv_Take iv code n)) code' =
       Inv_Check iv code' - (if code' = code \<and> Inv_Check iv code \<noteq> 0 then n else 0)
   \<and> fst (Inv_Take iv code n) =
       (if Inv_Check iv code = 0 then None else Some (Inv_Check iv code - n))"
  by (auto simp: Inv_Check_def Inv_Add_def Inv_Take_def Let_def update_conv' split: option.splits)

end
