(* ===== verification/Bots_Container.thy ===== *)
theory Bots_Container
  imports JS_Prelude
begin

text \<open>
  \<open>BotsContainer\<close> of \<^verbatim>\<open>scripts/bot.js\<close>: the spatial index of the bots, a sparse array of 32 by 32
  chunks, each a \<open>Map\<close> keyed by bot number, and a \<open>Map\<close> from each registered bot to the chunk it
  was last filed under. A bot is its number here; where it stands is read through the reference
  the index keeps, so queries take the positions as an argument \<open>pos\<close>. The container listens to
  the bot's move callback (\<open>BotMoved\<close>).
\<close>

record bots_container =
  bc_width :: int
  bc_height :: int
  bc_length :: int
  bc_chunk_width :: int
  bc_chunk_height :: int
  bc_chunks_count :: int
  bc_chunks :: "int \<Rightarrow> nat list option"
  botlist :: "nat \<Rightarrow> int option"

definition BotsContainer :: "int \<Rightarrow> int \<Rightarrow> bots_container" where
  "BotsContainer w h =
     \<lparr>bc_width = w, bc_height = h, bc_length = w * h, bc_chunk_width = ceil_div32 w,
      bc_chunk_height = ceil_div32 h, bc_chunks_count = ceil_div32 w * ceil_div32 h,
      bc_chunks = (\<lambda>_. None), botlist = (\<lambda>_. None)\<rparr>"

definition ChunkIndex2 :: "bots_container \<Rightarrow> int \<Rightarrow> int \<Rightarrow> int" where
  "ChunkIndex2 c x y = js_shr x 5 + js_shr y 5 * bc_chunk_width c"

definition ChunkIndex :: "bots_container \<Rightarrow> int \<times> int \<Rightarrow> int" where
  "ChunkIndex c p = js_shr (fst p) 5 + js_shr (snd p) 5 * bc_chunk_width c"

definition Bots_GetChunk :: "bots_container \<Rightarrow> int \<Rightarrow> int \<Rightarrow> nat list option" where
  "Bots_GetChunk c cx cy =
     (if cx \<ge> 0 \<and> cy \<ge> 0 \<and> cx < bc_chunk_width c \<and> cy < bc_chunk_height c
      then bc_chunks c (cx + cy * bc_chunk_width c) else None)"

text \<open>\<open>Distance2\<close> compares the rounded square root with the radius; here the squares are compared.\<close>

definition within_radius :: "int \<times> int \<Rightarrow> int \<Rightarrow> int \<Rightarrow> int \<Rightarrow> bool" where
  "within_radius p x y radius \<longleftrightarrow> 0 \<le> radius \<and> (x - fst p)\<^sup>2 + (y - snd p)\<^sup>2 \<le> radius\<^sup>2"

definition chunk_hits ::
    "bots_container \<Rightarrow> (nat \<Rightarrow> int \<times> int) \<Rightarrow> int \<Rightarrow> int \<Rightarrow> int \<Rightarrow> int \<Rightarrow> int \<Rightarrow> nat list" where
  "chunk_hits c pos x y radius cx cy =
     (case Bots_GetChunk c cx cy of
        Some ids \<Rightarrow> filter (\<lambda>i. within_radius (pos i) x y radius) ids
      | None \<Rightarrow> [])"

definition GetFromRad ::
    "bots_container \<Rightarrow> (nat \<Rightarrow> int \<times> int) \<Rightarrow> int \<Rightarrow> int \<Rightarrow> int \<Rightarrow> nat list" where
  "GetFromRad c pos x y radius =
     foldl (\<lambda>col i. set_add i col) []
       (if radius \<noteq> 0 then
          (let cx1 = js_shr (x - radius) 5; cy1 = js_shr (y - radius) 5;
               cx2 = js_shr (x + radius) 5; cy2 = js_shr (y + radius) 5
           in concat (map (\<lambda>cy. concat (map (\<lambda>cx. chunk_hits c pos x y radius cx cy) [cx1..cx2]))
                [cy1..cy2]))
        else chunk_hits c pos x y radius (js_shr x 5) (js_shr y 5))"

definition chunk_add :: "bots_container \<Rightarrow> int \<Rightarrow> nat \<Rightarrow> bots_container" where
  "chunk_add c ci i =
     c\<lparr>bc_chunks := (bc_chunks c)(ci := Some (set_add i
        (case bc_chunks c ci of None \<Rightarrow> [] | Some ids \<Rightarrow> ids)))\<rparr>"

definition Bots_Set1 :: "bots_container \<Rightarrow> nat \<Rightarrow> int \<times> int \<Rightarrow> bool \<times> bots_container" where
  "Bots_Set1 c i p =
     (if botlist c i \<noteq> None then (False, c)
      else (let ci = ChunkIndex c p
            in (True, chunk_add (c\<lparr>botlist := (botlist c)(i := Some ci)\<rparr>) ci i)))"

fun Bots_Set :: "bots_container \<Rightarrow> (nat \<times> int \<times> int) list \<Rightarrow> bots_container" where
  "Bots_Set c [] = c"
| "Bots_Set c ((i, p) # bs) = Bots_Set (snd (Bots_Set1 c i p)) bs"

definition chunk_delete :: "bots_container \<Rightarrow> int \<Rightarrow> nat \<Rightarrow> bots_container result" where
  "chunk_delete c ci i =
     (case bc_chunks c ci of
        None \<Rightarrow> Inl TypeError
      | Some ids \<Rightarrow> Inr (c\<lparr>bc_chunks := (bc_chunks c)(ci := Some (removeAll i ids))\<rparr>))"

definition BotMoved :: "bots_container \<Rightarrow> nat \<Rightarrow> int \<times> int \<Rightarrow> bots_container result" where
  "BotMoved c i p =
     (let ci = ChunkIndex c p;
          bothere = (case bc_chunks c ci of None \<Rightarrow> False | Some ids \<Rightarrow> i \<in> set ids)
      in if bothere then Inr c
         else (case botlist c i of
                 None \<Rightarrow> Inl TypeError
               | Some lastCindex \<Rightarrow>
                   ebind (chunk_delete c lastCindex i)
                     (\<lambda>c. Inr (chunk_add (c\<lparr>botlist := (botlist c)(i := Some ci)\<rparr>) ci i))))"

definition Bots_Delete :: "bots_container \<Rightarrow> nat \<Rightarrow> (nat option \<times> bots_container) result" where
  "Bots_Delete c i =
     (case botlist c i of
        Some lastCindex \<Rightarrow>
          ebind (chunk_delete c lastCindex i)
            (\<lambda>c. Inr (Some i, c\<lparr>botlist := (botlist c)(i := None)\<rparr>))
      | None \<Rightarrow> Inr (None, c))"

section \<open>Invariant\<close>

definition filed :: "bots_container \<Rightarrow> int \<Rightarrow> nat \<Rightarrow> bool" where
  "filed c ci i \<longleftrightarrow> (\<exists>ids. bc_chunks c ci = Some ids \<and> i \<in> set ids)"

definition bc_ok :: "bots_container \<Rightarrow> bool" where
  "bc_ok c \<longleftrightarrow> (\<forall>ci i. filed c ci i \<longleftrightarrow> botlist c i = Some ci)
     \<and> (\<forall>ci ids. bc_chunks c ci = Some ids \<longrightarrow> distinct ids)
     \<and> bc_chunk_width c = ceil_div32 (bc_width c) \<and> bc_chunk_height c = ceil_div32 (bc_height c)"

definition in_sync :: "bots_container \<Rightarrow> (nat \<Rightarrow> int \<times> int) \<Rightarrow> bool" where
  "in_sync c pos \<longleftrightarrow> (\<forall>i ci. botlist c i = Some ci \<longrightarrow> ci = ChunkIndex c (pos i))"

lemma ChunkIndex_frame [simp]:
  "ChunkIndex (chunk_add c ci i) p = ChunkIndex c p"
  "ChunkIndex (c\<lparr>botlist := bl\<rparr>) p = ChunkIndex c p"
  "ChunkIndex (c\<lparr>bc_chunks := ch\<rparr>) p = ChunkIndex c p"
  by (simp_all add: ChunkIndex_def chunk_add_def)

lemma filed_chunk_add: "filed (chunk_add c ci i) cj j \<longleftrightarrow> (cj = ci \<and> j = i) \<or> filed c cj j"
  by (auto simp: filed_def chunk_add_def split: option.splits)

lemma filed_botlist [simp]: "filed (c\<lparr>botlist := bl\<rparr>) ci i = filed c ci i"
  by (simp add: filed_def)

lemma chunk_delete_filed:
  assumes "filed c ci i"
  obtains c' where "chunk_delete c ci i = Inr c'" "botlist c' = botlist c"
    "\<And>cj j. filed c' cj j \<longleftrightarrow> filed c cj j \<and> \<not> (cj = ci \<and> j = i)"
    "bc_width c' = bc_width c" "bc_height c' = bc_height c"
    "bc_chunk_width c' = bc_chunk_width c" "bc_chunk_height c' = bc_chunk_height c"
    "\<And>cj ids. bc_chunks c' cj = Some ids \<Longrightarrow> (\<And>ck ids. bc_chunks c ck = Some ids \<Longrightarrow> distinct ids) \<Longrightarrow> distinct ids"
proof -
  from assms obtain ids where ids: "bc_chunks c ci = Some ids" by (auto simp: filed_def)
  let ?c = "c\<lparr>bc_chunks := (bc_chunks c)(ci := Some (removeAll i ids))\<rparr>"
  show thesis
  proof (rule that [of ?c])
    fix cj ids'
    assume "bc_chunks ?c cj = Some ids'" "\<And>ck ids. bc_chunks c ck = Some ids \<Longrightarrow> distinct ids"
    then show "distinct ids'" using ids by (cases "cj = ci") (auto intro: distinct_removeAll)
  qed (auto simp: chunk_delete_def ids filed_def)
qed

lemma distinct_chunk_add:
  "(\<And>ck ids. bc_chunks c ck = Some ids \<Longrightarrow> distinct ids) \<Longrightarrow>
    bc_chunks (chunk_add c ci i) cj = Some ids \<Longrightarrow> distinct ids"
  by (auto simp: chunk_add_def split: if_splits option.splits)

lemma chunk_add_dims [simp]:
  "bc_width (chunk_add c ci i) = bc_width c" "bc_height (chunk_add c ci i) = bc_height c"
  "bc_chunk_width (chunk_add c ci i) = bc_chunk_width c"
  "bc_chunk_height (chunk_add c ci i) = bc_chunk_height c"
  "botlist (chunk_add c ci i) = botlist c"
  by (simp_all add: chunk_add_def)

lemma bc_ok_new [wf_intros]: "bc_ok (BotsContainer w h)"
  by (simp add: bc_ok_def BotsContainer_def filed_def)

lemma bc_ok_Set1 [wf_intros]:
  assumes "bc_ok c"
  shows "bc_ok (snd (Bots_Set1 c i p))"
proof (cases "botlist c i = None")
  case True
  then show ?thesis
    using assms distinct_chunk_add [of "c\<lparr>botlist := (botlist c)(i := Some (ChunkIndex c p))\<rparr>"]
    by (auto simp: Bots_Set1_def Let_def bc_ok_def filed_chunk_add)
next
  case False
  then show ?thesis using assms by (simp add: Bots_Set1_def)
qed

lemma Bots_Set1_files:
  "botlist c i = None \<Longrightarrow> botlist (snd (Bots_Set1 c i p)) i = Some (ChunkIndex (snd (Bots_Set1 c i p)) p)"
  by (simp add: Bots_Set1_def Let_def)

lemma BotMoved_registered:
  assumes "bc_ok c" "botlist c i = Some ci0"
  obtains c' where "BotMoved c i p = Inr c'" "bc_ok c'"
    "botlist c' = (botlist c)(i := Some (ChunkIndex c p))" "\<And>q. ChunkIndex c' q = ChunkIndex c q"
    "bc_width c' = bc_width c" "bc_height c' = bc_height c"
proof -
  let ?ci = "ChunkIndex c p"
  have f: "filed c cj j \<longleftrightarrow> botlist c j = Some cj" for cj j using assms(1) by (simp add: bc_ok_def)
  show thesis
  proof (cases "filed c ?ci i")
    case True
    then have "botlist c = (botlist c)(i := Some ?ci)" using f by (auto simp: fun_upd_idem)
    moreover have "BotMoved c i p = Inr c" using True by (auto simp: BotMoved_def Let_def filed_def)
    ultimately show thesis using that [of c] assms(1) by simp
  next
    case False
    from assms(2) f have "filed c ci0 i" by simp
    then obtain c1 where c1: "chunk_delete c ci0 i = Inr c1" "botlist c1 = botlist c"
        "\<And>cj j. filed c1 cj j \<longleftrightarrow> filed c cj j \<and> \<not> (cj = ci0 \<and> j = i)"
        "bc_width c1 = bc_width c" "bc_height c1 = bc_height c"
        "bc_chunk_width c1 = bc_chunk_width c" "bc_chunk_height c1 = bc_chunk_height c"
        "\<And>cj ids. bc_chunks c1 cj = Some ids \<Longrightarrow>
          (\<And>ck ids. bc_chunks c ck = Some ids \<Longrightarrow> distinct ids) \<Longrightarrow> distinct ids"
      by (rule chunk_delete_filed) blast
    let ?c = "chunk_add (c1\<lparr>botlist := (botlist c1)(i := Some ?ci)\<rparr>) ?ci i"
    have "BotMoved c i p = Inr ?c"
      using False assms(2) c1(1) by (auto simp: BotMoved_def Let_def filed_def split: option.splits)
    moreover have "distinct ids" if "bc_chunks ?c cj = Some ids" for cj ids
      using distinct_chunk_add [of "c1\<lparr>botlist := (botlist c1)(i := Some ?ci)\<rparr>", OF _ that] c1(8)
        assms(1) by (auto simp: bc_ok_def)
    then have "bc_ok ?c"
      using assms c1(2-7) f by (auto simp: bc_ok_def filed_chunk_add)
    moreover have "ChunkIndex ?c q = ChunkIndex c q" for q using c1(6) by (simp add: ChunkIndex_def)
    ultimately show thesis using c1 by (intro that [of ?c]) auto
  qed
qed

lemma Bots_Delete_registered:
  assumes "bc_ok c" "botlist c i = Some ci"
  obtains c' where "Bots_Delete c i = Inr (Some i, c')" "bc_ok c'" "botlist c' = (botlist c)(i := None)"
proof -
  have f: "filed c cj j \<longleftrightarrow> botlist c j = Some cj" for cj j using assms(1) by (simp add: bc_ok_def)
  from assms(2) f have "filed c ci i" by simp
  then obtain c1 where c1: "chunk_delete c ci i = Inr c1" "botlist c1 = botlist c"
      "\<And>cj j. filed c1 cj j \<longleftrightarrow> filed c cj j \<and> \<not> (cj = ci \<and> j = i)"
      "bc_width c1 = bc_width c" "bc_height c1 = bc_height c"
      "bc_chunk_width c1 = bc_chunk_width c" "bc_chunk_height c1 = bc_chunk_height c"
      "\<And>cj ids. bc_chunks c1 cj = Some ids \<Longrightarrow>
        (\<And>ck ids. bc_chunks c ck = Some ids \<Longrightarrow> distinct ids) \<Longrightarrow> distinct ids"
    by (rule chunk_delete_filed) blast
  let ?c = "c1\<lparr>botlist := (botlist c1)(i := None)\<rparr>"
  have "distinct ids" if "bc_chunks c1 cj = Some ids" for cj ids
    using c1(8) [OF that] assms(1) by (auto simp: bc_ok_def)
  then have "bc_ok ?c" using assms c1(2-7) f by (auto simp: bc_ok_def)
  then show thesis using that [of ?c] c1(1,2) assms(2) by (simp add: Bots_Delete_def)
qed

lemma bc_ok_Set [wf_intros]: "bc_ok c \<Longrightarrow> bc_ok (Bots_Set c bs)"
  by (induction c bs rule: Bots_Set.induct) (simp_all add: bc_ok_Set1)

section \<open>Queries\<close>

definition on_map :: "bots_container \<Rightarrow> int \<times> int \<Rightarrow> bool" where
  "on_map c p \<longleftrightarrow> 0 \<le> fst p \<and> fst p < bc_width c \<and> 0 \<le> snd p \<and> snd p < bc_height c
     \<and> bc_width c \<le> 2 ^ 31 \<and> bc_height c \<le> 2 ^ 31"

lemma within_radius_box:
  assumes "within_radius p x y r"
  shows "\<bar>x - fst p\<bar> \<le> r \<and> \<bar>y - snd p\<bar> \<le> r"
proof -
  have r: "0 \<le> r" and s: "(x - fst p)\<^sup>2 + (y - snd p)\<^sup>2 \<le> r\<^sup>2"
    using assms by (simp_all add: within_radius_def)
  have "(x - fst p)\<^sup>2 \<le> r\<^sup>2" "(y - snd p)\<^sup>2 \<le> r\<^sup>2"
    using s zero_le_power2 [of "x - fst p"] zero_le_power2 [of "y - snd p"] by linarith+
  then show ?thesis using r by (simp_all add: abs_le_square_iff [symmetric])
qed

lemma GetChunk_of_registered:
  assumes "bc_ok c" "on_map c p" "botlist c i = Some (ChunkIndex c p)"
  obtains ids where "Bots_GetChunk c (js_shr (fst p) 5) (js_shr (snd p) 5) = Some ids" "i \<in> set ids"
proof -
  from assms(1,3) have "filed c (ChunkIndex c p) i" by (simp add: bc_ok_def)
  then obtain ids where ids: "bc_chunks c (ChunkIndex c p) = Some ids" "i \<in> set ids"
    by (auto simp: filed_def)
  have "js_shr (fst p) 5 = fst p div 32" "js_shr (snd p) 5 = snd p div 32"
    using assms(2) by (auto simp: on_map_def js_shr5)
  moreover have "fst p div 32 < bc_chunk_width c" "snd p div 32 < bc_chunk_height c"
    using assms(1,2) by (auto simp: bc_ok_def on_map_def intro: div32_lt_ceil)
  moreover have "0 \<le> fst p div 32" "0 \<le> snd p div 32"
    using assms(2) by (simp_all add: on_map_def pos_imp_zdiv_nonneg_iff)
  ultimately show thesis
    using that [OF _ ids(2)] ids(1) by (simp add: Bots_GetChunk_def ChunkIndex_def)
qed

lemma chunk_hits_sound:
  assumes "bc_ok c" "i \<in> set (chunk_hits c pos x y r cx cy)"
  shows "botlist c i \<noteq> None \<and> within_radius (pos i) x y r"
proof -
  from assms(2) obtain ids where
      "bc_chunks c (cx + cy * bc_chunk_width c) = Some ids" "i \<in> set ids" "within_radius (pos i) x y r"
    by (cases "bc_chunks c (cx + cy * bc_chunk_width c)")
      (auto simp: chunk_hits_def Bots_GetChunk_def split: if_splits)
  then have "filed c (cx + cy * bc_chunk_width c) i" by (auto simp: filed_def)
  then show ?thesis using assms(1) \<open>within_radius (pos i) x y r\<close> by (simp add: bc_ok_def)
qed

lemma chunk_hits_complete:
  assumes "bc_ok c" "on_map c (pos i)" "botlist c i = Some (ChunkIndex c (pos i))"
    and "within_radius (pos i) x y r"
  shows "i \<in> set (chunk_hits c pos x y r (js_shr (fst (pos i)) 5) (js_shr (snd (pos i)) 5))"
proof -
  obtain ids where "Bots_GetChunk c (js_shr (fst (pos i)) 5) (js_shr (snd (pos i)) 5) = Some ids"
      "i \<in> set ids"
    using GetChunk_of_registered [OF assms(1-3)] .
  then show ?thesis using assms(4) by (simp add: chunk_hits_def)
qed

section \<open>Properties\<close>

text \<open>
  The index never loses a bot: for a registered bot the move callback does not raise, leaves
  every other bot filed where it was, files the bot under the chunk of its new position and keeps
  the list of bots and the chunks consistent; registering and deleting keep them consistent too.
\<close>

theorem BotMoved_refiles:
  assumes "bc_ok c" "botlist c i = Some ci"
  shows "\<exists>c' c''. BotMoved c i p = Inr c' \<and> bc_ok c'
    \<and> botlist c' = (botlist c)(i := Some (ChunkIndex c p))
    \<and> (\<forall>cj j. filed c' cj j \<longleftrightarrow> (if j = i then cj = ChunkIndex c p else filed c cj j))
    \<and> bc_ok (Bots_Set c bs)
    \<and> Bots_Delete c i = Inr (Some i, c'') \<and> bc_ok c'' \<and> botlist c'' = (botlist c)(i := None)"
proof -
  obtain c' where c': "BotMoved c i p = Inr c'" "bc_ok c'"
      "botlist c' = (botlist c)(i := Some (ChunkIndex c p))"
    using BotMoved_registered [OF assms] by metis
  moreover have "filed c' cj j \<longleftrightarrow> (if j = i then cj = ChunkIndex c p else filed c cj j)" for cj j
    using c'(2,3) assms(1) by (auto simp: bc_ok_def)
  moreover obtain c'' where "Bots_Delete c i = Inr (Some i, c'')" "bc_ok c''"
      "botlist c'' = (botlist c)(i := None)"
    using Bots_Delete_registered [OF assms] by metis
  ultimately show ?thesis using bc_ok_Set [OF assms(1)] by blast
qed

theorem BotMoved_refiles_witness:
  "\<exists>c'. BotMoved (Bots_Set (BotsContainer 64 64) [(7, 3, 3)]) 7 (40, 3) = Inr c' \<and> filed c' 1 7"
proof -
  let ?c = "Bots_Set (BotsContainer 64 64) [(7, 3, 3)]"
  have ok: "bc_ok ?c" by (intro wf_intros)
  have reg: "botlist ?c 7 = Some 0"
    by (simp add: Bots_Set1_def BotsContainer_def ChunkIndex_def js_shr_def to_int32_def)
  have "ChunkIndex ?c (40, 3) = 1"
    by (simp add: Bots_Set1_def BotsContainer_def ChunkIndex_def js_shr_def to_int32_def)
  then show ?thesis using BotMoved_refiles [OF ok reg, of "(40, 3)" "[]"] by (metis (full_types))
qed

text \<open>
  (C11) \<open>GetFromRad\<close> is exact: while every registered bot stands on the map in the chunk it is
  filed under, the collection returned for a point and a radius holds exactly the registered bots
  at most that far away, each once.
\<close>

theorem GetFromRad_exact:
  assumes "bc_ok c" "in_sync c pos" "\<And>i. botlist c i \<noteq> None \<Longrightarrow> on_map c (pos i)"
    and "- (2 ^ 31) \<le> x - \<bar>r\<bar>" "x + \<bar>r\<bar> < 2 ^ 31" "- (2 ^ 31) \<le> y - \<bar>r\<bar>" "y + \<bar>r\<bar> < 2 ^ 31"
  shows "set (GetFromRad c pos x y r) = {i. botlist c i \<noteq> None \<and> within_radius (pos i) x y r}
    \<and> distinct (GetFromRad c pos x y r)"
proof -
  have sound: "botlist c i \<noteq> None \<and> within_radius (pos i) x y r"
    if "i \<in> set (GetFromRad c pos x y r)" for i
    using that chunk_hits_sound [OF assms(1)]
    by (auto simp: GetFromRad_def set_foldl_set_add Let_def split: if_splits)
  have complete: "i \<in> set (GetFromRad c pos x y r)"
    if reg: "botlist c i \<noteq> None" and near: "within_radius (pos i) x y r" for i
  proof -
    let ?px = "fst (pos i)" and ?py = "snd (pos i)"
    have on: "on_map c (pos i)" and at: "botlist c i = Some (ChunkIndex c (pos i))"
      using assms(2,3) reg by (auto simp: in_sync_def)
    have hit: "i \<in> set (chunk_hits c pos x y r (js_shr ?px 5) (js_shr ?py 5))"
      using chunk_hits_complete [of c pos i x y r] assms(1) on at near by blast
    have box: "x - r \<le> ?px" "?px \<le> x + r" "y - r \<le> ?py" "?py \<le> y + r"
      using within_radius_box [OF near] by auto
    have sh: "js_shr ?px 5 = ?px div 32" "js_shr ?py 5 = ?py div 32" "js_shr (x - r) 5 = (x - r) div 32"
        "js_shr (x + r) 5 = (x + r) div 32" "js_shr (y - r) 5 = (y - r) div 32"
        "js_shr (y + r) 5 = (y + r) div 32"
      using on assms(4-7) by (auto simp: on_map_def js_shr5)
    have "js_shr ?px 5 \<in> {js_shr (x - r) 5..js_shr (x + r) 5}"
        "js_shr ?py 5 \<in> {js_shr (y - r) 5..js_shr (y + r) 5}"
      unfolding sh using box by (auto intro: zdiv_mono1)
    moreover have "?px = x \<and> ?py = y" if "r = 0" using box that by simp
    ultimately show ?thesis
      using hit unfolding GetFromRad_def set_foldl_set_add Let_def
      by (cases "r = 0") (simp, fastforce)
  qed
  have "distinct (GetFromRad c pos x y r)"
    unfolding GetFromRad_def by (rule distinct_foldl_set_add) simp
  then show ?thesis using sound complete by blast
qed

theorem GetFromRad_exact_witness:
  "set (GetFromRad (Bots_Set (BotsContainer 64 64) [(7, 3, 3)]) (\<lambda>_. (3, 3)) 3 4 2) = {7}"
proof -
  let ?c = "Bots_Set (BotsContainer 64 64) [(7, 3, 3)]"
  have ok: "bc_ok ?c" by (intro wf_intros)
  have reg: "botlist ?c = (\<lambda>_. None)(7 \<mapsto> 0)"
    by (simp add: Bots_Set1_def BotsContainer_def ChunkIndex_def js_shr_def to_int32_def)
  have sync: "in_sync ?c (\<lambda>_. (3, 3))"
    by (simp add: in_sync_def Bots_Set1_def BotsContainer_def ChunkIndex_def js_shr_def to_int32_def)
  have dims: "bc_width ?c = 64" "bc_height ?c = 64" by (simp_all add: Bots_Set1_def BotsContainer_def Let_def)
  have "set (GetFromRad ?c (\<lambda>_. (3, 3)) 3 4 2)
      = {i. botlist ?c i \<noteq> None \<and> within_radius (3, 3) 3 4 2} \<and> distinct (GetFromRad ?c (\<lambda>_. (3, 3)) 3 4 2)"
    by (rule GetFromRad_exact [OF ok sync]) (simp_all only: on_map_def dims, simp_all)
  then show ?thesis unfolding reg by (auto simp: within_radius_def split: if_splits)
qed

end
