(* ===== verification/Program_State.thy ===== *)
theory Program_State
  imports JS_Prelude
begin

text \<open>
  The state of a bot's program, from \<^verbatim>\<open>scripts/programmator.js\<close>: program cells, stack frames
  (\<open>ProgramStack\<close>), the two last variables (\<open>VarCacher\<close>) and \<open>ProgramCondition\<close>, with the
  operations that need no bot. A cell of a compiled program carries an operand (a cell number of
  a jump, or the name of a variable) and a number that may be missing. The stack array with its
  depth counter is an instance of the locale \<open>frame_stack\<close>.
\<close>

section \<open>Values\<close>

text \<open>
  \<open>JObj\<close> stands for the objects and functions an inherited property name reads as; they compare
  as \<open>NaN\<close> with every number.
\<close>

datatype operand = ONum int | OStr string

datatype jsval = JUndef | JNaN | JNum rat | JObj

fun truthy :: "jsval \<Rightarrow> bool" where
  "truthy JUndef = False" | "truthy JNaN = False" | "truthy (JNum r) = (r \<noteq> 0)" | "truthy JObj = True"

fun is_nullish :: "jsval \<Rightarrow> bool" where
  "is_nullish JUndef = True" | "is_nullish _ = False"

definition js_arith :: "(rat \<Rightarrow> rat \<Rightarrow> rat) \<Rightarrow> jsval \<Rightarrow> jsval \<Rightarrow> jsval" where
  "js_arith f a b = (case (a, b) of (JNum x, JNum y) \<Rightarrow> JNum (f x y) | _ \<Rightarrow> JNaN)"

definition js_mod :: "jsval \<Rightarrow> jsval \<Rightarrow> jsval" where
  "js_mod a b =
     (case (a, b) of
        (JNum x, JNum y) \<Rightarrow> (if y = 0 then JNaN else JNum (x - y * of_int (js_trunc (x / y))))
      | _ \<Rightarrow> JNaN)"

fun js_tilde2 :: "jsval \<Rightarrow> jsval" where
  "js_tilde2 (JNum r) = JNum (of_int (tilde2 r))"
| "js_tilde2 _ = JNum 0"

text \<open>\<open>a == b\<close> (only \<open>undefined\<close> is loosely equal to \<open>undefined\<close>), \<open>a > b\<close>, \<open>a < b\<close>.\<close>

fun js_eq :: "jsval \<Rightarrow> jsval \<Rightarrow> bool" where
  "js_eq JUndef JUndef = True"
| "js_eq (JNum x) (JNum y) = (x = y)"
| "js_eq _ _ = False"

fun js_gt :: "jsval \<Rightarrow> jsval \<Rightarrow> bool" where
  "js_gt (JNum x) (JNum y) = (x > y)"
| "js_gt _ _ = False"

definition js_lt :: "jsval \<Rightarrow> jsval \<Rightarrow> bool" where
  "js_lt a b = js_gt b a"

section \<open>Cells and frames\<close>

record prog_cell =
  cell_id :: int
  cell_operand :: operand
  cell_number :: jsval

definition LineLength :: int where
  "LineLength = 16"

definition TESTPROGRAM :: "prog_cell list" where
  "TESTPROGRAM = [\<lparr>cell_id = 0, cell_operand = OStr '''', cell_number = JNum 0\<rparr>]"

datatype LogicMode = LM_off | LM_none | LM_and | LM_or

fun logic_code :: "LogicMode \<Rightarrow> int" where
  "logic_code LM_off = -1" | "logic_code LM_none = 0" | "logic_code LM_and = 1" | "logic_code LM_or = 2"

record ProgramStack =
  viewOffset :: "int \<times> int"
  logicalValue :: bool
  mode_logic :: LogicMode
  returnIndex :: int

definition fresh_frame :: ProgramStack where
  "fresh_frame = \<lparr>viewOffset = (0, 0), logicalValue = False, mode_logic = LM_off, returnIndex = -1\<rparr>"

section \<open>The two last variables\<close>

record VarCacher =
  vars0 :: "operand option"
  vars1 :: "operand option"
  YoungerIs :: nat

definition new_VarCacher :: VarCacher where
  "new_VarCacher = \<lparr>vars0 = None, vars1 = None, YoungerIs = 0\<rparr>"

definition Older :: "VarCacher \<Rightarrow> operand option" where
  "Older v = (if YoungerIs v \<noteq> 0 then vars1 v else vars0 v)"

definition Younger :: "VarCacher \<Rightarrow> operand option" where
  "Younger v = (if YoungerIs v \<noteq> 0 then vars0 v else vars1 v)"

definition VarCacher_Set :: "VarCacher \<Rightarrow> operand \<Rightarrow> VarCacher" where
  "VarCacher_Set v x =
     (let v1 = (if YoungerIs v \<noteq> 0 then v\<lparr>vars1 := Some x\<rparr> else v\<lparr>vars0 := Some x\<rparr>)
      in v1\<lparr>YoungerIs := (YoungerIs v + 1) mod 2\<rparr>)"

definition VarCacher_Reset :: "VarCacher \<Rightarrow> VarCacher" where
  "VarCacher_Reset v = v\<lparr>vars0 := None, vars1 := None\<rparr>"

section \<open>The program condition\<close>

record prog_condition =
  timeStart :: int
  "program" :: "prog_cell list"
  stackDepthMax :: nat
  startIndex :: int
  isExecute :: bool
  isHandModeActive :: bool
  currIndex :: int
  prevIndex :: int
  MACROS_rotate_cache :: "int option"
  stackDepth :: nat
  mode_flip :: bool
  uservariables :: "operand \<Rightarrow> jsval option"
  lastVariables :: VarCacher
  stack :: "ProgramStack list"

definition ProgramCondition :: "rat \<Rightarrow> prog_condition" where
  "ProgramCondition now =
     \<lparr>timeStart = tilde2 now, program = TESTPROGRAM, stackDepthMax = 500, startIndex = 0,
      isExecute = False, isHandModeActive = False, currIndex = 0, prevIndex = 0,
      MACROS_rotate_cache = None, stackDepth = 0, mode_flip = False, uservariables = (\<lambda>_. None),
      lastVariables = new_VarCacher, stack = [fresh_frame]\<rparr>"

definition isManualControlAlloved :: "prog_condition \<Rightarrow> bool" where
  "isManualControlAlloved p = (if isExecute p then isHandModeActive p else True)"

definition set_currIndex :: "int \<Rightarrow> prog_condition \<Rightarrow> prog_condition" where
  "set_currIndex v p = p\<lparr>prevIndex := currIndex p, currIndex := v\<rparr>"

definition currentStack :: "prog_condition \<Rightarrow> ProgramStack" where
  "currentStack p = stack p ! stackDepth p"

definition upd_frame :: "(ProgramStack \<Rightarrow> ProgramStack) \<Rightarrow> prog_condition \<Rightarrow> prog_condition" where
  "upd_frame f p = p\<lparr>stack := (stack p)[stackDepth p := f (currentStack p)]\<rparr>"

definition flipValue :: "prog_condition \<Rightarrow> int" where
  "flipValue p = (if mode_flip p then -1 else 1)"

definition cell_at :: "prog_condition \<Rightarrow> int \<Rightarrow> prog_cell result" where
  "cell_at p i =
     (if 0 \<le> i \<and> i < int (length (program p)) then Inr (program p ! nat i) else Inl TypeError)"

definition SetValueToVariable :: "prog_condition \<Rightarrow> operand \<Rightarrow> jsval \<Rightarrow> bool \<times> prog_condition" where
  "SetValueToVariable p x v =
     (if uservariables p x \<noteq> None then (True, p\<lparr>uservariables := (uservariables p)(x \<mapsto> v)\<rparr>)
      else (False, p))"

definition compare_frame :: "bool \<Rightarrow> ProgramStack \<Rightarrow> ProgramStack" where
  "compare_frame v f =
     (case mode_logic f of
        LM_or \<Rightarrow> f\<lparr>logicalValue := logicalValue f \<or> v\<rparr>
      | LM_and \<Rightarrow> f\<lparr>logicalValue := logicalValue f \<and> v\<rparr>
      | LM_none \<Rightarrow> f\<lparr>logicalValue := v\<rparr>
      | LM_off \<Rightarrow> f\<lparr>mode_logic := LM_none, logicalValue := v\<rparr>)"

definition compareWithLogicValue :: "bool \<Rightarrow> prog_condition \<Rightarrow> prog_condition" where
  "compareWithLogicValue v = upd_frame (compare_frame v)"

text \<open>
  \<open>Reset\<close> as far as the condition goes; the setter of \<open>isHandModeActive\<close> also switches the bot's
  \<open>mode.hand\<close>. The start index and the last variables are kept.
\<close>

definition Reset :: "rat \<Rightarrow> prog_condition \<Rightarrow> prog_condition" where
  "Reset now p =
     (let p1 = p\<lparr>stack := (stack p)[0 := fresh_frame], uservariables := (\<lambda>_. None), stackDepth := 0\<rparr>
      in (set_currIndex 0 p1)\<lparr>mode_flip := False, MACROS_rotate_cache := None,
            timeStart := tilde2 now, isHandModeActive := False\<rparr>)"

section \<open>The call stack\<close>

definition push_frame :: "prog_condition \<Rightarrow> prog_condition" where
  "push_frame p =
     (let p1 = p\<lparr>stackDepth := stackDepth p + 1\<rparr>
      in if length (stack p1) \<le> stackDepth p1 then p1\<lparr>stack := stack p1 @ [fresh_frame]\<rparr>
         else p1\<lparr>stack := (stack p1)[stackDepth p1 := fresh_frame]\<rparr>)"

definition frames_ok :: "prog_condition \<Rightarrow> bool" where
  "frames_ok p \<longleftrightarrow> stackDepth p < length (stack p)"

text \<open>The live frames, the running one first.\<close>

definition live_frames :: "prog_condition \<Rightarrow> ProgramStack list" where
  "live_frames p = rev (take (Suc (stackDepth p)) (stack p))"

definition leave_frame :: "prog_condition \<Rightarrow> prog_condition" where
  "leave_frame p = p\<lparr>stackDepth := stackDepth p - 1\<rparr>"

locale frame_stack =
  fixes invar :: "'s \<Rightarrow> bool"
    and frames :: "'s \<Rightarrow> 'f list"
    and fresh :: 'f
    and enter :: "'s \<Rightarrow> 's"
    and leave :: "'s \<Rightarrow> 's"
    and edit :: "('f \<Rightarrow> 'f) \<Rightarrow> 's \<Rightarrow> 's"
  assumes frames_nonempty: "invar s \<Longrightarrow> frames s \<noteq> []"
    and frames_enter: "invar s \<Longrightarrow> frames (enter s) = fresh # frames s"
    and frames_leave: "invar s \<Longrightarrow> 1 < length (frames s) \<Longrightarrow> frames (leave s) = tl (frames s)"
    and frames_edit: "invar s \<Longrightarrow> frames (edit f s) = f (hd (frames s)) # tl (frames s)"
    and invar_enter: "invar s \<Longrightarrow> invar (enter s)"
    and invar_leave: "invar s \<Longrightarrow> invar (leave s)"
    and invar_edit: "invar s \<Longrightarrow> invar (edit f s)"
begin

text \<open>Well nested use of the stack: every frame entered is left again.\<close>

inductive nested :: "'s \<Rightarrow> 's \<Rightarrow> bool" where
  nested_refl: "nested s s"
| nested_edit: "nested s t \<Longrightarrow> nested s (edit f t)"
| nested_call: "nested s t \<Longrightarrow> nested (enter t) u \<Longrightarrow> nested s (leave u)"

lemma nested_frames:
  "nested s t \<Longrightarrow> invar s \<Longrightarrow>
    invar t \<and> tl (frames t) = tl (frames s) \<and> length (frames t) = length (frames s)"
proof (induction rule: nested.induct)
  case (nested_edit s t f)
  moreover from this have "0 < length (frames s)" using frames_nonempty [of s] by simp
  ultimately show ?case by (auto simp: frames_edit invar_edit)
next
  case (nested_call s t u)
  then have t: "invar t" "tl (frames t) = tl (frames s)" "length (frames t) = length (frames s)" by auto
  have "invar (enter t)" using t by (simp add: invar_enter)
  then have u: "invar u" "tl (frames u) = frames t" "length (frames u) = Suc (length (frames t))"
    using nested_call.IH(2) t by (simp_all add: frames_enter)
  moreover have "0 < length (frames t)" using frames_nonempty [OF t(1)] by blast
  ultimately show ?case using t by (auto simp: frames_leave invar_leave)
qed simp

lemma call_returns_to_caller:
  assumes "invar s" "nested (edit f (enter s)) t"
  shows "frames (leave t) = frames s"
proof -
  have "invar (edit f (enter s))" using assms(1) by (simp add: invar_edit invar_enter)
  then have "invar t" "tl (frames t) = frames s" "length (frames t) = Suc (length (frames s))"
    using nested_frames [OF assms(2)] assms(1) by (auto simp: frames_edit invar_enter frames_enter)
  moreover have "0 < length (frames s)" using frames_nonempty [OF assms(1)] by simp
  ultimately show ?thesis by (simp add: frames_leave)
qed

end

lemma live_frames_depth: "frames_ok p \<Longrightarrow> length (live_frames p) = Suc (stackDepth p)"
  by (simp add: live_frames_def frames_ok_def)

lemma hd_live_frames: "frames_ok p \<Longrightarrow> hd (live_frames p) = currentStack p"
  by (simp add: live_frames_def frames_ok_def currentStack_def hd_rev take_Suc_conv_app_nth)

lemma live_frames_push:
  assumes "frames_ok p"
  shows "live_frames (push_frame p) = fresh_frame # live_frames p"
proof (cases "length (stack p) \<le> Suc (stackDepth p)")
  case True
  then have "length (stack p) = Suc (stackDepth p)" using assms by (simp add: frames_ok_def)
  then show ?thesis by (simp add: live_frames_def push_frame_def Let_def)
next
  case False
  then show ?thesis
    using assms by (simp add: live_frames_def push_frame_def Let_def take_Suc_conv_app_nth frames_ok_def)
qed

lemma live_frames_leave:
  "frames_ok p \<Longrightarrow> 0 < stackDepth p \<Longrightarrow> live_frames (leave_frame p) = tl (live_frames p)"
  by (cases "stackDepth p") (simp_all add: live_frames_def frames_ok_def leave_frame_def take_Suc_conv_app_nth)

lemma live_frames_upd:
  "frames_ok p \<Longrightarrow> live_frames (upd_frame f p) = f (currentStack p) # tl (live_frames p)"
  by (simp add: live_frames_def frames_ok_def upd_frame_def take_Suc_conv_app_nth)

lemma frames_ok_intros [wf_intros]:
  "frames_ok p \<Longrightarrow> frames_ok (push_frame p)"
  "frames_ok p \<Longrightarrow> frames_ok (leave_frame p)"
  "frames_ok p \<Longrightarrow> frames_ok (upd_frame f p)"
  by (auto simp: frames_ok_def push_frame_def leave_frame_def upd_frame_def Let_def)

interpretation prog_stack: frame_stack frames_ok live_frames fresh_frame push_frame leave_frame upd_frame
  by unfold_locales
    (auto simp: live_frames_push live_frames_leave live_frames_upd hd_live_frames live_frames_depth
      wf_intros, simp add: live_frames_def frames_ok_def)

section \<open>Properties\<close>

text \<open>A history of two entries: what was set last and what was set before that.\<close>

definition cache_view :: "VarCacher \<Rightarrow> operand option \<times> operand option" where
  "cache_view v = (Younger v, Older v)"

text \<open>
  \<open>VarCacher\<close> keeps exactly the two variables set last, in order, although it writes its two
  slots in turn: after any sequence of \<open>Set\<close> calls of length at least two, \<open>Younger\<close> is the last
  and \<open>Older\<close> the last but one.
\<close>

theorem VarCacher_history:
  "cache_view (foldl VarCacher_Set new_VarCacher (xs @ [x, y])) = (Some y, Some x)"
proof -
  have inv: "YoungerIs (foldl VarCacher_Set new_VarCacher zs) < 2" for zs
    by (rule foldl_invariant [where P = "\<lambda>v. YoungerIs v < 2"])
      (auto simp: new_VarCacher_def VarCacher_Set_def Let_def)
  have step: "cache_view (VarCacher_Set v z) = (Some z, Younger v)" if "YoungerIs v < 2" for v z
    using that by (cases "YoungerIs v = 0"; cases "YoungerIs v = 1")
      (auto simp: cache_view_def VarCacher_Set_def Let_def Younger_def Older_def)
  let ?v = "foldl VarCacher_Set new_VarCacher xs"
  have "YoungerIs (VarCacher_Set ?v x) < 2" using inv [of "xs @ [x]"] by simp
  from step [OF this, of y] have "cache_view (VarCacher_Set (VarCacher_Set ?v x) y)
      = (Some y, Younger (VarCacher_Set ?v x))" .
  moreover have "Younger (VarCacher_Set ?v x) = Some x"
    using step [OF inv, of xs x] by (simp add: cache_view_def)
  ultimately show ?thesis by simp
qed

text \<open>
  The logic register of a frame: in the modes \<open>or\<close> and \<open>and\<close> a test is combined with the
  register, otherwise it replaces it; after any test the register is in use. A chain of tests after
  \<open>or\<close> (\<open>and\<close>) therefore holds the disjunction (conjunction) of the register and all of them.
\<close>

theorem logic_register:
  "logicalValue (foldl (\<lambda>f v. compare_frame v f) (f\<lparr>mode_logic := LM_or\<rparr>) vs) = (logicalValue f \<or> True \<in> set vs)
   \<and> logicalValue (foldl (\<lambda>f v. compare_frame v f) (f\<lparr>mode_logic := LM_and\<rparr>) vs) = (logicalValue f \<and> False \<notin> set vs)
   \<and> compare_frame v (f\<lparr>mode_logic := LM_off\<rparr>) = f\<lparr>mode_logic := LM_none, logicalValue := v\<rparr>
   \<and> mode_logic (compare_frame v f) \<noteq> LM_off"
proof -
  have orm: "mode_logic g = LM_or \<Longrightarrow>
      logicalValue (foldl (\<lambda>f v. compare_frame v f) g vs) = (logicalValue g \<or> True \<in> set vs)" for g
    by (induction vs arbitrary: g) (auto simp: compare_frame_def)
  have andm: "mode_logic g = LM_and \<Longrightarrow>
      logicalValue (foldl (\<lambda>f v. compare_frame v f) g vs) = (logicalValue g \<and> False \<notin> set vs)" for g
    by (induction vs arbitrary: g) (auto simp: compare_frame_def)
  have "compare_frame v (f\<lparr>mode_logic := LM_off\<rparr>) = f\<lparr>mode_logic := LM_none, logicalValue := v\<rparr>"
    "mode_logic (compare_frame v f) \<noteq> LM_off"
    by (simp_all add: compare_frame_def split: LogicMode.splits)
  then show ?thesis by (simp add: orm andm)
qed

end
