(* ===== verification/Bot.thy ===== *)
theory Bot
  imports World_Map Cargo Bots_Container Program_State
begin

text \<open>
  The class \<open>Bot\<close> of \<^verbatim>\<open>scripts/bot.js\<close>: where a bot stands and looks, its cooldown, and every
  action it can perform on the world. An action works on a context: the world map, the index of
  the bots and the acting bot. \<open>env\<close> holds what an action reads from outside: the clock
  (\<open>performance.now()\<close>, one reading per action), the random draw (no action uses more than one
  that matters) and the option \<open>ignoreBorders\<close>. Animations are not modelled. \<open>onBotMoved\<close> is
  either the callback of the index or the empty function, so it is a flag.
\<close>

section \<open>State\<close>

definition cd_digging :: rat where "cd_digging = 333"
definition cd_rotate :: rat where "cd_rotate = 100"
definition cd_heal :: rat where "cd_heal = 200"
definition cd_setblock :: rat where "cd_setblock = 200"
definition cd_geo :: rat where "cd_geo = 200"
definition cd_macrosCD :: rat where "cd_macrosCD = 50"

record BotMode =
  autodigg :: bool
  roadignore :: bool
  agr :: bool
  debug :: bool
  hand :: bool
  accuaccelerate :: int
  overweight :: bool

definition new_BotMode :: BotMode where
  "new_BotMode = \<lparr>autodigg = True, roadignore = False, agr = False, debug = False, hand = False,
     accuaccelerate = 0, overweight = False\<rparr>"

record bot =
  bot_id :: nat
  position :: "int \<times> int"
  cachedPosition :: "int \<times> int"
  rotation :: int
  cooldown :: rat
  cdTime :: rat
  cachedBlockUnder :: byte
  stats :: bot_stats
  cargo :: bot_cargo
  inventory :: inventory
  bot_mode :: BotMode
  programCondition :: prog_condition
  tracked :: bool

text \<open>
  The constructor; \<open>i\<close> is the next value of \<open>BotIDCounter\<close>, \<open>u\<close> the draw for the speed, \<open>us\<close> the
  draws for the items of the inventory.
\<close>

definition new_Bot :: "nat \<Rightarrow> rat \<Rightarrow> rat \<Rightarrow> (nat \<Rightarrow> rat) \<Rightarrow> int \<times> int \<Rightarrow> bot" where
  "new_Bot i now u us pos =
     \<lparr>bot_id = i, position = pos, cachedPosition = pos, rotation = 0, cooldown = 0, cdTime = 0,
      cachedBlockUnder = 0, stats = BotSkillEffects u, cargo = BotCargo (BotSkillEffects u),
      inventory = GenerateRandomItems [] 20 500000 us, bot_mode = new_BotMode,
      programCondition = ProgramCondition now, tracked = False\<rparr>"

record env =
  now :: rat
  draw :: rat
  ignoreBorders :: bool

record ctx =
  cmap :: world_map
  cidx :: bots_container
  cbot :: bot

definition upd_bot :: "(bot \<Rightarrow> bot) \<Rightarrow> ctx \<Rightarrow> ctx" where
  "upd_bot f c = c\<lparr>cbot := f (cbot c)\<rparr>"

definition upd_map :: "(world_map \<Rightarrow> world_map) \<Rightarrow> ctx \<Rightarrow> ctx" where
  "upd_map f c = c\<lparr>cmap := f (cmap c)\<rparr>"

section \<open>Reading the state\<close>

definition rotationIndex :: "bot \<Rightarrow> int" where
  "rotationIndex b = js_rem \<lfloor>of_int (rotation b) / (90 :: rat)\<rfloor> 4"

definition set_rotationIndex :: "int \<Rightarrow> bot \<Rightarrow> bot" where
  "set_rotationIndex v b = b\<lparr>rotation := js_rem v 4 * 90\<rparr>"

definition set_cooldown :: "env \<Rightarrow> rat \<Rightarrow> bot \<Rightarrow> bot" where
  "set_cooldown e v b = b\<lparr>cooldown := v, cdTime := now e\<rparr>"

definition inCooldown :: "env \<Rightarrow> bot \<Rightarrow> bool" where
  "inCooldown e b \<longleftrightarrow> cdTime b + cooldown b > now e"

definition bFrontX :: "bot \<Rightarrow> int" where
  "bFrontX b = fst (position b) + (if rotation b = 90 then 1 else if rotation b = 270 then -1 else 0)"

definition bFrontY :: "bot \<Rightarrow> int" where
  "bFrontY b = snd (position b) + (if rotation b = 0 then -1 else if rotation b = 180 then 1 else 0)"

definition BlockAhead :: "ctx \<Rightarrow> byte" where
  "BlockAhead c = GetIDByCoord (cmap c) (bFrontX (cbot c)) (bFrontY (cbot c))"

text \<open>The \<open>switch\<close> of the side getters falls through to \<open>undefined\<close>.\<close>

definition BlockLeft :: "ctx \<Rightarrow> byte option" where
  "BlockLeft c =
     (let (x, y) = position (cbot c); r = rotationIndex (cbot c); get = GetIDByCoord (cmap c)
      in if r = 0 then Some (get (x - 1) y) else if r = 1 then Some (get x (y - 1))
         else if r = 2 then Some (get (x + 1) y) else if r = 3 then Some (get x (y + 1))
         else None)"

definition BlockRight :: "ctx \<Rightarrow> byte option" where
  "BlockRight c =
     (let (x, y) = position (cbot c); r = rotationIndex (cbot c); get = GetIDByCoord (cmap c)
      in if r = 0 then Some (get (x + 1) y) else if r = 1 then Some (get x (y + 1))
         else if r = 2 then Some (get (x - 1) y) else if r = 3 then Some (get x (y - 1))
         else None)"

definition may_act :: "bool \<Rightarrow> ctx \<Rightarrow> bool" where
  "may_act fromUser c \<longleftrightarrow> \<not> fromUser \<or> isManualControlAlloved (programCondition (cbot c))"

section \<open>Standing and moving\<close>

definition CheckBlockUnder :: "ctx \<Rightarrow> ctx" where
  "CheckBlockUnder c =
     (let (x, y) = position (cbot c); b = GetIDByCoord (cmap c) x y
      in if b \<noteq> cachedBlockUnder (cbot c) then
           (if solid (BlockStats b) then upd_map (\<lambda>w. ClearTile w x y False) c else c)
         else c)"

definition HasMoved :: "ctx \<Rightarrow> ctx result" where
  "HasMoved c =
     (let b = cbot c in
      if cachedPosition b \<noteq> position b then
        (let c1 = upd_bot (\<lambda>b. b\<lparr>cachedPosition := position b\<rparr>) c in
         if tracked b then ebind (BotMoved (cidx c1) (bot_id b) (position b)) (\<lambda>i. Inr (c1\<lparr>cidx := i\<rparr>))
         else Inr c1)
      else Inr c)"

definition Teleport :: "int \<Rightarrow> int \<Rightarrow> ctx \<Rightarrow> ctx result" where
  "Teleport x y c = HasMoved (upd_bot (\<lambda>b. b\<lparr>position := (x, y)\<rparr>) c)"

definition Trails :: "env \<Rightarrow> ctx \<Rightarrow> ctx" where
  "Trails e c =
     (let (x, y) = position (cbot c); underBot = GetIDByCoord (cmap c) x y
      in if underBot = Block_ground0 then
           (if RandInt (draw e) 0 9 = 0 then upd_map (\<lambda>w. SetTileWithCoords w x y Block_ground1 0) c else c)
         else if underBot = Block_ground1 then
           (if RandInt (draw e) 0 14 = 0 then upd_map (\<lambda>w. SetTileWithCoords w x y Block_ground2 0) c else c)
         else c)"

text \<open>\<open>Digg\<close> needs the cooldown to be strictly over.\<close>

definition Digg :: "env \<Rightarrow> bool \<Rightarrow> ctx \<Rightarrow> bool \<times> ctx" where
  "Digg e fromUser c =
     (if may_act fromUser c \<and> now e - (cdTime (cbot c) + cooldown (cbot c)) > 0 then
        (let dx = bFrontX (cbot c); dy = bFrontY (cbot c);
             block = GetIDByCoord (cmap c) dx dy;
             c1 = (if hardness (BlockStats block) \<ge> 0 then upd_map (\<lambda>w. DiggTile w dx dy) c else c)
         in (True, upd_bot (set_cooldown e cd_digging) c1))
      else (False, c))"

datatype side = Su | Sr | Sd | Sl | Sf

fun side_of_index :: "int \<Rightarrow> side option" where
  "side_of_index n = (if n = 0 then Some Su else if n = 1 then Some Sr else if n = 2 then Some Sd
     else if n = 3 then Some Sl else if n = 4 then Some Sf else None)"

fun side_rotation :: "side \<Rightarrow> int \<Rightarrow> int" where
  "side_rotation Su r = 0" | "side_rotation Sr r = 90" | "side_rotation Sd r = 180"
| "side_rotation Sl r = 270" | "side_rotation Sf r = r"

definition turned :: "side \<Rightarrow> bot \<Rightarrow> bot" where
  "turned s b = b\<lparr>rotation := side_rotation s (rotation b)\<rparr>"

text \<open>After turning to the side the cell entered is the cell ahead, for every side.\<close>

definition step_or_digg :: "env \<Rightarrow> ctx \<Rightarrow> bool \<times> ctx" where
  "step_or_digg e c =
     (let tx = bFrontX (cbot c); ty = bFrontY (cbot c) in
      if \<not> solid (BlockStats (GetIDByCoord (cmap c) tx ty)) \<or> ignoreBorders e
      then (True, upd_bot (\<lambda>b. b\<lparr>position := (tx, ty)\<rparr>) (Trails e c))
      else if autodigg (bot_mode (cbot c)) then (False, snd (Digg e False c))
      else (False, c))"

definition move_cd :: "ctx \<Rightarrow> rat" where
  "move_cd c =
     (let b = cbot c; underBot = GetIDByCoord (cmap c) (fst (position b)) (snd (position b))
      in if (\<not> roadignore (bot_mode b) \<or> \<not> isManualControlAlloved (programCondition b))
             \<and> (underBot = Block_road \<or> underBot = Block_g_road)
         then 1000 / (moveSpeed (stats b) * moveRoadSpeedMul (stats b))
         else 1000 / moveSpeed (stats b))"

definition Move :: "env \<Rightarrow> side \<Rightarrow> bool \<Rightarrow> ctx \<Rightarrow> (rat option \<times> ctx) result" where
  "Move e s fromUser c =
     (if may_act fromUser c then
        (if \<not> inCooldown e (cbot c) then
           (let underBot = GetIDByCoord (cmap c) (fst (position (cbot c))) (snd (position (cbot c)));
                cd = move_cd c;
                c1 = upd_bot (turned s) c;
                (moved, c2) = step_or_digg e c1;
                c3 = upd_bot (\<lambda>b. b\<lparr>cachedBlockUnder := underBot\<rparr>) c2
            in if moved
               then ebind (HasMoved (upd_bot (set_cooldown e cd) c3))
                      (\<lambda>c4. Inr (Some (cooldown (cbot c4)), c4))
               else Inr (Some (cooldown (cbot c3)), c3))
         else Inr (Some (cooldown (cbot c)), c))
      else Inr (None, c))"

definition Rotate :: "env \<Rightarrow> side \<Rightarrow> bool \<Rightarrow> bool \<Rightarrow> ctx \<Rightarrow> ctx" where
  "Rotate e s fromUser withCD c =
     (if may_act fromUser c \<and> (\<not> inCooldown e (cbot c) \<or> \<not> withCD) \<and> s \<noteq> Sf then
        upd_bot (\<lambda>b. let b1 = turned s b
                     in if withCD then set_cooldown e cd_rotate b1 else b1) c
      else c)"

section \<open>Working on the cell ahead\<close>

definition put_ahead :: "byte \<Rightarrow> ctx \<Rightarrow> ctx" where
  "put_ahead t c = upd_map (\<lambda>w. SetTileWithCoords w (bFrontX (cbot c)) (bFrontY (cbot c)) t 0) c"

definition SetBlock :: "env \<Rightarrow> bool \<Rightarrow> ctx \<Rightarrow> ctx" where
  "SetBlock e fromUser c =
     (if may_act fromUser c \<and> \<not> inCooldown e (cbot c) then
        (let block = BlockAhead c;
             c1 = (if block = 101 then put_ahead 102 c
                   else if block = 102 then put_ahead 105 c
                   else if replesable (BlockStats block) then put_ahead 101 c else c)
         in upd_bot (set_cooldown e cd_setblock) c1)
      else c)"

definition SetRoad :: "env \<Rightarrow> bool \<Rightarrow> ctx \<Rightarrow> ctx" where
  "SetRoad e fromUser c =
     (if may_act fromUser c \<and> \<not> inCooldown e (cbot c)
         \<and> BlockAhead c \<ge> Block_ground0 \<and> BlockAhead c \<le> Block_ground2
      then upd_bot (set_cooldown e cd_setblock) (put_ahead Block_road c) else c)"

definition SetWB :: "env \<Rightarrow> bool \<Rightarrow> ctx \<Rightarrow> ctx" where
  "SetWB e fromUser c =
     (if may_act fromUser c \<and> \<not> inCooldown e (cbot c) \<and> \<not> solid (BlockStats (BlockAhead c))
      then upd_bot (set_cooldown e cd_setblock) (put_ahead Block_block_war c) else c)"

definition SetQuadro :: "env \<Rightarrow> bool \<Rightarrow> ctx \<Rightarrow> ctx" where
  "SetQuadro e fromUser c =
     (if may_act fromUser c \<and> \<not> inCooldown e (cbot c) then
        (if BlockAhead c = 49 then upd_bot (set_cooldown e cd_setblock) (put_ahead 48 c)
         else if replesable (BlockStats (BlockAhead c))
         then upd_bot (set_cooldown e cd_setblock) (put_ahead 49 c)
         else c)
      else c)"

definition UseGeo :: "env \<Rightarrow> bool \<Rightarrow> ctx \<Rightarrow> ctx" where
  "UseGeo e fromUser c =
     (if may_act fromUser c \<and> \<not> inCooldown e (cbot c) then
        (let dx = bFrontX (cbot c); dy = bFrontY (cbot c); block = BlockAhead c in
         if cantake (BlockStats block) then
           (if geoIsNoFull (cargo (cbot c)) then
              upd_bot (set_cooldown e cd_geo)
                (upd_map (\<lambda>w. ClearTile w dx dy False)
                  (upd_bot (\<lambda>b. b\<lparr>cargo := snd (PushGeo (cargo b) block)\<rparr>) c))
            else c)
         else if \<not> solid (BlockStats block) then
           (let (gblock, cg) = PopGeo (cargo (cbot c));
                c1 = upd_bot (\<lambda>b. b\<lparr>cargo := cg\<rparr>) c;
                c2 = (case gblock of
                        Some t \<Rightarrow> (if t \<noteq> 0 then put_ahead t c1 else c1)
                      | None \<Rightarrow> c1)
            in upd_bot (set_cooldown e cd_geo) c2)
         else c)
      else c)"

definition Heal :: "env \<Rightarrow> bool \<Rightarrow> ctx \<Rightarrow> ctx" where
  "Heal e fromUser c =
     (if may_act fromUser c \<and> \<not> inCooldown e (cbot c)
      then upd_bot (set_cooldown e cd_heal) c else c)"

section \<open>Invariant\<close>

definition rotation_ok :: "bot \<Rightarrow> bool" where
  "rotation_ok b \<longleftrightarrow> rotation b \<in> {0, 90, 180, 270}"

definition filed_at :: "ctx \<Rightarrow> int \<times> int \<Rightarrow> bool" where
  "filed_at c p \<longleftrightarrow> (tracked (cbot c) \<longrightarrow> botlist (cidx c) (bot_id (cbot c)) = Some (ChunkIndex (cidx c) p))"

text \<open>\<open>ctx_pre\<close> is what holds when the position has been written and the callback not yet called.\<close>

definition ctx_pre :: "ctx \<Rightarrow> bool" where
  "ctx_pre c \<longleftrightarrow> map_ok (cmap c) \<and> bc_ok (cidx c) \<and> geo_ok (cargo (cbot c)) \<and> rotation_ok (cbot c)
     \<and> filed_at c (cachedPosition (cbot c))"

definition ctx_ok :: "ctx \<Rightarrow> bool" where
  "ctx_ok c \<longleftrightarrow> ctx_pre c \<and> cachedPosition (cbot c) = position (cbot c)"

text \<open>What an action leaves alone: the size of the map and, in the index, the entries of the other bots.\<close>

definition idx_frame :: "ctx \<Rightarrow> ctx \<Rightarrow> bool" where
  "idx_frame c c' \<longleftrightarrow> bot_id (cbot c') = bot_id (cbot c) \<and> tracked (cbot c') = tracked (cbot c)
     \<and> inventory (cbot c') = inventory (cbot c)
     \<and> (\<forall>j. j \<noteq> bot_id (cbot c) \<longrightarrow> botlist (cidx c') j = botlist (cidx c) j)
     \<and> (\<forall>q. ChunkIndex (cidx c') q = ChunkIndex (cidx c) q)
     \<and> width (cmap c') = width (cmap c) \<and> height (cmap c') = height (cmap c)"

lemma idx_frame_refl [simp]: "idx_frame c c"
  by (simp add: idx_frame_def)

lemma idx_frame_trans: "idx_frame c d \<Longrightarrow> idx_frame d e \<Longrightarrow> idx_frame c e"
  by (simp add: idx_frame_def)

lemma upd_simps [simp]:
  "cmap (upd_bot f c) = cmap c" "cidx (upd_bot f c) = cidx c" "cbot (upd_bot f c) = f (cbot c)"
  "cmap (upd_map g c) = g (cmap c)" "cidx (upd_map g c) = cidx c" "cbot (upd_map g c) = cbot c"
  by (simp_all add: upd_bot_def upd_map_def)

lemma set_cooldown_simps [simp]:
  "position (set_cooldown e v b) = position b" "cachedPosition (set_cooldown e v b) = cachedPosition b"
  "rotation (set_cooldown e v b) = rotation b" "cargo (set_cooldown e v b) = cargo b"
  "bot_id (set_cooldown e v b) = bot_id b" "tracked (set_cooldown e v b) = tracked b"
  "cooldown (set_cooldown e v b) = v" "cdTime (set_cooldown e v b) = now e"
  "programCondition (set_cooldown e v b) = programCondition b" "bot_mode (set_cooldown e v b) = bot_mode b"
  "stats (set_cooldown e v b) = stats b" "bFrontX (set_cooldown e v b) = bFrontX b"
  "bFrontY (set_cooldown e v b) = bFrontY b"
  by (simp_all add: set_cooldown_def bFrontX_def bFrontY_def)

lemma put_ahead_simps [simp]:
  "cidx (put_ahead t c) = cidx c" "cbot (put_ahead t c) = cbot c"
  "width (cmap (put_ahead t c)) = width (cmap c)" "height (cmap (put_ahead t c)) = height (cmap c)"
  by (simp_all add: put_ahead_def)

lemma ctx_pre_upd_map: "ctx_pre c \<Longrightarrow> map_ok (g (cmap c)) \<Longrightarrow> ctx_pre (upd_map g c)"
  by (simp add: ctx_pre_def filed_at_def)

lemma ctx_ok_upd_map: "ctx_ok c \<Longrightarrow> map_ok (g (cmap c)) \<Longrightarrow> ctx_ok (upd_map g c)"
  by (simp add: ctx_ok_def ctx_pre_upd_map)

lemma ctx_ok_map [wf_intros]: "ctx_ok c \<Longrightarrow> map_ok (cmap c)"
  by (simp add: ctx_ok_def ctx_pre_def)

lemma ctx_ok_put_ahead [wf_intros]: "ctx_ok c \<Longrightarrow> ctx_ok (put_ahead t c)"
  by (simp add: put_ahead_def ctx_ok_upd_map wf_intros)

text \<open>Changing anything of the bot but its place, its direction and its hold.\<close>

lemma ctx_ok_upd_bot:
  assumes "ctx_ok c" "position (f (cbot c)) = position (cbot c)"
    and "cachedPosition (f (cbot c)) = cachedPosition (cbot c)" "rotation_ok (f (cbot c))"
    and "geo_ok (cargo (f (cbot c)))" "bot_id (f (cbot c)) = bot_id (cbot c)" "tracked (f (cbot c)) = tracked (cbot c)"
  shows "ctx_ok (upd_bot f c)"
  using assms by (simp add: ctx_ok_def ctx_pre_def filed_at_def)

lemma ctx_okD: "ctx_ok c \<Longrightarrow> rotation_ok (cbot c) \<and> geo_ok (cargo (cbot c)) \<and> map_ok (cmap c)"
  by (simp add: ctx_ok_def ctx_pre_def)

lemma ctx_ok_cooldown [wf_intros]: "ctx_ok c \<Longrightarrow> ctx_ok (upd_bot (set_cooldown e v) c)"
  by (rule ctx_ok_upd_bot) (auto simp: rotation_ok_def dest: ctx_okD)

lemma ctx_ok_under: "ctx_ok c \<Longrightarrow> ctx_ok (upd_bot (\<lambda>b. b\<lparr>cachedBlockUnder := t\<rparr>) c)"
  by (rule ctx_ok_upd_bot) (auto simp: rotation_ok_def dest: ctx_okD)

lemma HasMoved_ok:
  assumes "ctx_pre c"
  obtains c' where "HasMoved c = Inr c'" "ctx_ok c'" "cmap c' = cmap c"
    "cbot c' = (cbot c)\<lparr>cachedPosition := position (cbot c)\<rparr>" "idx_frame c c'"
proof (cases "cachedPosition (cbot c) = position (cbot c)")
  case True
  then have "HasMoved c = Inr c" "(cbot c)\<lparr>cachedPosition := position (cbot c)\<rparr> = cbot c"
    by (simp_all add: HasMoved_def flip: True)
  then show thesis using that [of c] assms True by (simp add: ctx_ok_def)
next
  case False
  let ?c = "upd_bot (\<lambda>b. b\<lparr>cachedPosition := position b\<rparr>) c"
  show thesis
  proof (cases "tracked (cbot c)")
    case True
    then have reg: "botlist (cidx c) (bot_id (cbot c)) = Some (ChunkIndex (cidx c) (cachedPosition (cbot c)))"
      and ok: "bc_ok (cidx c)" using assms by (simp_all add: ctx_pre_def filed_at_def)
    obtain i where i: "BotMoved (cidx c) (bot_id (cbot c)) (position (cbot c)) = Inr i" "bc_ok i"
        "botlist i = (botlist (cidx c))(bot_id (cbot c) := Some (ChunkIndex (cidx c) (position (cbot c))))"
        "\<And>q. ChunkIndex i q = ChunkIndex (cidx c) q"
      using BotMoved_registered [OF ok reg] by metis
    show thesis
      by (rule that [of "?c\<lparr>cidx := i\<rparr>"])
        (use False True i assms in \<open>simp_all add: HasMoved_def Let_def ctx_ok_def ctx_pre_def filed_at_def rotation_ok_def idx_frame_def\<close>)
  next
    case False
    then show thesis
      using that [of ?c] assms \<open>cachedPosition (cbot c) \<noteq> position (cbot c)\<close>
      by (simp add: HasMoved_def Let_def ctx_ok_def ctx_pre_def filed_at_def rotation_ok_def idx_frame_def)
  qed
qed

section \<open>Every action keeps the invariant\<close>

lemma Trails_ok [wf_intros]: "ctx_ok c \<Longrightarrow> ctx_ok (Trails e c)"
  by (auto simp: Trails_def Let_def split: prod.splits intro!: ctx_ok_upd_map intro: wf_intros)

lemma Trails_bot [simp]: "cbot (Trails e c) = cbot c" "cidx (Trails e c) = cidx c"
  "width (cmap (Trails e c)) = width (cmap c)" "height (cmap (Trails e c)) = height (cmap c)"
  by (auto simp: Trails_def Let_def split: prod.splits)

lemma Digg_ok [wf_intros]: "ctx_ok c \<Longrightarrow> ctx_ok (snd (Digg e fu c))"
  by (auto simp: Digg_def Let_def intro!: ctx_ok_cooldown ctx_ok_upd_map intro: wf_intros)

lemma programCondition_frame [simp]:
  "programCondition (cbot (snd (Digg e fu c))) = programCondition (cbot c)"
  "programCondition (cbot (Rotate e s fu wcd c)) = programCondition (cbot c)"
  "programCondition (cbot (SetBlock e fu c)) = programCondition (cbot c)"
  "programCondition (cbot (SetRoad e fu c)) = programCondition (cbot c)"
  "programCondition (cbot (SetWB e fu c)) = programCondition (cbot c)"
  "programCondition (cbot (SetQuadro e fu c)) = programCondition (cbot c)"
  "programCondition (cbot (UseGeo e fu c)) = programCondition (cbot c)"
  "programCondition (cbot (Heal e fu c)) = programCondition (cbot c)"
  by (simp_all add: Digg_def Rotate_def SetBlock_def SetRoad_def SetWB_def SetQuadro_def UseGeo_def
      Heal_def Let_def turned_def split: prod.splits option.splits)

lemma inventory_set_cooldown [simp]: "inventory (set_cooldown e v b) = inventory b"
  by (simp add: set_cooldown_def)

lemma idx_frame_actions [simp]:
  "idx_frame c (upd_bot (set_cooldown e v) c)"
  "idx_frame c (snd (Digg e fu c))" "idx_frame c (Rotate e s fu wcd c)" "idx_frame c (SetBlock e fu c)"
  "idx_frame c (SetRoad e fu c)" "idx_frame c (SetWB e fu c)" "idx_frame c (SetQuadro e fu c)"
  "idx_frame c (UseGeo e fu c)" "idx_frame c (Heal e fu c)"
  by (simp_all add: idx_frame_def Digg_def Rotate_def SetBlock_def SetRoad_def SetWB_def SetQuadro_def
      UseGeo_def Heal_def Let_def turned_def split: prod.splits option.splits)

lemma Digg_bot_place [simp]:
  "position (cbot (snd (Digg e fu c))) = position (cbot c)"
  "rotation (cbot (snd (Digg e fu c))) = rotation (cbot c)"
  by (auto simp: Digg_def Let_def)

lemma Rotate_ok [wf_intros]: "ctx_ok c \<Longrightarrow> ctx_ok (Rotate e s fu wcd c)"
  by (cases s) (auto simp: Rotate_def Let_def turned_def rotation_ok_def split: if_splits dest: ctx_okD intro!: ctx_ok_upd_bot)

lemma SetBlock_ok [wf_intros]: "ctx_ok c \<Longrightarrow> ctx_ok (SetBlock e fu c)"
  by (auto simp: SetBlock_def Let_def intro: wf_intros)

lemma SetRoad_ok [wf_intros]: "ctx_ok c \<Longrightarrow> ctx_ok (SetRoad e fu c)"
  by (auto simp: SetRoad_def intro: wf_intros)

lemma SetWB_ok [wf_intros]: "ctx_ok c \<Longrightarrow> ctx_ok (SetWB e fu c)"
  by (auto simp: SetWB_def intro: wf_intros)

lemma SetQuadro_ok [wf_intros]: "ctx_ok c \<Longrightarrow> ctx_ok (SetQuadro e fu c)"
  by (auto simp: SetQuadro_def intro: wf_intros)

lemma Heal_ok [wf_intros]: "ctx_ok c \<Longrightarrow> ctx_ok (Heal e fu c)"
  by (auto simp: Heal_def intro: wf_intros)

lemma ctx_ok_cargo: "ctx_ok c \<Longrightarrow> geo_ok cg \<Longrightarrow> ctx_ok (upd_bot (\<lambda>b. b\<lparr>cargo := cg\<rparr>) c)"
  by (rule ctx_ok_upd_bot) (auto simp: rotation_ok_def dest: ctx_okD)

lemma UseGeo_ok [wf_intros]:
  assumes "ctx_ok c"
  shows "ctx_ok (UseGeo e fu c)"
proof -
  have g: "geo_ok (cargo (cbot c))" using ctx_okD [OF assms] by simp
  have push: "ctx_ok (upd_bot (\<lambda>b. b\<lparr>cargo := snd (PushGeo (cargo b) t)\<rparr>) c)" for t
    using ctx_ok_cargo [OF assms geo_ok_PushGeo [OF g]] by (simp add: upd_bot_def)
  have pop: "ctx_ok (upd_bot (\<lambda>b. b\<lparr>cargo := snd (PopGeo (cargo (cbot c)))\<rparr>) c)"
    by (rule ctx_ok_cargo [OF assms geo_ok_PopGeo [OF g]])
  show ?thesis
    using assms push pop
    by (auto simp: UseGeo_def Let_def split: prod.splits option.splits
        intro!: ctx_ok_cooldown ctx_ok_upd_map ctx_ok_put_ahead ok_ClearTile dest: ctx_ok_map)
qed

lemma CheckBlockUnder_ok [wf_intros]: "ctx_ok c \<Longrightarrow> ctx_ok (CheckBlockUnder c)"
  by (auto simp: CheckBlockUnder_def Let_def split: prod.splits intro!: ctx_ok_upd_map intro: wf_intros)

lemma Teleport_ok:
  assumes "ctx_ok c"
  obtains c' where "Teleport x y c = Inr c'" "ctx_ok c'" "position (cbot c') = (x, y)" "cmap c' = cmap c"
proof -
  let ?c = "upd_bot (\<lambda>b. b\<lparr>position := (x, y)\<rparr>) c"
  have "ctx_pre ?c" using assms by (simp add: ctx_ok_def ctx_pre_def filed_at_def rotation_ok_def)
  then obtain c' where "HasMoved ?c = Inr c'" "ctx_ok c'" "cmap c' = cmap ?c"
      "cbot c' = (cbot ?c)\<lparr>cachedPosition := position (cbot ?c)\<rparr>"
    by (rule HasMoved_ok)
  then show thesis by (intro that [of c']) (simp_all add: Teleport_def)
qed

definition side_target :: "side \<Rightarrow> bot \<Rightarrow> int \<times> int" where
  "side_target s b = (bFrontX (turned s b), bFrontY (turned s b))"

lemma turned_ok: "ctx_ok c \<Longrightarrow> ctx_ok (upd_bot (turned s) c)"
  by (cases s) (auto simp: turned_def rotation_ok_def dest: ctx_okD intro!: ctx_ok_upd_bot)

definition passable :: "env \<Rightarrow> world_map \<Rightarrow> int \<times> int \<Rightarrow> bool" where
  "passable e w p \<longleftrightarrow> \<not> solid (BlockStats (GetIDByCoord w (fst p) (snd p))) \<or> ignoreBorders e"

text \<open>The three outcomes of a move out of cooldown.\<close>

lemma Move_steps:
  assumes "ctx_ok c" "may_act fu c" "\<not> inCooldown e (cbot c)" "passable e (cmap c) (side_target s (cbot c))"
  obtains c' where "Move e s fu c = Inr (Some (move_cd c), c')" "ctx_ok c'"
    "position (cbot c') = side_target s (cbot c)" "cooldown (cbot c') = move_cd c"
    "cdTime (cbot c') = now e" "rotation (cbot c') = side_rotation s (rotation (cbot c))"
    "cmap c' = cmap (Trails e (upd_bot (turned s) c))"
    "programCondition (cbot c') = programCondition (cbot c)" "idx_frame c c'"
proof -
  let ?c1 = "upd_bot (turned s) c"
  let ?u = "GetIDByCoord (cmap c) (fst (position (cbot c))) (snd (position (cbot c)))"
  let ?c2 = "upd_bot (\<lambda>b. b\<lparr>position := side_target s (cbot c)\<rparr>) (Trails e ?c1)"
  let ?c3 = "upd_bot (set_cooldown e (move_cd c)) (upd_bot (\<lambda>b. b\<lparr>cachedBlockUnder := ?u\<rparr>) ?c2)"
  have st: "step_or_digg e ?c1 = (True, ?c2)"
    using assms(4) by (simp add: step_or_digg_def Let_def passable_def side_target_def)
  have "ctx_ok (Trails e ?c1)" by (intro wf_intros turned_ok assms)
  then have pre: "ctx_pre ?c3"
    by (simp add: ctx_ok_def ctx_pre_def filed_at_def rotation_ok_def turned_def)
  then obtain c' where c': "HasMoved ?c3 = Inr c'" "ctx_ok c'" "cmap c' = cmap ?c3"
      "cbot c' = (cbot ?c3)\<lparr>cachedPosition := position (cbot ?c3)\<rparr>" "idx_frame ?c3 c'"
    by (rule HasMoved_ok)
  have "Move e s fu c = Inr (Some (move_cd c), c')"
    using assms(2,3) st c'(1,4) by (simp add: Move_def Let_def)
  moreover have "idx_frame c ?c3" by (simp add: idx_frame_def turned_def)
  ultimately show thesis
    using c' by (intro that [of c']) (simp_all add: turned_def idx_frame_trans [OF _ c'(5)])
qed

lemma Move_blocked:
  assumes "ctx_ok c" "may_act fu c" "\<not> inCooldown e (cbot c)" "\<not> passable e (cmap c) (side_target s (cbot c))"
  obtains c' where "Move e s fu c = Inr (Some (cooldown (cbot c')), c')" "ctx_ok c'"
    "position (cbot c') = position (cbot c)" "rotation (cbot c') = side_rotation s (rotation (cbot c))"
    "cmap c' = cmap (if autodigg (bot_mode (cbot c)) then snd (Digg e False (upd_bot (turned s) c)) else c)"
    "programCondition (cbot c') = programCondition (cbot c)" "idx_frame c c'"
proof -
  let ?c1 = "upd_bot (turned s) c"
  let ?u = "GetIDByCoord (cmap c) (fst (position (cbot c))) (snd (position (cbot c)))"
  let ?c2 = "if autodigg (bot_mode (cbot c)) then snd (Digg e False ?c1) else ?c1"
  let ?c3 = "upd_bot (\<lambda>b. b\<lparr>cachedBlockUnder := ?u\<rparr>) ?c2"
  have st: "step_or_digg e ?c1 = (False, ?c2)"
    using assms(4) by (simp add: step_or_digg_def Let_def passable_def side_target_def turned_def)
  have ok2: "ctx_ok ?c2" using turned_ok [OF assms(1)] Digg_ok by simp
  then have "ctx_ok ?c3" by (rule ctx_ok_under)
  moreover have "Move e s fu c = Inr (Some (cooldown (cbot ?c3)), ?c3)"
    using assms(2,3) st unfolding Move_def by (simp add: Let_def)
  moreover have "idx_frame c ?c1" by (simp add: idx_frame_def turned_def)
  then have "idx_frame c ?c2" using idx_frame_trans idx_frame_actions(2) by auto
  then have "idx_frame c ?c3" by (simp add: idx_frame_def)
  ultimately show thesis by (intro that [of ?c3]) (simp_all add: turned_def)
qed

lemma Move_idle:
  "\<not> may_act fu c \<Longrightarrow> Move e s fu c = Inr (None, c)"
  "may_act fu c \<Longrightarrow> inCooldown e (cbot c) \<Longrightarrow> Move e s fu c = Inr (Some (cooldown (cbot c)), c)"
  by (simp_all add: Move_def)

lemma Move_ok:
  assumes "ctx_ok c"
  obtains r c' where "Move e s fu c = Inr (r, c')" "ctx_ok c'"
    "position (cbot c') = position (cbot c) \<or>
      (position (cbot c') = side_target s (cbot c) \<and> passable e (cmap c) (side_target s (cbot c)))"
    "programCondition (cbot c') = programCondition (cbot c)" "idx_frame c c'"
proof (cases "may_act fu c \<and> \<not> inCooldown e (cbot c)")
  case False
  then have "Move e s fu c = Inr (if may_act fu c then Some (cooldown (cbot c)) else None, c)"
    using Move_idle by auto
  then show thesis using that assms by simp
next
  case True
  show thesis
  proof (cases "passable e (cmap c) (side_target s (cbot c))")
    case True
    with \<open>may_act fu c \<and> _\<close> show thesis using that Move_steps [OF assms] by metis
  next
    case False
    with \<open>may_act fu c \<and> _\<close> show thesis using that Move_blocked [OF assms] by metis
  qed
qed

section \<open>Properties\<close>

text \<open>
  (C6) No action of a bot raises or damages the world: after any of them the map is well formed,
  the geology hold is a valid stack, the bot looks in one of the four directions, and the spatial
  index files the bot under the chunk of the cell it stands in.
\<close>

theorem bot_actions_ok:
  assumes "ctx_ok c"
  shows "(\<exists>r c'. Move e s fu c = Inr (r, c') \<and> ctx_ok c')
    \<and> (\<exists>c'. Teleport x y c = Inr c' \<and> ctx_ok c' \<and> position (cbot c') = (x, y))
    \<and> ctx_ok (Rotate e s fu wcd c) \<and> ctx_ok (snd (Digg e fu c)) \<and> ctx_ok (SetBlock e fu c)
    \<and> ctx_ok (SetRoad e fu c) \<and> ctx_ok (SetWB e fu c) \<and> ctx_ok (SetQuadro e fu c)
    \<and> ctx_ok (UseGeo e fu c) \<and> ctx_ok (Heal e fu c) \<and> ctx_ok (CheckBlockUnder c)"
proof (intro conjI)
  show "\<exists>r c'. Move e s fu c = Inr (r, c') \<and> ctx_ok c'" using Move_ok [OF assms] by metis
  show "\<exists>c'. Teleport x y c = Inr c' \<and> ctx_ok c' \<and> position (cbot c') = (x, y)"
    using Teleport_ok [OF assms] by metis
qed (intro wf_intros assms)+

definition demo_ctx :: "int \<Rightarrow> int \<Rightarrow> ctx" where
  "demo_ctx x y =
     \<lparr>cmap = WorldMap 4 4,
      cidx = Bots_Set (BotsContainer 4 4) [(1, x, y)],
      cbot = (new_Bot 1 0 0 (\<lambda>_. 0) (x, y))\<lparr>tracked := True\<rparr>\<rparr>"

definition demo_env :: env where
  "demo_env = \<lparr>now = 1000, draw = 0, ignoreBorders = False\<rparr>"

lemma demo_ctx_ok: "ctx_ok (demo_ctx x y)"
proof -
  have "map_ok (cmap (demo_ctx x y))" unfolding demo_ctx_def ctx.simps WorldMap_def by (rule ok_Resyze) simp_all
  moreover have "bc_ok (cidx (demo_ctx x y))" unfolding demo_ctx_def ctx.simps by (intro wf_intros)
  ultimately show ?thesis
    by (simp add: ctx_ok_def ctx_pre_def filed_at_def rotation_ok_def demo_ctx_def new_Bot_def geo_ok_new
        Bots_Set1_files BotsContainer_def)
qed

lemma demo_free: "\<not> inCooldown demo_env (cbot (demo_ctx x y))"
  by (simp add: inCooldown_def demo_env_def demo_ctx_def new_Bot_def)

theorem bot_actions_ok_witness: "ctx_ok (UseGeo demo_env False (demo_ctx 1 1))"
  using bot_actions_ok [OF demo_ctx_ok] by blast

text \<open>
  (C22) With borders respected a bot never steps into a solid block nor off the map: after \<open>Move\<close>
  it stands where it stood or on a neighbouring cell of the map that held no solid block.
\<close>

theorem Move_safe:
  assumes "ctx_ok c" "\<not> ignoreBorders e"
  shows "\<exists>r c'. Move e s fu c = Inr (r, c') \<and>
    (position (cbot c') = position (cbot c) \<or>
     (\<bar>fst (position (cbot c')) - fst (position (cbot c))\<bar>
        + \<bar>snd (position (cbot c')) - snd (position (cbot c))\<bar> = 1
      \<and> ValidCoords (cmap c) (fst (position (cbot c'))) (snd (position (cbot c')))
      \<and> \<not> solid (BlockStats (GetIDByCoord (cmap c) (fst (position (cbot c'))) (snd (position (cbot c')))))))"
proof -
  obtain r c' where m: "Move e s fu c = Inr (r, c')"
      "position (cbot c') = position (cbot c) \<or>
        (position (cbot c') = side_target s (cbot c) \<and> passable e (cmap c) (side_target s (cbot c)))"
    using Move_ok [OF assms(1)] by metis
  have rot: "rotation (turned s (cbot c)) \<in> {0, 90, 180, 270}"
    using ctx_okD [OF turned_ok [OF assms(1), of s]] by (simp add: rotation_ok_def)
  have near: "\<bar>fst (side_target s (cbot c)) - fst (position (cbot c))\<bar>
      + \<bar>snd (side_target s (cbot c)) - snd (position (cbot c))\<bar> = 1"
    using rot by (auto simp: side_target_def bFrontX_def bFrontY_def turned_def)
  have "ValidCoords (cmap c) a b" if "\<not> solid (BlockStats (GetIDByCoord (cmap c) a b))" for a b
    using that by (auto simp: GetIDByCoord_def split: if_splits)
  then show ?thesis using m near assms(2) by (auto simp: passable_def)
qed

theorem Move_safe_witness:
  "\<exists>r c'. Move demo_env Su False (demo_ctx 1 0) = Inr (r, c')
    \<and> (position (cbot c') = (1, 0) \<or> 0 \<le> snd (position (cbot c')))"
proof -
  have "\<not> ignoreBorders demo_env" by (simp add: demo_env_def)
  from Move_safe [OF demo_ctx_ok this, of Su False 1 0] show ?thesis
    by (auto simp: ValidCoords_def) (simp add: demo_ctx_def new_Bot_def)
qed

text \<open>
  The cooldown holds back every action: until it is over, moving, turning, digging, building,
  taking or placing a block and healing leave the world and the bot exactly as they were.
\<close>

theorem cooldown_blocks:
  assumes "inCooldown e (cbot c)"
  shows "(\<exists>r. Move e s fu c = Inr (r, c)) \<and> Rotate e s fu True c = c \<and> Digg e fu c = (False, c)
    \<and> SetBlock e fu c = c \<and> SetRoad e fu c = c \<and> SetWB e fu c = c \<and> SetQuadro e fu c = c
    \<and> UseGeo e fu c = c \<and> Heal e fu c = c"
  using assms
  by (cases "may_act fu c")
    (simp_all add: Move_def Rotate_def Digg_def SetBlock_def SetRoad_def SetWB_def SetQuadro_def
      UseGeo_def Heal_def, simp add: inCooldown_def)

theorem cooldown_blocks_witness:
  "UseGeo demo_env False (upd_bot (set_cooldown demo_env 50) (demo_ctx 1 1))
    = upd_bot (set_cooldown demo_env 50) (demo_ctx 1 1)"
proof -
  have "inCooldown demo_env (cbot (upd_bot (set_cooldown demo_env 50) (demo_ctx 1 1)))"
    by (simp add: inCooldown_def)
  then show ?thesis using cooldown_blocks by blast
qed

section \<open>Taking and placing blocks\<close>

lemma cantake_valid: "cantake (BlockStats (GetIDByCoord w x y)) \<Longrightarrow> ValidCoords w x y"
  by (auto simp: GetIDByCoord_def split: if_splits)

lemma UseGeo_take:
  assumes "may_act fu c" "\<not> inCooldown e (cbot c)" "cantake (BlockStats (BlockAhead c))"
    and "geoIsNoFull (cargo (cbot c))"
  shows "cmap (UseGeo e fu c) = ClearTile (cmap c) (bFrontX (cbot c)) (bFrontY (cbot c)) False"
    and "cbot (UseGeo e fu c) =
      set_cooldown e cd_geo ((cbot c)\<lparr>cargo := snd (PushGeo (cargo (cbot c)) (BlockAhead c))\<rparr>)"
  using assms by (simp_all add: UseGeo_def Let_def)

lemma UseGeo_place:
  assumes "may_act fu c" "\<not> inCooldown e (cbot c)" "\<not> solid (BlockStats (BlockAhead c))"
    and "PopGeo (cargo (cbot c)) = (Some t, cg)" "t \<noteq> 0"
  shows "cmap (UseGeo e fu c) = SetTileWithCoords (cmap c) (bFrontX (cbot c)) (bFrontY (cbot c)) t 0"
    and "cbot (UseGeo e fu c) = set_cooldown e cd_geo ((cbot c)\<lparr>cargo := cg\<rparr>)"
proof -
  have "\<not> cantake (BlockStats (BlockAhead c))" using assms(3) cantake_solid by blast
  then show "cmap (UseGeo e fu c) = SetTileWithCoords (cmap c) (bFrontX (cbot c)) (bFrontY (cbot c)) t 0"
      "cbot (UseGeo e fu c) = set_cooldown e cd_geo ((cbot c)\<lparr>cargo := cg\<rparr>)"
    using assms by (simp_all add: UseGeo_def Let_def put_ahead_def bFrontX_def bFrontY_def)
qed

text \<open>
  (C23) Taking a block with the geology tool and using the tool again once the cooldown is over puts
  it back: between the two the block is on top of the hold and its cell is empty, and afterwards
  the terrain, the background and the stack of the hold are what they were.
\<close>

theorem UseGeo_roundtrip:
  assumes "ctx_ok c" "may_act fu c" "\<not> inCooldown e (cbot c)" "cantake (BlockStats (BlockAhead c))"
    and "geoIsNoFull (cargo (cbot c))" "now e + cd_geo \<le> now e2"
  shows "geo_items (cargo (cbot (UseGeo e fu c))) = BlockAhead c # geo_items (cargo (cbot c))
    \<and> \<not> solid (BlockStats (BlockAhead (UseGeo e fu c)))
    \<and> geo_items (cargo (cbot (UseGeo e2 fu (UseGeo e fu c)))) = geo_items (cargo (cbot c))
    \<and> (\<forall>x y. GetIDByCoord_Terrain (cmap (UseGeo e2 fu (UseGeo e fu c))) x y = GetIDByCoord_Terrain (cmap c) x y)
    \<and> background (cmap (UseGeo e2 fu (UseGeo e fu c))) = background (cmap c)"
proof -
  let ?x = "bFrontX (cbot c)" and ?y = "bFrontY (cbot c)" and ?b = "BlockAhead c" and ?c1 = "UseGeo e fu c"
  have ok: "map_ok (cmap c)" "geo_ok (cargo (cbot c))" using ctx_okD [OF assms(1)] by simp_all
  have v: "ValidCoords (cmap c) ?x ?y" using assms(4) cantake_valid by (simp add: BlockAhead_def)
  have sol: "solid (BlockStats ?b)" by (rule cantake_solid [OF assms(4)])
  have tile: "GetIDByCoord_Terrain (cmap c) ?x ?y = ?b"
    using GetID_solid_terrain [OF ok(1) _ v] sol by (simp add: BlockAhead_def)
  note m1 = UseGeo_take [OF assms(2-5)]
  have ok1: "map_ok (cmap ?c1)" "geo_ok (cargo (cbot ?c1))"
    using ctx_okD [OF UseGeo_ok [OF assms(1)]] by simp_all
  have front: "bFrontX (cbot ?c1) = ?x" "bFrontY (cbot ?c1) = ?y"
    by (simp_all add: m1(2) bFrontX_def bFrontY_def)
  have items: "geo_items (cargo (cbot ?c1)) = ?b # geo_items (cargo (cbot c))"
    by (simp add: m1(2) geo_items_push [OF ok(2) assms(5)])
  have v1: "ValidCoords (cmap ?c1) ?x ?y" using v by (simp add: m1(1))
  have wf: "wf_map (cmap c)" using ok(1) by (simp add: map_ok_def)
  have free: "\<not> solid (BlockStats (BlockAhead ?c1))"
    using GetID_layers [OF ok1(1) v1] Terrain_ClearTile [OF wf v]
    by (simp add: BlockAhead_def front) (simp add: m1(1))
  obtain cg where pop: "PopGeo (cargo (cbot ?c1)) = (Some ?b, cg)" "geo_items cg = geo_items (cargo (cbot c))"
    using geology.pop_some [OF ok1(2) items] by (cases "PopGeo (cargo (cbot ?c1))") auto
  have ma: "may_act fu ?c1" using assms(2) by (simp add: may_act_def m1(2))
  have cd: "\<not> inCooldown e2 (cbot ?c1)" using assms(6) by (simp add: inCooldown_def m1(2))
  have b0: "?b \<noteq> 0" using sol by auto
  note m2 = UseGeo_place [OF ma cd free pop(1) b0]
  have "GetIDByCoord_Terrain (cmap (UseGeo e2 fu ?c1)) x y = GetIDByCoord_Terrain (cmap c) x y" for x y
    using Terrain_SetTileWithCoords [of "cmap ?c1" ?x ?y ?b 0 x y] Terrain_ClearTile [OF wf v, of False x y]
      v1 ok1(1) sol tile by (simp add: m2(1) front map_ok_def) (simp add: m1(1))
  moreover have "background (cmap (UseGeo e2 fu ?c1)) = background (cmap c)"
    using sol by (simp add: m2(1) SetTileWithCoords_def SetTile_def) (simp add: m1(1) background_ClearTile)
  ultimately show ?thesis using items free pop(2) by (simp add: m2(2))
qed

text \<open>A bot in the middle of the map with a black boulder above it.\<close>

definition demo_geo :: ctx where
  "demo_geo = upd_map (\<lambda>w. SetTileWithCoords w 1 0 40 0) (demo_ctx 1 1)"

lemma demo_geo_facts: "ctx_ok demo_geo" "BlockAhead demo_geo = 40" "\<not> inCooldown demo_env (cbot demo_geo)"
    "geoIsNoFull (cargo (cbot demo_geo))"
proof -
  show "ctx_ok demo_geo" unfolding demo_geo_def
    by (rule ctx_ok_upd_map [OF demo_ctx_ok]) (intro wf_intros demo_ctx_ok)
  show "BlockAhead demo_geo = 40"
    by (simp add: BlockAhead_def demo_geo_def demo_ctx_def new_Bot_def bFrontX_def bFrontY_def WorldMap_def
        Resyze_def Fill_def Let_def GetIDByCoord_def SetTileWithCoords_def ValidCoords_def SetTile_def
        ta_byte_def ta_get_def ta_set_def BlockStats_def BlockStatsTable_def)
  show "\<not> inCooldown demo_env (cbot demo_geo)" using demo_free by (simp add: demo_geo_def)
  show "geoIsNoFull (cargo (cbot demo_geo))"
    by (simp add: demo_geo_def demo_ctx_def new_Bot_def geoIsNoFull_def BotCargo_def BotSkillEffects_def)
qed

theorem UseGeo_roundtrip_witness:
  "geo_items (cargo (cbot (UseGeo demo_env False demo_geo))) = 40 # geo_items (cargo (cbot demo_geo))
   \<and> (\<forall>x y. GetIDByCoord_Terrain (cmap (UseGeo (demo_env\<lparr>now := 2000\<rparr>) False (UseGeo demo_env False demo_geo))) x y
        = GetIDByCoord_Terrain (cmap demo_geo) x y)"
proof -
  have "may_act False demo_geo" by (simp add: may_act_def)
  moreover have "cantake (BlockStats (BlockAhead demo_geo))"
    by (simp add: demo_geo_facts BlockStats_def BlockStatsTable_def)
  moreover have "now demo_env + cd_geo \<le> now (demo_env\<lparr>now := 2000\<rparr>)" by (simp add: demo_env_def cd_geo_def)
  ultimately show ?thesis
    using UseGeo_roundtrip [OF demo_geo_facts(1) _ demo_geo_facts(3) _ demo_geo_facts(4)]
    by (metis demo_geo_facts(2))
qed

section \<open>Building\<close>

lemma BlockAhead_put_ahead:
  assumes "ctx_ok c" "BlockAhead c \<noteq> 104" "solid (BlockStats t) \<or> \<not> solid (BlockStats (BlockAhead c))"
  shows "BlockAhead (put_ahead t c) = t"
  using assms visible_after_put [of "cmap c" "bFrontX (cbot c)" "bFrontY (cbot c)" t 0]
    not_fed_valid [of "cmap c" "bFrontX (cbot c)" "bFrontY (cbot c)"]
  by (simp add: BlockAhead_def put_ahead_def ctx_ok_map)

lemma BlockAhead_cooldown [simp]: "BlockAhead (upd_bot (set_cooldown e v) c) = BlockAhead c"
  by (simp add: BlockAhead_def)

lemma replesable_facts: "replesable (BlockStats b) \<Longrightarrow> b \<noteq> 104"
  by auto

lemma free_not_fed: "\<not> solid (BlockStats b) \<Longrightarrow> b \<noteq> 104"
  by auto

lemma ground_range:
  assumes "(32 :: byte) \<le> b" "b \<le> 34"
  shows "\<not> solid (BlockStats b)"
proof -
  have "32 \<le> unat b" "unat b \<le> 34" using assms by (simp_all add: word_le_nat_alt)
  then have "unat b = 32 \<or> unat b = 33 \<or> unat b = 34" by linarith
  moreover have "b = of_nat (unat b)" by simp
  ultimately have "b = 32 \<or> b = 33 \<or> b = 34" by (metis of_nat_numeral)
  then show ?thesis by auto
qed

text \<open>
  (C24) What each building action makes of the cell ahead, out of cooldown: \<open>SetBlock\<close> builds green,
  yellow, red in turn; \<open>SetQuadro\<close> a frame and then the block; \<open>SetWB\<close> a war block on any free cell;
  \<open>SetRoad\<close> a road on ground; anything else is left as it was.
\<close>

theorem building_actions:
  assumes "ctx_ok c" "may_act fu c" "\<not> inCooldown e (cbot c)"
  shows "BlockAhead (SetBlock e fu c) =
      (if BlockAhead c = Block_block_green then Block_block_yellow
       else if BlockAhead c = Block_block_yellow then Block_block_red
       else if replesable (BlockStats (BlockAhead c)) then Block_block_green else BlockAhead c)
    \<and> BlockAhead (SetQuadro e fu c) =
      (if BlockAhead c = 49 then 48 else if replesable (BlockStats (BlockAhead c)) then 49 else BlockAhead c)
    \<and> BlockAhead (SetWB e fu c) =
      (if \<not> solid (BlockStats (BlockAhead c)) then Block_block_war else BlockAhead c)
    \<and> BlockAhead (SetRoad e fu c) =
      (if Block_ground0 \<le> BlockAhead c \<and> BlockAhead c \<le> Block_ground2 then Block_road else BlockAhead c)"
  using assms BlockAhead_put_ahead [OF assms(1)] replesable_facts [of "BlockAhead c"]
    ground_range [of "BlockAhead c"] free_not_fed [of "BlockAhead c"]
  by (intro conjI) (auto simp: SetBlock_def SetQuadro_def SetWB_def SetRoad_def Let_def)

theorem building_actions_witness:
  "BlockAhead (SetBlock demo_env False (demo_ctx 1 1)) = Block_block_green"
proof -
  have "BlockAhead (demo_ctx 1 1) = 32"
    by (simp add: BlockAhead_def demo_ctx_def new_Bot_def bFrontX_def bFrontY_def WorldMap_def
        Resyze_def Fill_def Let_def GetIDByCoord_def ValidCoords_def ta_byte_def ta_get_def)
  moreover have "may_act False (demo_ctx 1 1)" by (simp add: may_act_def)
  ultimately show ?thesis using building_actions [OF demo_ctx_ok _ demo_free] by simp
qed

end
