(* ===== verification/Programmator.thy ===== *)
theory Programmator
  imports Bot
begin

text \<open>
  The program executor of \<^verbatim>\<open>scripts/programmator.js\<close>: the variables a program can read
  (\<open>ReadonlyVariables\<close>), the arithmetic commands (\<open>PComands\<close>), the 111 cell handlers of
  \<open>ExecutorList\<close> and \<open>ProgramExecutor.Execute\<close>. A handler maps an environment and a context to a
  flag (\<open>true\<close>: the index is already set) and a new context, or to an exception. In a compiled
  program the operand of a jump is a number; a jump whose operand is still text is the error
  \<open>UncompiledLabel\<close>. The clock is read once per handler.
\<close>

section \<open>Working on the condition\<close>

type_synonym handler = "env \<Rightarrow> ctx \<Rightarrow> (bool \<times> ctx) result"

abbreviation cond :: "ctx \<Rightarrow> prog_condition" where
  "cond c \<equiv> programCondition (cbot c)"

definition upd_cond :: "(prog_condition \<Rightarrow> prog_condition) \<Rightarrow> ctx \<Rightarrow> ctx" where
  "upd_cond f c = upd_bot (\<lambda>b. b\<lparr>programCondition := f (programCondition b)\<rparr>) c"

definition upd_mode :: "(BotMode \<Rightarrow> BotMode) \<Rightarrow> ctx \<Rightarrow> ctx" where
  "upd_mode f c = upd_bot (\<lambda>b. b\<lparr>bot_mode := f (bot_mode b)\<rparr>) c"

definition viewX :: "ctx \<Rightarrow> int" where
  "viewX c = fst (position (cbot c)) + fst (viewOffset (currentStack (cond c)))"

definition viewY :: "ctx \<Rightarrow> int" where
  "viewY c = snd (position (cbot c)) + snd (viewOffset (currentStack (cond c)))"

definition viewSelectedBlock :: "ctx \<Rightarrow> byte" where
  "viewSelectedBlock c = GetIDByCoord (cmap c) (viewX c) (viewY c)"

definition set_hand :: "bool \<Rightarrow> ctx \<Rightarrow> ctx" where
  "set_hand v c = upd_mode (\<lambda>m. m\<lparr>hand := v\<rparr>) (upd_cond (\<lambda>p. p\<lparr>isHandModeActive := v\<rparr>) c)"

definition reset_program :: "env \<Rightarrow> ctx \<Rightarrow> ctx" where
  "reset_program e c = set_hand False (upd_cond (Reset (now e)) c)"

section \<open>Variables\<close>

definition Readonly_ComandList :: "string list" where
  "Readonly_ComandList = [''AUT'', ''AGR'', ''HND'', ''DBG'', ''STK'', ''DIR'', ''X'', ''Y'', ''CEL'', ''HP'',
     ''HPP'', ''TIM'', ''G'', ''GP'', ''C'', ''CP'', ''R'', ''RP'', ''B'', ''BP'', ''V'', ''VP'', ''W'', ''WP'',
     ''GEO'', ''GEP'', ''LOA'', ''RND'', ''FLP'', ''BOO'', ''IDR'', ''AX'', ''AY'', ''DX'', ''DY'']"

text \<open>Other property names that read as something else than \<open>undefined\<close> on that object.\<close>

definition inherited_names :: "string list" where
  "inherited_names = [''botOwner'', ''constructor'', ''__proto__'', ''toString'', ''valueOf'',
     ''hasOwnProperty'', ''isPrototypeOf'', ''propertyIsEnumerable'', ''toLocaleString'',
     ''__defineGetter__'', ''__defineSetter__'', ''__lookupGetter__'', ''__lookupSetter__'']"

definition jint :: "int \<Rightarrow> jsval" where
  "jint n = JNum (of_int n)"

definition volume_percent :: "ctx \<Rightarrow> cry \<Rightarrow> jsval" where
  "volume_percent c k = jint (tilde2 (GetVolume (stats (cbot c)) (cargo (cbot c)) k * 100))"

definition cry_amount :: "ctx \<Rightarrow> cry \<Rightarrow> jsval" where
  "cry_amount c k = jint (int (unat (get_cry (cargo (cbot c)) k)))"

definition dir_value :: "bot \<Rightarrow> int" where
  "dir_value b = (let dir = rotationIndex b in if dir = 1 then 3 else if dir = 3 then 1 else dir)"

definition readonly_value :: "env \<Rightarrow> ctx \<Rightarrow> string \<Rightarrow> jsval" where
  "readonly_value e c n =
     (let b = cbot c; m = bot_mode b; p = cond c; off = viewOffset (currentStack p) in
      if n = ''AUT'' then jint (int_of_bool (autodigg m))
      else if n = ''AGR'' then jint (int_of_bool (agr m))
      else if n = ''HND'' then jint (int_of_bool (hand m))
      else if n = ''DBG'' then jint (int_of_bool (debug m))
      else if n = ''STK'' then jint (int (stackDepth p))
      else if n = ''DIR'' then jint (dir_value b)
      else if n = ''X'' then jint (fst (position b))
      else if n = ''Y'' then jint (snd (position b))
      else if n = ''CEL'' then jint (int (unat (viewSelectedBlock c)))
      else if n = ''HP'' then jint (hpNow (stats b))
      else if n = ''HPP'' then jint (tilde2 (of_int (hpNow (stats b)) / of_int (hpMax (stats b))) * 100)
      else if n = ''TIM'' then jint (tilde2 ((now e - of_int (timeStart p)) / 1000))
      else if n = ''G'' then cry_amount c CryG else if n = ''GP'' then volume_percent c CryG
      else if n = ''C'' then cry_amount c CryC else if n = ''CP'' then volume_percent c CryC
      else if n = ''R'' then cry_amount c CryR else if n = ''RP'' then volume_percent c CryR
      else if n = ''B'' then cry_amount c CryB else if n = ''BP'' then volume_percent c CryB
      else if n = ''V'' then cry_amount c CryV else if n = ''VP'' then volume_percent c CryV
      else if n = ''W'' then cry_amount c CryW else if n = ''WP'' then volume_percent c CryW
      else if n = ''GEO'' then jint (geoFilledValue (cargo b))
      else if n = ''GEP'' then jint (tilde2 (of_int (geoFilledPersent (cargo b))))
      else if n = ''LOA'' then jint (tilde2 (GetVolume_max (stats b) (cargo b) * 100))
      else if n = ''RND'' then jint (RandInt (draw e) 0 999)
      else if n = ''FLP'' then jint (int_of_bool (mode_flip p))
      else if n = ''BOO'' then
        (let logic = logic_code (mode_logic (currentStack p)) in jint (if logic \<le> 0 then 0 else logic))
      else if n = ''AX'' then jint \<bar>fst off\<bar> else if n = ''AY'' then jint \<bar>snd off\<bar>
      else if n = ''DX'' then jint (100 + fst off) else if n = ''DY'' then jint (100 + snd off)
      else if n \<in> set inherited_names then JObj
      else JUndef)"

definition read_property :: "env \<Rightarrow> ctx \<Rightarrow> operand \<Rightarrow> jsval" where
  "read_property e c x = (case x of OStr n \<Rightarrow> readonly_value e c n | ONum _ \<Rightarrow> JUndef)"

definition PComands_ComandList :: "string list" where
  "PComands_ComandList = [''SET'', ''ADD'', ''MUL'', ''DIV'', ''SUB'', ''AD2'', ''MU2'', ''DI2'', ''SU2'', ''MOD'']"

definition is_readonly :: "operand \<Rightarrow> bool" where
  "is_readonly x = (case x of OStr n \<Rightarrow> n \<in> set Readonly_ComandList | ONum _ \<Rightarrow> False)"

definition is_comand :: "operand \<Rightarrow> bool" where
  "is_comand x = (case x of OStr n \<Rightarrow> n \<in> set PComands_ComandList | ONum _ \<Rightarrow> False)"

definition operand_set :: "operand \<Rightarrow> bool" where
  "operand_set x = (case x of OStr n \<Rightarrow> n \<noteq> [] | ONum k \<Rightarrow> k \<noteq> 0)"

definition isVariable :: "operand option \<Rightarrow> bool" where
  "isVariable d = (case d of None \<Rightarrow> False | Some x \<Rightarrow> operand_set x \<and> (is_readonly x \<or> \<not> is_comand x))"

definition isWriteble :: "operand option \<Rightarrow> bool" where
  "isWriteble d = (case d of None \<Rightarrow> False | Some x \<Rightarrow> operand_set x \<and> \<not> is_readonly x \<and> \<not> is_comand x)"

definition user_value :: "ctx \<Rightarrow> operand \<Rightarrow> jsval" where
  "user_value c x = (case uservariables (cond c) x of Some v \<Rightarrow> v | None \<Rightarrow> JUndef)"

definition GetValueOfVariable :: "env \<Rightarrow> ctx \<Rightarrow> operand \<Rightarrow> jsval" where
  "GetValueOfVariable e c x = (if is_readonly x then read_property e c x else user_value c x)"

definition set_variable :: "operand \<Rightarrow> jsval \<Rightarrow> ctx \<Rightarrow> ctx" where
  "set_variable x v c = upd_cond (\<lambda>p. snd (SetValueToVariable p x v)) c"

definition or_one :: "jsval \<Rightarrow> jsval" where
  "or_one v = (if truthy v then v else JNum 1)"

definition pc1 :: "string \<Rightarrow> jsval \<Rightarrow> jsval \<Rightarrow> jsval" where
  "pc1 n v d =
     (if n = ''SET'' then d
      else if n = ''ADD'' then js_arith (+) v d
      else if n = ''MUL'' then js_arith (*) v d
      else if n = ''DIV'' then js_tilde2 (js_arith (/) v (or_one d))
      else if n = ''SUB'' then js_arith (-) v d
      else js_mod v d)"

definition pc2 :: "string \<Rightarrow> jsval \<Rightarrow> jsval \<Rightarrow> jsval" where
  "pc2 n s2 s1 =
     (if n = ''AD2'' then js_arith (+) s2 s1
      else if n = ''MU2'' then js_arith (*) s2 s1
      else if n = ''DI2'' then js_tilde2 (js_arith (/) s2 (or_one s1))
      else js_arith (-) s2 s1)"

definition PComands :: "env \<Rightarrow> string \<Rightarrow> jsval \<Rightarrow> ctx \<Rightarrow> ctx" where
  "PComands e n d c =
     (let lv = lastVariables (cond c) in
      if n \<in> set [''AD2'', ''MU2'', ''DI2'', ''SU2''] then
        (if isVariable (Younger lv) \<and> isWriteble (Older lv) then
           (let s1 = GetValueOfVariable e c (the (Younger lv));
                s2 = GetValueOfVariable e c (the (Older lv))
            in set_variable (the (Older lv)) (pc2 n s2 s1) c)
         else c)
      else
        (if isWriteble (Younger lv) then
           set_variable (the (Younger lv)) (pc1 n (GetValueOfVariable e c (the (Younger lv))) d) c
         else c))"

section \<open>Handlers\<close>

definition continue :: "ctx \<Rightarrow> (bool \<times> ctx) result" where
  "continue c = Inr (False, c)"

definition stay :: "ctx \<Rightarrow> (bool \<times> ctx) result" where
  "stay c = Inr (True, c)"

definition current_cell :: "ctx \<Rightarrow> prog_cell result" where
  "current_cell c = cell_at (cond c) (currIndex (cond c))"

definition jump_target :: "ctx \<Rightarrow> int result" where
  "jump_target c =
     ebind (current_cell c) (\<lambda>cell. case cell_operand cell of
       ONum n \<Rightarrow> Inr (if n \<ge> 0 then n else startIndex (cond c))
     | OStr s \<Rightarrow> Inl (UncompiledLabel s))"

definition op_nop :: handler where
  "op_nop e c = continue c"

text \<open>Handler 0 looks for the next cell that is not empty, in the same line.\<close>

function empty_scan :: "prog_condition \<Rightarrow> int \<Rightarrow> prog_condition result" where
  "empty_scan p i =
     (if 0 \<le> i \<and> i < int (length (program p)) then
        (if cell_id (program p ! nat i) = 0 then
           (if i mod LineLength = LineLength - 1 then
              Inr (p\<lparr>prevIndex := startIndex p, currIndex := startIndex p\<rparr>)
            else if i + 1 \<ge> int (length (program p)) then Inr (set_currIndex (startIndex p) p)
            else empty_scan p (i + 1))
         else Inr (p\<lparr>prevIndex := i, currIndex := i\<rparr>))
      else Inl TypeError)"
  by auto
termination by (relation "measure (\<lambda>(p, i). nat (int (length (program p)) - i))") auto

declare empty_scan.simps [simp del]

definition op_empty :: handler where
  "op_empty e c = ebind (empty_scan (cond c) (currIndex (cond c))) (\<lambda>p. stay (upd_cond (\<lambda>_. p) c))"

definition op_new_line :: handler where
  "op_new_line e c =
     stay (upd_cond (\<lambda>p. set_currIndex ((\<lfloor>of_int (currIndex p) / (of_int LineLength :: rat)\<rfloor> + 1) * LineLength) p) c)"

definition go_to_target :: "ctx \<Rightarrow> (bool \<times> ctx) result" where
  "go_to_target c = ebind (jump_target c) (\<lambda>t. stay (upd_cond (set_currIndex t) c))"

definition enter_call :: "ctx \<Rightarrow> ctx" where
  "enter_call c = upd_cond (\<lambda>p. upd_frame (\<lambda>f. f\<lparr>returnIndex := currIndex p\<rparr>) (push_frame p)) c"

definition op_GO_SUB :: handler where
  "op_GO_SUB e c = go_to_target (enter_call c)"

definition op_GO_STATE :: handler where
  "op_GO_STATE e c =
     (let prev = currentStack (cond c) in
      go_to_target (upd_cond (upd_frame (\<lambda>f. f\<lparr>logicalValue := logicalValue prev,
        mode_logic := mode_logic prev, viewOffset := viewOffset prev\<rparr>)) (enter_call c)))"

definition op_GO_FUNC :: handler where
  "op_GO_FUNC e c =
     (let prev = currentStack (cond c) in
      go_to_target (upd_cond (upd_frame (\<lambda>f.
        (if logic_code (mode_logic prev) \<ge> 0
         then f\<lparr>logicalValue := logicalValue prev, mode_logic := LM_none\<rparr> else f)\<lparr>viewOffset := viewOffset prev\<rparr>))
        (enter_call c)))"

definition look_set :: "(prog_condition \<Rightarrow> int \<times> int) \<Rightarrow> handler" where
  "look_set f e c = continue (upd_cond (\<lambda>p. upd_frame (\<lambda>fr. fr\<lparr>viewOffset := f p\<rparr>) p) c)"

definition look_add :: "(prog_condition \<Rightarrow> int \<times> int) \<Rightarrow> handler" where
  "look_add f e c = continue (upd_cond (\<lambda>p. upd_frame (\<lambda>fr. fr\<lparr>viewOffset :=
     (fst (viewOffset fr) + fst (f p), snd (viewOffset fr) + snd (f p))\<rparr>) p) c)"

definition by_rotation :: "(int \<times> int) list \<Rightarrow> ((prog_condition \<Rightarrow> int \<times> int) \<Rightarrow> handler) \<Rightarrow> handler" where
  "by_rotation ds h e c =
     (let r = rotationIndex (cbot c) in
      if 0 \<le> r \<and> r < int (length ds) then h (\<lambda>_. ds ! nat r) e c else continue c)"

definition dirs_left :: "(int \<times> int) list" where "dirs_left = [(-1, 0), (0, -1), (1, 0), (0, 1)]"
definition dirs_right :: "(int \<times> int) list" where "dirs_right = [(1, 0), (0, 1), (-1, 0), (0, -1)]"
definition dirs_front :: "(int \<times> int) list" where "dirs_front = [(0, -1), (1, 0), (0, 1), (-1, 0)]"

definition op_look_l :: handler where "op_look_l = by_rotation dirs_left look_add"
definition op_look_r :: handler where "op_look_r = by_rotation dirs_right look_add"
definition op_look_F :: handler where "op_look_F = by_rotation dirs_front look_set"
definition op_look_f :: handler where "op_look_f = by_rotation dirs_front look_add"
definition op_look_L :: handler where "op_look_L = by_rotation dirs_left look_set"
definition op_look_R :: handler where "op_look_R = by_rotation dirs_right look_set"

definition op_start :: handler where
  "op_start e c = continue (upd_cond (\<lambda>p. p\<lparr>timeStart := tilde2 (now e), startIndex := currIndex p\<rparr>) c)"

definition op_stop :: handler where
  "op_stop e c = continue (reset_program e (upd_cond (\<lambda>p. p\<lparr>isExecute := False\<rparr>) c))"

definition reset_view :: "ctx \<Rightarrow> ctx" where
  "reset_view c = upd_cond (upd_frame (\<lambda>f. f\<lparr>viewOffset := (0, 0)\<rparr>)) c"

definition set_logic :: "LogicMode \<Rightarrow> ctx \<Rightarrow> ctx" where
  "set_logic m c = upd_cond (upd_frame (\<lambda>f. f\<lparr>mode_logic := m\<rparr>)) c"

definition op_GO_TO :: handler where
  "op_GO_TO e c = ebind (go_to_target c) (\<lambda>(_, c1). stay (reset_view (set_logic LM_off c1)))"

definition op_HAND :: "bool \<Rightarrow> handler" where
  "op_HAND v e c = continue (set_hand v c)"

definition op_IF_TRUE :: handler where
  "op_IF_TRUE e c =
     (let f = currentStack (cond c) in
      if \<not> logicalValue f \<or> mode_logic f = LM_off
      then ebind (go_to_target c) (\<lambda>(_, c1). stay (set_logic LM_off c1))
      else continue (set_logic LM_off c))"

definition op_IF_FALSE :: handler where
  "op_IF_FALSE e c =
     (let f = currentStack (cond c) in
      if logicalValue f \<and> mode_logic f \<noteq> LM_off
      then ebind (go_to_target c) (\<lambda>(_, c1). stay (set_logic LM_off c1))
      else continue (set_logic LM_off c))"

section \<open>Macros\<close>

definition macro_cd :: "env \<Rightarrow> ctx \<Rightarrow> ctx" where
  "macro_cd e c = upd_bot (set_cooldown e cd_macrosCD) c"

definition op_MACROS_DIGG :: handler where
  "op_MACROS_DIGG e c =
     (if \<not> inCooldown e (cbot c) then
        (let block = BlockAhead c in
         if solid (BlockStats block) \<and> hardness (BlockStats block) \<ge> 0 then stay (snd (Digg e False c))
         else continue (macro_cd e c))
      else stay c)"

definition op_MACROS_BLOCK :: handler where
  "op_MACROS_BLOCK e c =
     (if \<not> inCooldown e (cbot c) then
        (let block = BlockAhead c; st = BlockStats block in
         if hardness st \<ge> 0 \<or> replesable st then
           (if replesable st \<or> block = Block_block_green \<or> block = Block_block_yellow then
              (let c1 = SetBlock e False c in
               if BlockAhead c1 = Block_block_red then continue (macro_cd e c1) else stay c1)
            else stay (snd (Digg e False c)))
         else continue (macro_cd e c))
      else stay c)"

definition op_MACROS_HEAL :: handler where
  "op_MACROS_HEAL e c =
     (if \<not> inCooldown e (cbot c) then
        (if hpNow (stats (cbot c)) < hpMax (stats (cbot c)) then stay (Heal e False c)
         else continue (macro_cd e c))
      else stay c)"

definition block_is_cry :: "byte option \<Rightarrow> bool result" where
  "block_is_cry b = (case b of None \<Rightarrow> Inl TypeError | Some t \<Rightarrow> Inr (is_cry (BlockStats t)))"

definition turn_by :: "int \<Rightarrow> ctx \<Rightarrow> ctx" where
  "turn_by k c = upd_bot (\<lambda>b. set_rotationIndex (rotationIndex b + k) b) c"

definition op_MACROS_DIGG_AROUND :: handler where
  "op_MACROS_DIGG_AROUND e c =
     (if \<not> inCooldown e (cbot c) then
        (let cache = (case MACROS_rotate_cache (cond c) of
                        None \<Rightarrow> rotationIndex (cbot c) | Some r \<Rightarrow> r);
             c1 = upd_bot (set_rotationIndex cache) (upd_cond (\<lambda>p. p\<lparr>MACROS_rotate_cache := Some cache\<rparr>) c)
         in ebind (block_is_cry (BlockLeft c1)) (\<lambda>l.
              if l then stay (snd (Digg e False (turn_by 3 c1)))
              else ebind (block_is_cry (BlockRight c1)) (\<lambda>r.
                if r then stay (snd (Digg e False (turn_by 1 c1)))
                else if is_cry (BlockStats (BlockAhead c1)) then stay (snd (Digg e False c1))
                else continue (macro_cd e (upd_cond (\<lambda>p. p\<lparr>MACROS_rotate_cache := None\<rparr>) c1)))))
      else stay c)"

section \<open>Logic, modes and returns\<close>

definition op_LOGIC :: "LogicMode \<Rightarrow> handler" where
  "op_LOGIC m e c = continue (set_logic m c)"

definition op_FLIP :: handler where
  "op_FLIP e c = continue (upd_cond (\<lambda>p. p\<lparr>mode_flip := \<not> mode_flip p\<rparr>) c)"

definition op_AUTODIGG :: "bool \<Rightarrow> handler" where
  "op_AUTODIGG v e c = continue (upd_mode (\<lambda>m. m\<lparr>autodigg := v\<rparr>) c)"

definition op_AGR :: "bool \<Rightarrow> handler" where
  "op_AGR v e c = continue (upd_mode (\<lambda>m. m\<lparr>agr := v\<rparr>) c)"

definition leave_call :: "ctx \<Rightarrow> ctx" where
  "leave_call c = upd_cond (\<lambda>p. leave_frame (set_currIndex (returnIndex (currentStack p)) p)) c"

definition op_RETURN :: handler where
  "op_RETURN e c =
     (if stackDepth (cond c) > 0 then continue (reset_view (set_logic LM_off (leave_call c)))
      else continue c)"

definition op_RETURN_FUNK :: handler where
  "op_RETURN_FUNK e c =
     (if stackDepth (cond c) > 0 then
        (let old = currentStack (cond c); c1 = leave_call c in
         if mode_logic old \<noteq> LM_off
         then continue (upd_cond (upd_frame (\<lambda>f. f\<lparr>mode_logic := LM_none, logicalValue := logicalValue old\<rparr>)) c1)
         else continue c1)
      else continue c)"

definition op_RETURN_STATE :: handler where
  "op_RETURN_STATE e c =
     (if stackDepth (cond c) > 0 then
        (let old = currentStack (cond c) in
         continue (upd_cond (upd_frame (\<lambda>f. f\<lparr>mode_logic := mode_logic old,
           logicalValue := logicalValue old, viewOffset := viewOffset old\<rparr>)) (leave_call c)))
      else continue c)"

section \<open>Comparing variables\<close>

definition compare :: "bool \<Rightarrow> ctx \<Rightarrow> ctx" where
  "compare v c = upd_cond (compareWithLogicValue v) c"

definition remember :: "operand \<Rightarrow> ctx \<Rightarrow> ctx" where
  "remember x c = upd_cond (\<lambda>p. p\<lparr>lastVariables := VarCacher_Set (lastVariables p) x\<rparr>) c"

definition op_VAR_EQUAL :: handler where
  "op_VAR_EQUAL e c =
     ebind (current_cell c) (\<lambda>cell.
       let x = cell_operand cell; d = cell_number cell in
       if operand_set x then
         (let result = read_property e c x in
          if \<not> is_nullish result then continue (remember x (compare (js_eq result d) c))
          else if is_comand x then
            continue (case x of OStr n \<Rightarrow> PComands e n d c | ONum _ \<Rightarrow> c)
          else
            (let r = user_value c x in
             continue (remember x
               (if \<not> is_nullish r then compare (js_eq r d) c
                else upd_cond (\<lambda>p. p\<lparr>uservariables := (uservariables p)(x \<mapsto> d)\<rparr>) c))))
       else continue c)"

definition var_order :: "(jsval \<Rightarrow> jsval \<Rightarrow> bool) \<Rightarrow> handler" where
  "var_order rel e c =
     ebind (current_cell c) (\<lambda>cell.
       let x = cell_operand cell; d = cell_number cell in
       if operand_set x then
         (let result = read_property e c x in
          continue (remember x
            (if \<not> is_nullish result then compare (rel result d) c
             else (let r = user_value c x in compare (\<not> is_nullish r \<and> rel r d) c))))
       else continue c)"

definition op_VAR_MORE :: handler where "op_VAR_MORE = var_order js_gt"
definition op_VAR_LESS :: handler where "op_VAR_LESS = var_order js_lt"

section \<open>Actions\<close>

text \<open>An action waits for the cooldown by staying on its cell.\<close>

definition when_ready :: "(env \<Rightarrow> ctx \<Rightarrow> ctx result) \<Rightarrow> handler" where
  "when_ready act e c = (if inCooldown e (cbot c) then stay c else ebind (act e c) continue)"

definition do_move :: "side \<Rightarrow> side \<Rightarrow> env \<Rightarrow> ctx \<Rightarrow> ctx result" where
  "do_move s flipped e c =
     ebind (Move e (if mode_flip (cond c) then flipped else s) False c) (\<lambda>(_, c1). Inr (reset_view c1))"

definition do_rotate :: "side \<Rightarrow> side \<Rightarrow> env \<Rightarrow> ctx \<Rightarrow> ctx result" where
  "do_rotate s flipped e c =
     Inr (reset_view (Rotate e (if mode_flip (cond c) then flipped else s) False True c))"

definition rotate_index :: "int \<Rightarrow> env \<Rightarrow> ctx \<Rightarrow> ctx" where
  "rotate_index n e c = (case side_of_index n of Some s \<Rightarrow> Rotate e s False True c | None \<Rightarrow> c)"

definition do_turn :: "int \<Rightarrow> int \<Rightarrow> env \<Rightarrow> ctx \<Rightarrow> ctx result" where
  "do_turn k flipped e c =
     Inr (rotate_index (js_rem (rotationIndex (cbot c) + (if mode_flip (cond c) then flipped else k)) 4) e c)"

definition op_digg :: handler where
  "op_digg = when_ready (\<lambda>e c. Inr (snd (Digg e False c)))"

definition op_rotate_random :: handler where
  "op_rotate_random = when_ready (\<lambda>e c. Inr (rotate_index (RandInt (draw e) 0 3) e c))"

definition op_test :: "(ctx \<Rightarrow> bool) \<Rightarrow> handler" where
  "op_test f e c = continue (compare (f c) c)"

abbreviation view_stats :: "ctx \<Rightarrow> BlockStatistics" where
  "view_stats c \<equiv> BlockStats (viewSelectedBlock c)"

section \<open>The table of handlers\<close>

definition Executor_0_15 :: "handler list" where
  "Executor_0_15 = [
     op_empty,
     op_new_line,
     op_nop,
     op_GO_SUB,
     look_set (\<lambda>p. (- flipValue p, -1)),
     look_set (\<lambda>p. (0, -1)),
     look_set (\<lambda>p. (flipValue p, -1)),
     look_set (\<lambda>p. (- flipValue p, 0)),
     op_nop,
     look_set (\<lambda>p. (flipValue p, 0)),
     look_set (\<lambda>p. (- flipValue p, 1)),
     look_set (\<lambda>p. (0, 1)),
     op_look_l,
     op_look_r,
     op_start,
     op_stop]"

definition Executor_16_34 :: "handler list" where
  "Executor_16_34 = [
     op_GO_STATE,
     op_GO_FUNC,
     look_set (\<lambda>p. (flipValue p, 1)),
     look_add (\<lambda>p. (0, -1)),
     look_add (\<lambda>p. (- flipValue p, 0)),
     look_add (\<lambda>p. (0, 1)),
     look_add (\<lambda>p. (flipValue p, 0)),
     op_look_F,
     op_look_f,
     op_look_L,
     op_look_R,
     op_GO_TO,
     op_nop,
     op_nop,
     op_HAND True,
     op_HAND False,
     op_nop,
     op_IF_TRUE,
     op_IF_FALSE]"

definition Executor_35_50 :: "handler list" where
  "Executor_35_50 = [
     op_nop,
     op_MACROS_DIGG,
     op_MACROS_BLOCK,
     op_MACROS_HEAL,
     op_MACROS_DIGG_AROUND,
     op_LOGIC LM_or,
     op_LOGIC LM_and,
     op_FLIP,
     op_AUTODIGG True,
     op_AUTODIGG False,
     op_RETURN,
     op_RETURN_FUNK,
     op_RETURN_STATE,
     op_VAR_EQUAL,
     op_VAR_MORE,
     op_VAR_LESS]"

definition Executor_51_86 :: "handler list" where
  "Executor_51_86 = [
     op_nop,
     op_nop,
     op_nop,
     op_nop,
     op_nop,
     op_nop,
     op_nop,
     op_nop,
     op_nop,
     op_nop,
     op_nop,
     when_ready (do_move Su Su),
     when_ready (do_move Sl Sr),
     when_ready (do_move Sd Sd),
     when_ready (do_move Sr Sl),
     op_digg,
     when_ready (do_rotate Su Su),
     when_ready (do_rotate Sl Sr),
     when_ready (do_rotate Sd Sd),
     when_ready (do_rotate Sr Sl),
     op_nop,
     when_ready (do_move Sf Sf),
     when_ready (do_turn 3 1),
     when_ready (do_turn 1 3),
     when_ready (\<lambda>e c. Inr (SetBlock e False c)),
     when_ready (\<lambda>e c. Inr (UseGeo e False c)),
     op_nop,
     when_ready (\<lambda>e c. Inr (SetWB e False c)),
     when_ready (\<lambda>e c. Inr (SetRoad e False c)),
     when_ready (\<lambda>e c. Inr (Heal e False c)),
     when_ready (\<lambda>e c. Inr (SetQuadro e False c)),
     op_rotate_random,
     op_nop,
     op_nop,
     op_nop,
     op_nop]"

definition Executor_87_110 :: "handler list" where
  "Executor_87_110 = [
     op_test (\<lambda>c. solid (view_stats c)),
     op_test (\<lambda>c. \<not> solid (view_stats c)),
     op_test (\<lambda>c. falltype (view_stats c) \<noteq> None),
     op_test (\<lambda>c. is_cry (view_stats c)),
     op_test (\<lambda>c. is_alive (view_stats c)),
     op_test (\<lambda>c. falltype (view_stats c) = Some FT_bolder),
     op_test (\<lambda>c. falltype (view_stats c) = Some FT_sand),
     op_test (\<lambda>c. diggablerock (view_stats c)),
     op_test (\<lambda>c. solid (view_stats c) \<and> hardness (view_stats c) < 0),
     op_test (\<lambda>c. viewSelectedBlock c = Block_rock_red),
     op_test (\<lambda>c. viewSelectedBlock c = Block_rock_black),
     op_test (\<lambda>c. is_slime (view_stats c)),
     op_test (\<lambda>c. viewSelectedBlock c = Block_box),
     op_test (\<lambda>c. viewSelectedBlock c = Block_block_quadro),
     op_test (\<lambda>c. viewSelectedBlock c = Block_road),
     op_test (\<lambda>c. viewSelectedBlock c = Block_block_red),
     op_test (\<lambda>c. viewSelectedBlock c = Block_block_yellow),
     op_test (\<lambda>c. viewSelectedBlock c = Block_block_green),
     op_test (\<lambda>c. viewSelectedBlock c = Block_block_support),
     op_test (\<lambda>c. False),
     op_AGR True,
     op_AGR False,
     op_test (\<lambda>c. of_int (hpNow (stats (cbot c))) < (of_int (hpMax (stats (cbot c))) / 2 :: rat)),
     op_test (\<lambda>c. hpNow (stats (cbot c)) < hpMax (stats (cbot c)))]"

definition ExecutorList :: "handler list" where
  "ExecutorList = Executor_0_15 @ Executor_16_34 @ Executor_35_50 @ Executor_51_86 @ Executor_87_110"

section \<open>Execute\<close>

definition advance :: "prog_condition \<Rightarrow> prog_condition" where
  "advance p =
     (if js_rem (currIndex p) LineLength = LineLength - 1
      then set_currIndex (currIndex p - (LineLength - 1)) p
      else set_currIndex (currIndex p + 1) p)"

definition exec_bot :: "env \<Rightarrow> ctx \<Rightarrow> ctx result" where
  "exec_bot e c =
     (if isExecute (cond c) then
        ebind (current_cell c) (\<lambda>cell.
          if 0 \<le> cell_id cell \<and> cell_id cell < int (length ExecutorList) then
            ebind ((ExecutorList ! nat (cell_id cell)) e c) (\<lambda>(noIterateIndex, c1).
              Inr (if \<not> noIterateIndex then upd_cond advance c1 else c1))
          else Inl TypeError)
      else Inr c)"

record game =
  g_map :: world_map
  g_index :: bots_container
  g_bots :: "bot list"

definition exec_nth :: "env \<Rightarrow> nat \<Rightarrow> game \<Rightarrow> game result" where
  "exec_nth e i g =
     ebind (exec_bot e \<lparr>cmap = g_map g, cidx = g_index g, cbot = g_bots g ! i\<rparr>) (\<lambda>c.
       Inr (g\<lparr>g_map := cmap c, g_index := cidx c, g_bots := (g_bots g)[i := cbot c]\<rparr>))"

fun exec_from :: "(nat \<Rightarrow> env) \<Rightarrow> nat list \<Rightarrow> game \<Rightarrow> game result" where
  "exec_from es [] g = Inr g"
| "exec_from es (i # is) g = ebind (exec_nth (es i) i g) (exec_from es is)"

definition Execute :: "(nat \<Rightarrow> env) \<Rightarrow> game \<Rightarrow> game result" where
  "Execute es g = exec_from es [0..<length (g_bots g)] g"

section \<open>The tables of cells\<close>

definition CellID :: "(string \<times> int) list" where
  "CellID = [
     (''error'', -1), (''empty'', 0), (''new_line'', 1), (''mark'', 2), (''GO_SUB'', 3),
     (''look_WA'', 4), (''look_W'', 5), (''look_DW'', 6), (''look_A'', 7), (''non_use_8'', 8),
     (''look_D'', 9), (''look_AS'', 10), (''look_S'', 11), (''look_l'', 12), (''look_r'', 13),
     (''start'', 14), (''stop'', 15), (''GO_STATE'', 16), (''GO_FUNC'', 17), (''look_SD'', 18),
     (''look_w'', 19), (''look_a'', 20), (''look_s'', 21), (''look_d'', 22), (''look_F'', 23),
     (''look_f'', 24), (''look_L'', 25), (''look_R'', 26), (''GO_TO'', 27), (''DBG_MSG'', 28),
     (''DBG_PAUSE'', 29), (''HAND_MODE_ON'', 30), (''HAND_MODE_OFF'', 31), (''IF_RESP'', 32),
     (''IF_TRUE'', 33), (''IF_FALSE'', 34), (''MACROS_GUN'', 35), (''MACROS_DIGG'', 36),
     (''MACROS_BLOCK'', 37), (''MACROS_HEAL'', 38), (''MACROS_DIGG_AROUND'', 39), (''OR'', 40),
     (''AND'', 41), (''FLIP'', 42), (''AUTODIGG_ON'', 43), (''AUTODIGG_OF'', 44), (''RETURN'', 45),
     (''RETURN_FUNK'', 46), (''RETURN_STATE'', 47), (''VAR_EQUAL'', 48), (''VAR_MORE'', 49),
     (''VAR_LESS'', 50), (''ONLINE_BOOM'', 51), (''ONLINE_RAZ'', 52), (''ONLINE_PROT'', 53),
     (''ONLINE_GEO'', 54), (''ONLINE_ZZ'', 55), (''ONLINE_C190'', 56), (''ONLINE_POLY'', 57),
     (''ONLINE_UP'', 58), (''ONLINE_CRAFT'', 59), (''ONLINE_NANO'', 60), (''ONLINE_REM'', 61),
     (''move_W'', 62), (''move_A'', 63), (''move_S'', 64), (''move_D'', 65), (''digg'', 66),
     (''rotate_w'', 67), (''rotate_a'', 68), (''rotate_s'', 69), (''rotate_d'', 70),
     (''non_use_71'', 71), (''move_F'', 72), (''rotate_CCW'', 73), (''rotate_CW'', 74),
     (''set_block'', 75), (''set_geo'', 76), (''beep'', 77), (''set_VB'', 78), (''set_road'', 79),
     (''heal'', 80), (''set_quadro'', 81), (''rotate_random'', 82), (''INVENTORY_w'', 83),
     (''INVENTORY_a'', 84), (''INVENTORY_s'', 85), (''INVENTORY_d'', 86), (''is_no_empty'', 87),
     (''is_empty'', 88), (''is_falls'', 89), (''is_crys'', 90), (''is_alive'', 91),
     (''is_bolder'', 92), (''is_sand'', 93), (''is_diggable'', 94), (''is_non_diggable'', 95),
     (''is_red_rock'', 96), (''is_black_rock'', 97), (''is_slime'', 98), (''is_box'', 99),
     (''is_quadro'', 100), (''is_road'', 101), (''is_red_block'', 102), (''is_yellow_block'', 103),
     (''is_green_block'', 104), (''is_support_block'', 105), (''is_in_gun'', 106),
     (''AGR_ON'', 107), (''AGR_OFF'', 108), (''HP_half'', 109), (''HP_less100'', 110)]"

definition CellID_length :: int where
  "CellID_length = 111"

definition CellID_get_random :: "rat \<Rightarrow> int" where
  "CellID_get_random u = \<lfloor>u * of_int CellID_length\<rfloor>"

definition IsOperationFast :: "bool list" where
  "IsOperationFast = [
     True, True, True, True, True, True, True, True, True, True, True, True, True, True, True,
     True, True, True, True, True, True, True, True, True, True, True, True, True, False, False,
     True, True, True, True, True, False, False, False, False, False, True, True, True, True, True,
     True, True, True, True, True, True, False, False, False, False, False, False, False, False,
     False, False, False, False, False, False, False, False, False, False, False, False, True,
     False, False, False, False, False, False, False, False, False, False, False, False, False,
     False, False, True, True, True, True, True, True, True, True, True, True, True, True, True,
     True, True, True, True, True, True, False, True, True, True, True]"

end
