(* ===== verification/Program_Safety.thy ===== *)
theory Program_Safety
  imports Programmator
begin

text \<open>
  What the executor guarantees: a well-formed compiled program never raises and keeps every
  invariant of the bot and of the world (progress and preservation), calls return to their
  callers, fast cells touch nothing but the program state, and the corner cases the modelling
  brought up (the cell after \<open>stop\<close>, the stack depth that is not limited).
\<close>

section \<open>Well-formed programs\<close>

definition jump_ids :: "int list" where
  "jump_ids = [3, 16, 17, 27, 33, 34]"

definition cell_wf :: "nat \<Rightarrow> nat \<Rightarrow> prog_cell \<Rightarrow> bool" where
  "cell_wf len i cell \<longleftrightarrow> 0 \<le> cell_id cell \<and> cell_id cell < 111
     \<and> (cell_id cell \<in> set jump_ids \<longrightarrow>
          (case cell_operand cell of ONum n \<Rightarrow> n < int len | OStr _ \<Rightarrow> False))
     \<and> (cell_id cell = 1 \<longrightarrow> (i div 16 + 1) * 16 < len)"

definition program_wf :: "prog_cell list \<Rightarrow> bool" where
  "program_wf prog \<longleftrightarrow> prog \<noteq> [] \<and> length prog mod 16 = 0
     \<and> (\<forall>i < length prog. cell_wf (length prog) i (prog ! i))"

definition idx_ok :: "prog_condition \<Rightarrow> int \<Rightarrow> bool" where
  "idx_ok p i \<longleftrightarrow> 0 \<le> i \<and> i < int (length (program p))"

definition cond_ok :: "prog_condition \<Rightarrow> bool" where
  "cond_ok p \<longleftrightarrow> program_wf (program p) \<and> idx_ok p (currIndex p) \<and> idx_ok p (startIndex p) \<and> frames_ok p
     \<and> (\<forall>i. 0 < i \<longrightarrow> i \<le> stackDepth p \<longrightarrow> idx_ok p (returnIndex (stack p ! i)))
     \<and> (\<forall>r. MACROS_rotate_cache p = Some r \<longrightarrow> 0 \<le> r \<and> r < 4)"

definition good :: "ctx \<Rightarrow> bool" where
  "good c \<longleftrightarrow> ctx_ok c \<and> cond_ok (cond c)"

definition okres :: "(bool \<times> ctx) result \<Rightarrow> bool" where
  "okres r \<longleftrightarrow> (\<exists>b c. r = Inr (b, c) \<and> good c)"

definition okh :: "handler \<Rightarrow> bool" where
  "okh h \<longleftrightarrow> (\<forall>e c. good c \<longrightarrow> okres (h e c))"

definition hok :: "int \<Rightarrow> handler \<Rightarrow> bool" where
  "hok k h \<longleftrightarrow> (\<forall>e c cell. good c \<longrightarrow> current_cell c = Inr cell \<longrightarrow> cell_id cell = k \<longrightarrow> okres (h e c))"

lemma okh_hok: "okh h \<Longrightarrow> hok k h"
  by (auto simp: okh_def hok_def)

section \<open>The condition\<close>

lemma cond_fields [simp]:
  "cond_ok (p\<lparr>timeStart := t\<rparr>) = cond_ok p" "cond_ok (p\<lparr>isExecute := x\<rparr>) = cond_ok p"
  "cond_ok (p\<lparr>isHandModeActive := x\<rparr>) = cond_ok p" "cond_ok (p\<lparr>mode_flip := x\<rparr>) = cond_ok p"
  "cond_ok (p\<lparr>uservariables := uv\<rparr>) = cond_ok p" "cond_ok (p\<lparr>lastVariables := lv\<rparr>) = cond_ok p"
  "cond_ok (p\<lparr>prevIndex := k\<rparr>) = cond_ok p"
  by (simp_all add: cond_ok_def idx_ok_def frames_ok_def)

lemma cond_ok_index: "cond_ok p \<Longrightarrow> idx_ok p i \<Longrightarrow> cond_ok (p\<lparr>currIndex := i\<rparr>)"
  by (simp add: cond_ok_def idx_ok_def frames_ok_def)

lemma cond_ok_start: "cond_ok p \<Longrightarrow> idx_ok p i \<Longrightarrow> cond_ok (p\<lparr>startIndex := i\<rparr>)"
  by (simp add: cond_ok_def idx_ok_def frames_ok_def)

lemma cond_ok_cache:
  "cond_ok p \<Longrightarrow> (\<And>r. x = Some r \<Longrightarrow> 0 \<le> r \<and> r < 4) \<Longrightarrow> cond_ok (p\<lparr>MACROS_rotate_cache := x\<rparr>)"
  by (simp add: cond_ok_def idx_ok_def frames_ok_def)

lemma cond_ok_set_currIndex: "cond_ok p \<Longrightarrow> idx_ok p i \<Longrightarrow> cond_ok (set_currIndex i p)"
  by (simp add: set_currIndex_def cond_ok_def idx_ok_def frames_ok_def)

lemma program_frame [simp]:
  "program (upd_frame f p) = program p" "program (push_frame p) = program p"
  "program (leave_frame p) = program p" "program (set_currIndex i p) = program p"
  "startIndex (upd_frame f p) = startIndex p" "startIndex (push_frame p) = startIndex p"
  "startIndex (leave_frame p) = startIndex p" "startIndex (set_currIndex i p) = startIndex p"
  "currIndex (upd_frame f p) = currIndex p" "currIndex (push_frame p) = currIndex p"
  "currIndex (leave_frame p) = currIndex p" "currIndex (set_currIndex i p) = i"
  "MACROS_rotate_cache (upd_frame f p) = MACROS_rotate_cache p"
  "MACROS_rotate_cache (push_frame p) = MACROS_rotate_cache p"
  "MACROS_rotate_cache (leave_frame p) = MACROS_rotate_cache p"
  by (simp_all add: upd_frame_def push_frame_def leave_frame_def set_currIndex_def Let_def)

lemma cond_ok_upd_frame:
  assumes "cond_ok p" "\<And>fr. returnIndex (f fr) = returnIndex fr"
  shows "cond_ok (upd_frame f p)"
  using assms by (auto simp: cond_ok_def idx_ok_def frames_ok_def upd_frame_def nth_list_update currentStack_def)

lemma cond_ok_enter:
  assumes "cond_ok p"
  shows "cond_ok (upd_frame (\<lambda>f. f\<lparr>returnIndex := currIndex p\<rparr>) (push_frame p))"
proof -
  let ?q = "push_frame p"
  have d: "stackDepth ?q = Suc (stackDepth p)" by (simp add: push_frame_def Let_def)
  have keep: "stack ?q ! i = stack p ! i" if "i \<le> stackDepth p" for i
    using that assms by (auto simp: push_frame_def Let_def nth_append cond_ok_def frames_ok_def)
  have "frames_ok ?q" using assms by (simp add: cond_ok_def wf_intros)
  then show ?thesis
    using assms keep d
    by (auto simp: cond_ok_def idx_ok_def upd_frame_def nth_list_update frames_ok_def le_Suc_eq)
qed

lemma cond_ok_leave:
  assumes "cond_ok p" "0 < stackDepth p"
  shows "cond_ok (leave_frame (set_currIndex (returnIndex (currentStack p)) p))"
  using assms by (auto simp: cond_ok_def idx_ok_def frames_ok_def leave_frame_def set_currIndex_def currentStack_def)

lemma cond_ok_Reset: "cond_ok p \<Longrightarrow> cond_ok (Reset t p)"
  by (auto simp: cond_ok_def idx_ok_def frames_ok_def Reset_def set_currIndex_def Let_def program_wf_def)

lemma advance_in_range:
  fixes i n :: int
  assumes "0 \<le> i" "i < n" "n mod 16 = 0"
  shows "i mod 16 = 15 \<Longrightarrow> 0 \<le> i - 15" "i mod 16 \<noteq> 15 \<Longrightarrow> i + 1 < n"
  using assms by presburger+

lemma cond_ok_advance: "cond_ok p \<Longrightarrow> cond_ok (advance p)"
proof -
  assume p: "cond_ok p"
  let ?i = "currIndex p" and ?n = "int (length (program p))"
  have r: "0 \<le> ?i" "?i < ?n" using p by (simp_all add: cond_ok_def idx_ok_def)
  have "?n mod 16 = 0" using p by (auto simp: cond_ok_def program_wf_def zmod_int [symmetric])
  note a = advance_in_range [OF r this]
  have "js_rem ?i LineLength = ?i mod 16" using r by (simp add: LineLength_def js_rem_nonneg)
  then show "cond_ok (advance p)"
    using a r unfolding advance_def LineLength_def
    by (auto intro!: cond_ok_set_currIndex p simp: idx_ok_def)
qed

section \<open>The context\<close>

lemma upd_cond_simps [simp]:
  "cmap (upd_cond f c) = cmap c" "cidx (upd_cond f c) = cidx c" "cond (upd_cond f c) = f (cond c)"
  "position (cbot (upd_cond f c)) = position (cbot c)" "rotation (cbot (upd_cond f c)) = rotation (cbot c)"
  "cargo (cbot (upd_cond f c)) = cargo (cbot c)" "cooldown (cbot (upd_cond f c)) = cooldown (cbot c)"
  "cdTime (cbot (upd_cond f c)) = cdTime (cbot c)"
  "cmap (upd_mode g c) = cmap c" "cidx (upd_mode g c) = cidx c" "cond (upd_mode g c) = cond c"
  "position (cbot (upd_mode g c)) = position (cbot c)" "rotation (cbot (upd_mode g c)) = rotation (cbot c)"
  "cargo (cbot (upd_mode g c)) = cargo (cbot c)" "cooldown (cbot (upd_mode g c)) = cooldown (cbot c)"
  "cdTime (cbot (upd_mode g c)) = cdTime (cbot c)"
  by (simp_all add: upd_cond_def upd_mode_def)

lemma ctx_ok_upd_cond: "ctx_ok c \<Longrightarrow> ctx_ok (upd_cond f c)"
  unfolding upd_cond_def by (rule ctx_ok_upd_bot) (auto simp: rotation_ok_def dest: ctx_okD)

lemma ctx_ok_upd_mode: "ctx_ok c \<Longrightarrow> ctx_ok (upd_mode f c)"
  unfolding upd_mode_def by (rule ctx_ok_upd_bot) (auto simp: rotation_ok_def dest: ctx_okD)

lemma good_upd_cond: "good c \<Longrightarrow> cond_ok (f (cond c)) \<Longrightarrow> good (upd_cond f c)"
  by (simp add: good_def ctx_ok_upd_cond)

lemma good_upd_mode [wf_intros]: "good c \<Longrightarrow> good (upd_mode f c)"
  by (simp add: good_def ctx_ok_upd_mode)

lemma good_frame: "good c \<Longrightarrow> (\<And>fr. returnIndex (f fr) = returnIndex fr) \<Longrightarrow> good (upd_cond (upd_frame f) c)"
  by (rule good_upd_cond) (auto simp: good_def intro: cond_ok_upd_frame)

lemma good_set_logic [wf_intros]: "good c \<Longrightarrow> good (set_logic m c)"
  unfolding set_logic_def by (rule good_frame) simp_all

lemma good_reset_view [wf_intros]: "good c \<Longrightarrow> good (reset_view c)"
  unfolding reset_view_def by (rule good_frame) simp_all

lemma good_compare [wf_intros]: "good c \<Longrightarrow> good (compare v c)"
  unfolding compare_def compareWithLogicValue_def
  by (rule good_frame) (simp_all add: compare_frame_def split: LogicMode.splits)

lemma good_remember [wf_intros]: "good c \<Longrightarrow> good (remember x c)"
  unfolding remember_def by (rule good_upd_cond) (simp_all add: good_def)

lemma good_set_hand [wf_intros]: "good c \<Longrightarrow> good (set_hand v c)"
  unfolding set_hand_def by (intro wf_intros good_upd_cond) (simp_all add: good_def)

lemma good_action: "good c \<Longrightarrow> ctx_ok c' \<Longrightarrow> cond c' = cond c \<Longrightarrow> good c'"
  by (simp add: good_def)

lemma good_ctx: "good c \<Longrightarrow> ctx_ok c"
  by (simp add: good_def)

lemma good_cond: "good c \<Longrightarrow> cond_ok (cond c)"
  by (simp add: good_def)

lemma good_macro_cd [wf_intros]: "good c \<Longrightarrow> good (macro_cd e c)"
  unfolding macro_cd_def by (rule good_action, assumption) (auto intro: wf_intros good_ctx)

lemma okres_continue [simp]: "okres (continue c) = good c"
  by (auto simp: okres_def continue_def)

lemma okres_stay [simp]: "okres (stay c) = good c"
  by (auto simp: okres_def stay_def)

section \<open>Every handler is safe\<close>

lemma current_cell_ok:
  assumes "good c"
  obtains cell where "current_cell c = Inr cell"
    "cell_wf (length (program (cond c))) (nat (currIndex (cond c))) cell"
proof -
  have r: "0 \<le> currIndex (cond c)" "currIndex (cond c) < int (length (program (cond c)))"
    and wf: "program_wf (program (cond c))"
    using good_cond [OF assms] by (simp_all add: cond_ok_def idx_ok_def)
  then show thesis
    using that [of "program (cond c) ! nat (currIndex (cond c))"]
    by (simp add: current_cell_def cell_at_def program_wf_def nat_less_iff)
qed

lemma jump_target_ok:
  assumes "good c" "current_cell c = Inr cell" "cell_id cell \<in> set jump_ids"
  obtains t where "jump_target c = Inr t" "idx_ok (cond c) t"
proof -
  have "cell_wf (length (program (cond c))) (nat (currIndex (cond c))) cell"
    by (rule current_cell_ok [OF assms(1)]) (simp add: assms(2))
  then obtain n where n: "cell_operand cell = ONum n" "n < int (length (program (cond c)))"
    using assms(3) by (auto simp: cell_wf_def split: operand.splits)
  have "idx_ok (cond c) (startIndex (cond c))" using good_cond [OF assms(1)] by (simp add: cond_ok_def)
  then show thesis
    using n assms(2) by (intro that [of "if n \<ge> 0 then n else startIndex (cond c)"])
      (simp_all add: jump_target_def idx_ok_def)
qed

lemma go_to_target_ok:
  assumes "good c" "current_cell c = Inr cell" "cell_id cell \<in> set jump_ids"
  obtains c' where "go_to_target c = stay c'" "good c'"
proof -
  obtain t where "jump_target c = Inr t" "idx_ok (cond c) t" by (rule jump_target_ok [OF assms])
  then show thesis
    using that [of "upd_cond (set_currIndex t) c"] good_upd_cond [OF assms(1)]
      cond_ok_set_currIndex [OF good_cond [OF assms(1)]]
    by (simp add: go_to_target_def)
qed

lemma okres_go_to_target:
  "good c \<Longrightarrow> current_cell c = Inr cell \<Longrightarrow> cell_id cell \<in> set jump_ids \<Longrightarrow> okres (go_to_target c)"
  by (rule go_to_target_ok) auto

lemma current_cell_frame [simp]:
  "current_cell (enter_call c) = current_cell c" "current_cell (upd_cond (upd_frame f) c) = current_cell c"
  by (simp_all add: current_cell_def cell_at_def enter_call_def)

lemma good_enter_call [wf_intros]: "good c \<Longrightarrow> good (enter_call c)"
  unfolding enter_call_def by (rule good_upd_cond) (auto intro: cond_ok_enter good_cond)

lemma good_leave_call: "good c \<Longrightarrow> 0 < stackDepth (cond c) \<Longrightarrow> good (leave_call c)"
  unfolding leave_call_def by (rule good_upd_cond) (auto intro: cond_ok_leave good_cond)

lemma hok_calls: "hok 3 op_GO_SUB" "hok 16 op_GO_STATE" "hok 17 op_GO_FUNC"
  by (auto simp: hok_def op_GO_SUB_def op_GO_STATE_def op_GO_FUNC_def Let_def jump_ids_def
      intro!: okres_go_to_target good_frame wf_intros)

lemma okres_then_stay:
  "okres r \<Longrightarrow> (\<And>c. good c \<Longrightarrow> good (f c)) \<Longrightarrow> okres (ebind r (\<lambda>(_, c). stay (f c)))"
  by (auto simp: okres_def stay_def)

lemma hok_jumps: "hok 27 op_GO_TO" "hok 33 op_IF_TRUE" "hok 34 op_IF_FALSE"
  by (auto simp: hok_def op_GO_TO_def op_IF_TRUE_def op_IF_FALSE_def Let_def jump_ids_def
      intro!: okres_then_stay okres_go_to_target wf_intros)

lemma hok_new_line: "hok 1 op_new_line"
  unfolding hok_def
proof (intro allI impI)
  fix e c cell assume g: "good c" and cell: "current_cell c = Inr cell" "cell_id cell = 1"
  let ?i = "currIndex (cond c)"
  have "cell_wf (length (program (cond c))) (nat ?i) cell"
    by (rule current_cell_ok [OF g]) (simp add: cell(1))
  then have "(nat ?i div 16 + 1) * 16 < length (program (cond c))"
    using cell(2) by (simp add: cell_wf_def)
  then have "int ((nat ?i div 16 + 1) * 16) < int (length (program (cond c)))" by (rule of_nat_less_iff [THEN iffD2])
  moreover have r: "0 \<le> ?i" using good_cond [OF g] by (simp add: cond_ok_def idx_ok_def)
  ultimately have "(?i div 16 + 1) * 16 < int (length (program (cond c)))" by (simp add: zdiv_int)
  moreover have "\<lfloor>of_int ?i / (of_int LineLength :: rat)\<rfloor> = ?i div 16"
    by (simp only: floor_divide_of_int_eq LineLength_def)
  ultimately show "okres (op_new_line e c)"
    using g r by (auto simp: op_new_line_def LineLength_def idx_ok_def
        intro!: good_upd_cond cond_ok_set_currIndex good_cond)
qed

lemma empty_scan_ok:
  "cond_ok p \<Longrightarrow> idx_ok p i \<Longrightarrow> \<exists>q. empty_scan p i = Inr q \<and> cond_ok q"
proof (induction p i rule: empty_scan.induct)
  case (1 p i)
  have st: "idx_ok p (startIndex p)" using "1.prems" by (simp add: cond_ok_def)
  show ?case
    using "1.prems" "1.IH" st
    by (subst empty_scan.simps) (auto simp: idx_ok_def intro!: cond_ok_set_currIndex cond_ok_index)
qed

lemma okh_empty: "okh op_empty"
  unfolding okh_def
proof (intro allI impI)
  fix e c assume g: "good c"
  have "idx_ok (cond c) (currIndex (cond c))" using good_cond [OF g] by (simp add: cond_ok_def)
  then obtain q where "empty_scan (cond c) (currIndex (cond c)) = Inr q" "cond_ok q"
    using empty_scan_ok good_cond [OF g] by blast
  then show "okres (op_empty e c)" by (auto simp: op_empty_def intro!: good_upd_cond g)
qed

lemma okh_simple [simp]:
  "okh op_nop" "okh (look_set f)" "okh (look_add f)" "okh (op_HAND b)" "okh (op_LOGIC m)"
  "okh op_FLIP" "okh (op_AUTODIGG b)" "okh (op_AGR b)" "okh (op_test t)" "okh op_start"
  by (auto simp: okh_def op_nop_def look_set_def look_add_def op_HAND_def op_LOGIC_def op_FLIP_def
      op_AUTODIGG_def op_AGR_def op_test_def op_start_def
      intro!: wf_intros good_upd_cond cond_ok_upd_frame cond_ok_start
      simp: good_cond dest: good_cond) (auto simp: cond_ok_def idx_ok_def dest!: good_cond)

lemma okh_by_rotation [simp]: "(\<And>f. okh (h f)) \<Longrightarrow> okh (by_rotation ds h)"
  by (auto simp: okh_def by_rotation_def Let_def)

lemma okh_look [simp]: "okh op_look_l" "okh op_look_r" "okh op_look_F" "okh op_look_f" "okh op_look_L" "okh op_look_R"
  by (simp_all add: op_look_l_def op_look_r_def op_look_F_def op_look_f_def op_look_L_def op_look_R_def)

lemma good_reset_program: "good c \<Longrightarrow> good (reset_program e c)"
  unfolding reset_program_def by (intro wf_intros good_upd_cond cond_ok_Reset) (auto dest: good_cond)

lemma okh_stop [simp]: "okh op_stop"
  by (auto simp: okh_def op_stop_def intro!: good_reset_program good_upd_cond dest: good_cond)

lemma okh_returns [simp]: "okh op_RETURN" "okh op_RETURN_FUNK" "okh op_RETURN_STATE"
  by (auto simp: okh_def op_RETURN_def op_RETURN_FUNK_def op_RETURN_STATE_def Let_def
      intro!: wf_intros good_leave_call good_frame)

lemma rotationIndex_ok: "rotation_ok b \<Longrightarrow> rotationIndex b = rotation b div 90 \<and> 0 \<le> rotationIndex b \<and> rotationIndex b < 4"
proof -
  assume "rotation_ok b"
  then have r: "rotation b = 0 \<or> rotation b = 90 \<or> rotation b = 180 \<or> rotation b = 270"
    by (auto simp: rotation_ok_def)
  have "\<lfloor>of_int (rotation b) / (90 :: rat)\<rfloor> = rotation b div 90"
    using floor_divide_of_int_eq [of "rotation b" 90] by simp
  then show ?thesis using r by (auto simp: rotationIndex_def js_rem_def)
qed

lemma set_rotationIndex_ok: "0 \<le> v \<Longrightarrow> rotation_ok (set_rotationIndex v b)"
proof -
  assume "0 \<le> v"
  then have "js_rem v 4 = v mod 4" "v mod 4 \<in> {0, 1, 2, 3}" by (auto simp: js_rem_nonneg)
  then show ?thesis by (auto simp: rotation_ok_def set_rotationIndex_def)
qed

lemma ctx_ok_set_rotationIndex: "ctx_ok c \<Longrightarrow> 0 \<le> v \<Longrightarrow> ctx_ok (upd_bot (set_rotationIndex v) c)"
  by (rule ctx_ok_upd_bot) (auto simp: set_rotationIndex_ok dest: ctx_okD, auto simp: set_rotationIndex_def dest: ctx_okD)

lemma good_set_rotationIndex: "good c \<Longrightarrow> 0 \<le> v \<Longrightarrow> good (upd_bot (set_rotationIndex v) c)"
  by (rule good_action) (auto intro: ctx_ok_set_rotationIndex good_ctx simp: set_rotationIndex_def)

lemma good_turn_by: "good c \<Longrightarrow> 0 \<le> k \<Longrightarrow> good (turn_by k c)"
proof -
  assume g: "good c" and k: "0 \<le> k"
  have "0 \<le> rotationIndex (cbot c)" using rotationIndex_ok ctx_okD [OF good_ctx [OF g]] by blast
  then have "good (upd_bot (set_rotationIndex (rotationIndex (cbot c) + k)) c)"
    using k g by (intro good_set_rotationIndex) auto
  then show ?thesis by (simp add: turn_by_def upd_bot_def)
qed

lemma good_Digg [wf_intros]: "good c \<Longrightarrow> good (snd (Digg e fu c))"
  by (rule good_action) (auto intro: wf_intros good_ctx)

lemma good_actions [wf_intros]:
  "good c \<Longrightarrow> good (Rotate e s fu wcd c)" "good c \<Longrightarrow> good (SetBlock e fu c)"
  "good c \<Longrightarrow> good (SetRoad e fu c)" "good c \<Longrightarrow> good (SetWB e fu c)" "good c \<Longrightarrow> good (SetQuadro e fu c)"
  "good c \<Longrightarrow> good (UseGeo e fu c)" "good c \<Longrightarrow> good (Heal e fu c)"
  by (simp_all add: good_def wf_intros)

lemma side_blocks: "rotation_ok (cbot c) \<Longrightarrow> (\<exists>t. BlockLeft c = Some t) \<and> (\<exists>t. BlockRight c = Some t)"
proof -
  assume "rotation_ok (cbot c)"
  then have "rotationIndex (cbot c) \<in> {0, 1, 2, 3}" using rotationIndex_ok [of "cbot c"] by auto
  then show ?thesis by (auto simp: BlockLeft_def BlockRight_def Let_def split: prod.splits)
qed

lemma okh_macros [simp]: "okh op_MACROS_DIGG" "okh op_MACROS_BLOCK" "okh op_MACROS_HEAL"
  by (auto simp: okh_def op_MACROS_DIGG_def op_MACROS_BLOCK_def op_MACROS_HEAL_def Let_def intro!: wf_intros)

lemma okh_dig_around [simp]: "okh op_MACROS_DIGG_AROUND"
  unfolding okh_def
proof (intro allI impI)
  fix e c assume g: "good c"
  define cache where "cache = (case MACROS_rotate_cache (cond c) of None \<Rightarrow> rotationIndex (cbot c) | Some r \<Rightarrow> r)"
  define c1 where "c1 = upd_bot (set_rotationIndex cache) (upd_cond (\<lambda>p. p\<lparr>MACROS_rotate_cache := Some cache\<rparr>) c)"
  have "0 \<le> cache \<and> cache < 4"
    using good_cond [OF g] rotationIndex_ok [of "cbot c"] ctx_okD [OF good_ctx [OF g]]
    by (auto simp: cache_def cond_ok_def split: option.splits)
  then have g1: "good c1"
    unfolding c1_def by (intro good_set_rotationIndex good_upd_cond cond_ok_cache g good_cond) auto
  then obtain l r where "BlockLeft c1 = Some l" "BlockRight c1 = Some r"
    using side_blocks ctx_okD [OF good_ctx [OF g1]] by blast
  moreover have "good (macro_cd e (upd_cond (\<lambda>p. p\<lparr>MACROS_rotate_cache := None\<rparr>) c1))"
    using g1 by (intro wf_intros good_upd_cond cond_ok_cache good_cond) auto
  ultimately show "okres (op_MACROS_DIGG_AROUND e c)"
    using g g1 unfolding op_MACROS_DIGG_AROUND_def Let_def cache_def [symmetric] c1_def [symmetric]
    by (auto simp: block_is_cry_def intro!: wf_intros good_turn_by)
qed

lemma good_set_variable [wf_intros]: "good c \<Longrightarrow> good (set_variable x v c)"
  unfolding set_variable_def
  by (rule good_upd_cond) (auto simp: SetValueToVariable_def dest: good_cond)

lemma good_PComands [wf_intros]: "good c \<Longrightarrow> good (PComands e n d c)"
  by (auto simp: PComands_def Let_def intro!: wf_intros)

lemma okres_cell:
  "good c \<Longrightarrow> (\<And>cell. okres (f cell)) \<Longrightarrow> okres (ebind (current_cell c) f)"
  by (erule current_cell_ok) simp

lemma okh_vars [simp]: "okh op_VAR_EQUAL" "okh op_VAR_MORE" "okh op_VAR_LESS"
proof -
  have new: "good (upd_cond (\<lambda>p. p\<lparr>uservariables := (uservariables p)(x \<mapsto> d)\<rparr>) c)" if "good c" for x d c
    using that by (intro good_upd_cond) (auto dest: good_cond)
  have order: "okh (var_order rel)" for rel
    by (auto simp: okh_def var_order_def Let_def intro!: okres_cell wf_intros)
  show "okh op_VAR_EQUAL"
    by (auto simp: okh_def op_VAR_EQUAL_def Let_def split: operand.splits intro!: okres_cell wf_intros new)
  show "okh op_VAR_MORE" "okh op_VAR_LESS" by (simp_all add: op_VAR_MORE_def op_VAR_LESS_def order)
qed

definition okact :: "(env \<Rightarrow> ctx \<Rightarrow> ctx result) \<Rightarrow> bool" where
  "okact act \<longleftrightarrow> (\<forall>e c. good c \<longrightarrow> (\<exists>c'. act e c = Inr c' \<and> good c'))"

lemma okh_when_ready [simp]: "okact act \<Longrightarrow> okh (when_ready act)"
  unfolding okh_def okact_def
proof (intro allI impI)
  fix e c assume act: "\<forall>e c. good c \<longrightarrow> (\<exists>c'. act e c = Inr c' \<and> good c')" and g: "good c"
  then obtain c' where "act e c = Inr c'" "good c'" by blast
  then show "okres (when_ready act e c)" using g by (simp add: when_ready_def)
qed

lemma okact_move [simp]: "okact (do_move s f)"
  unfolding okact_def
proof (intro allI impI)
  fix e c assume g: "good c"
  obtain r c' where "Move e (if mode_flip (cond c) then f else s) False c = Inr (r, c')" "ctx_ok c'" "cond c' = cond c"
    using Move_ok [OF good_ctx [OF g]] by metis
  then show "\<exists>c'. do_move s f e c = Inr c' \<and> good c'"
    using good_reset_view [OF good_action [OF g]] by (simp add: do_move_def)
qed

lemma good_rotate_index [wf_intros]: "good c \<Longrightarrow> good (rotate_index n e c)"
  by (auto simp: rotate_index_def split: option.splits intro: wf_intros)

lemma okact_pure: "(\<And>e c. good c \<Longrightarrow> good (f e c)) \<Longrightarrow> okact (\<lambda>e c. Inr (f e c))"
  by (simp add: okact_def)

lemma okact_simple [simp]:
  "okact (do_rotate s f)" "okact (do_turn k m)"
  "okact (\<lambda>e c. Inr (snd (Digg e False c)))" "okact (\<lambda>e c. Inr (SetBlock e False c))"
  "okact (\<lambda>e c. Inr (UseGeo e False c))" "okact (\<lambda>e c. Inr (SetWB e False c))"
  "okact (\<lambda>e c. Inr (SetRoad e False c))" "okact (\<lambda>e c. Inr (Heal e False c))"
  "okact (\<lambda>e c. Inr (SetQuadro e False c))" "okact (\<lambda>e c. Inr (rotate_index (RandInt (draw e) 0 3) e c))"
  by (auto simp: okact_def do_rotate_def do_turn_def intro!: wf_intros)

lemma okh_digg [simp]: "okh op_digg" "okh op_rotate_random"
  by (simp_all add: op_digg_def op_rotate_random_def)

lemma length_ExecutorList: "length ExecutorList = 111"
  by (simp add: ExecutorList_def Executor_0_15_def Executor_16_34_def Executor_35_50_def
      Executor_51_86_def Executor_87_110_def)

lemma hok_okh [simp]: "okh h \<Longrightarrow> hok k h"
  by (rule okh_hok)

lemma hok_table: "list_all (\<lambda>(i, h). hok (int i) h) (enumerate 0 ExecutorList)"
  by (simp add: ExecutorList_def Executor_0_15_def Executor_16_34_def Executor_35_50_def
      Executor_51_86_def Executor_87_110_def okh_empty hok_calls hok_jumps hok_new_line)

lemma handler_ok: "i < 111 \<Longrightarrow> hok (int i) (ExecutorList ! i)"
  using hok_table by (auto simp: list_all_iff in_set_enumerate_eq length_ExecutorList)

lemma exec_bot_ok:
  assumes "good c"
  shows "\<exists>c'. exec_bot e c = Inr c' \<and> good c'"
proof (cases "isExecute (cond c)")
  case True
  obtain cell where cell: "current_cell c = Inr cell"
      "cell_wf (length (program (cond c))) (nat (currIndex (cond c))) cell"
    by (rule current_cell_ok [OF assms])
  then have id: "0 \<le> cell_id cell" "cell_id cell < 111" by (simp_all add: cell_wf_def)
  then have "hok (cell_id cell) (ExecutorList ! nat (cell_id cell))"
    using handler_ok [of "nat (cell_id cell)"] by simp
  then obtain b c1 where h: "(ExecutorList ! nat (cell_id cell)) e c = Inr (b, c1)" "good c1"
    using assms cell(1) unfolding hok_def okres_def by blast
  have "good (upd_cond advance c1)" by (intro good_upd_cond h cond_ok_advance good_cond)
  then show ?thesis using True cell(1) id h by (simp add: exec_bot_def length_ExecutorList)
qed (simp add: exec_bot_def assms)

section \<open>What fast cells leave alone\<close>

definition keeps_world :: "ctx \<Rightarrow> ctx \<Rightarrow> bool" where
  "keeps_world c c' \<longleftrightarrow> cmap c' = cmap c \<and> cidx c' = cidx c
     \<and> (\<exists>p m. cbot c' = (cbot c)\<lparr>programCondition := p, bot_mode := m\<rparr>)"

definition pure_r :: "ctx \<Rightarrow> (bool \<times> ctx) result \<Rightarrow> bool" where
  "pure_r c r \<longleftrightarrow> (\<forall>b c'. r = Inr (b, c') \<longrightarrow> keeps_world c c')"

definition pure_h :: "handler \<Rightarrow> bool" where
  "pure_h h \<longleftrightarrow> (\<forall>e c. pure_r c (h e c))"

lemma keeps_world_refl [simp]: "keeps_world c c"
  unfolding keeps_world_def by (intro conjI exI [of _ "cond c"] exI [of _ "bot_mode (cbot c)"]) simp_all

lemma keeps_world_upd_cond [simp]:
  assumes "keeps_world c d"
  shows "keeps_world c (upd_cond f d)"
proof -
  obtain p m where d: "cbot d = (cbot c)\<lparr>programCondition := p, bot_mode := m\<rparr>"
    using assms by (auto simp: keeps_world_def)
  have "cbot (upd_cond f d) = (cbot c)\<lparr>programCondition := f p, bot_mode := m\<rparr>"
    by (simp add: upd_cond_def d)
  then show ?thesis using assms unfolding keeps_world_def by auto
qed

lemma keeps_world_upd_mode [simp]:
  assumes "keeps_world c d"
  shows "keeps_world c (upd_mode f d)"
proof -
  obtain p m where d: "cbot d = (cbot c)\<lparr>programCondition := p, bot_mode := m\<rparr>"
    using assms by (auto simp: keeps_world_def)
  have "cbot (upd_mode f d) = (cbot c)\<lparr>programCondition := p, bot_mode := f m\<rparr>"
    by (simp add: upd_mode_def d)
  then show ?thesis using assms unfolding keeps_world_def by auto
qed

lemmas cond_only_defs = set_hand_def reset_program_def set_variable_def PComands_def set_logic_def
  reset_view_def compare_def remember_def enter_call_def leave_call_def

lemma pure_r_done [simp]: "pure_r c (continue d) = keeps_world c d" "pure_r c (stay d) = keeps_world c d"
  by (auto simp: pure_r_def continue_def stay_def)

lemma pure_r_goto [simp]: "keeps_world c d \<Longrightarrow> pure_r c (go_to_target d)"
  by (cases "jump_target d") (auto simp: go_to_target_def pure_r_def stay_def)

lemma pure_r_then: "pure_r c r \<Longrightarrow> (\<And>d. keeps_world c d \<Longrightarrow> keeps_world c (f d)) \<Longrightarrow>
    pure_r c (ebind r (\<lambda>(_, d). stay (f d)))"
  by (cases r) (auto simp: pure_r_def stay_def)

lemma pure_r_bind: "(\<And>x. pure_r c (f x)) \<Longrightarrow> pure_r c (ebind r f)"
  by (cases r) (auto simp: pure_r_def)

lemma pure_simple [simp]:
  "pure_h op_empty" "pure_h op_new_line" "pure_h op_nop" "pure_h (look_set f)" "pure_h (look_add f)"
  "pure_h op_start" "pure_h op_stop" "pure_h (op_HAND v)" "pure_h (op_LOGIC m)" "pure_h op_FLIP"
  "pure_h (op_AUTODIGG v)" "pure_h (op_AGR v)" "pure_h (op_test t)"
  by (auto simp: pure_h_def op_empty_def op_new_line_def op_nop_def look_set_def look_add_def op_start_def
      op_stop_def op_HAND_def op_LOGIC_def op_FLIP_def op_AUTODIGG_def op_AGR_def op_test_def
      cond_only_defs intro!: pure_r_bind)

lemma pure_rotation [simp]: "(\<And>f. pure_h (h f)) \<Longrightarrow> pure_h (by_rotation ds h)"
  by (auto simp: pure_h_def by_rotation_def Let_def)

lemma pure_look [simp]:
  "pure_h op_look_l" "pure_h op_look_r" "pure_h op_look_F" "pure_h op_look_f" "pure_h op_look_L" "pure_h op_look_R"
  by (simp_all add: op_look_l_def op_look_r_def op_look_F_def op_look_f_def op_look_L_def op_look_R_def)

lemma pure_jumps [simp]:
  "pure_h op_GO_SUB" "pure_h op_GO_STATE" "pure_h op_GO_FUNC" "pure_h op_GO_TO" "pure_h op_IF_TRUE"
  "pure_h op_IF_FALSE"
  by (auto simp: pure_h_def op_GO_SUB_def op_GO_STATE_def op_GO_FUNC_def op_GO_TO_def op_IF_TRUE_def
      op_IF_FALSE_def Let_def cond_only_defs intro!: pure_r_then)

lemma pure_returns [simp]: "pure_h op_RETURN" "pure_h op_RETURN_FUNK" "pure_h op_RETURN_STATE"
  by (simp_all add: pure_h_def op_RETURN_def op_RETURN_FUNK_def op_RETURN_STATE_def Let_def cond_only_defs)

lemma pure_PComands: "keeps_world c (PComands e n d c)"
  by (simp add: PComands_def set_variable_def Let_def)

lemma pure_vars [simp]: "pure_h op_VAR_EQUAL" "pure_h op_VAR_MORE" "pure_h op_VAR_LESS"
  by (auto simp: pure_h_def op_VAR_EQUAL_def op_VAR_MORE_def op_VAR_LESS_def var_order_def Let_def
      compare_def remember_def pure_PComands split: operand.splits intro!: pure_r_bind)

lemma fast_table: "list_all (\<lambda>(fast, h). fast \<longrightarrow> pure_h h) (zip IsOperationFast ExecutorList)"
  by (simp add: IsOperationFast_def ExecutorList_def Executor_0_15_def Executor_16_34_def
      Executor_35_50_def Executor_51_86_def Executor_87_110_def)

section \<open>Other bots\<close>

definition framed :: "handler \<Rightarrow> bool" where
  "framed h \<longleftrightarrow> (\<forall>e c b c'. good c \<longrightarrow> h e c = Inr (b, c') \<longrightarrow> idx_frame c c')"

lemma keeps_world_idx_frame: "keeps_world c c' \<Longrightarrow> idx_frame c c'"
  by (auto simp: keeps_world_def idx_frame_def)

lemma framed_pure [simp]: "pure_h h \<Longrightarrow> framed h"
  by (auto simp: pure_h_def pure_r_def framed_def intro: keeps_world_idx_frame)

lemma idx_frame_bot [simp]:
  "idx_frame c (upd_cond f d) = idx_frame c d" "idx_frame c (macro_cd e d) = idx_frame c d"
  "idx_frame c (upd_bot (set_rotationIndex v) d) = idx_frame c d" "idx_frame c (turn_by k d) = idx_frame c d"
  by (simp_all add: idx_frame_def upd_cond_def macro_cd_def set_rotationIndex_def turn_by_def)

lemma idx_frame_after [simp]:
  "idx_frame c d \<Longrightarrow> idx_frame c (snd (Digg e fu d))" "idx_frame c d \<Longrightarrow> idx_frame c (SetBlock e fu d)"
  "idx_frame c d \<Longrightarrow> idx_frame c (Heal e fu d)"
  by (simp_all add: idx_frame_trans [OF _ idx_frame_actions(2)] idx_frame_trans [OF _ idx_frame_actions(4)]
      idx_frame_trans [OF _ idx_frame_actions(9)])

lemma framed_macros [simp]: "framed op_MACROS_DIGG" "framed op_MACROS_BLOCK" "framed op_MACROS_HEAL"
    "framed op_MACROS_DIGG_AROUND"
  by (auto simp: framed_def op_MACROS_DIGG_def op_MACROS_BLOCK_def op_MACROS_HEAL_def
      op_MACROS_DIGG_AROUND_def Let_def continue_def stay_def ebind_eq_Inr split: if_splits)

definition framed_act :: "(env \<Rightarrow> ctx \<Rightarrow> ctx result) \<Rightarrow> bool" where
  "framed_act act \<longleftrightarrow> (\<forall>e c c'. good c \<longrightarrow> act e c = Inr c' \<longrightarrow> idx_frame c c')"

lemma framed_when_ready [simp]: "framed_act act \<Longrightarrow> framed (when_ready act)"
  by (auto simp: framed_def framed_act_def when_ready_def continue_def stay_def ebind_eq_Inr split: if_splits)

lemma framed_move [simp]: "framed_act (do_move s f)"
  unfolding framed_act_def
proof (intro allI impI)
  fix e c c' assume g: "good c" and m: "do_move s f e c = Inr c'"
  obtain r d where "Move e (if mode_flip (cond c) then f else s) False c = Inr (r, d)" "idx_frame c d"
    using Move_ok [OF good_ctx [OF g]] by metis
  then show "idx_frame c c'" using m by (auto simp: do_move_def reset_view_def)
qed

lemma framed_acts [simp]:
  "framed_act (do_rotate s f)" "framed_act (do_turn k m)"
  "framed_act (\<lambda>e c. Inr (snd (Digg e False c)))" "framed_act (\<lambda>e c. Inr (SetBlock e False c))"
  "framed_act (\<lambda>e c. Inr (UseGeo e False c))" "framed_act (\<lambda>e c. Inr (SetWB e False c))"
  "framed_act (\<lambda>e c. Inr (SetRoad e False c))" "framed_act (\<lambda>e c. Inr (Heal e False c))"
  "framed_act (\<lambda>e c. Inr (SetQuadro e False c))"
  "framed_act (\<lambda>e c. Inr (rotate_index (RandInt (draw e) 0 3) e c))"
  by (auto simp: framed_act_def do_rotate_def do_turn_def reset_view_def rotate_index_def split: option.splits)

lemma framed_slow [simp]: "framed op_digg" "framed op_rotate_random"
  by (simp_all add: op_digg_def op_rotate_random_def)

lemma framed_table: "list_all framed ExecutorList"
  by (simp add: ExecutorList_def Executor_0_15_def Executor_16_34_def
      Executor_35_50_def Executor_51_86_def Executor_87_110_def)

lemma exec_bot_frame:
  assumes "good c" "exec_bot e c = Inr c'"
  shows "idx_frame c c'"
  using assms framed_table
  by (auto simp: exec_bot_def ebind_eq_Inr list_all_length framed_def split: if_splits) (metis idx_frame_bot(1) nat_less_iff)+

section \<open>Bots without a program\<close>

text \<open>
  A new bot holds the one empty cell of \<open>TESTPROGRAM\<close>, which is not a whole line: running it stays
  at that cell.
\<close>

definition blank_prog :: "prog_condition \<Rightarrow> bool" where
  "blank_prog p \<longleftrightarrow> program p = TESTPROGRAM \<and> currIndex p = 0 \<and> startIndex p = 0 \<and> frames_ok p"

definition fine :: "ctx \<Rightarrow> bool" where
  "fine c \<longleftrightarrow> ctx_ok c \<and> (cond_ok (cond c) \<or> blank_prog (cond c))"

lemma good_fine: "good c \<Longrightarrow> fine c"
  by (simp add: good_def fine_def)

lemma fine_ctx: "fine c \<Longrightarrow> ctx_ok c"
  by (simp add: fine_def)

lemma fine_action: "fine c \<Longrightarrow> ctx_ok c' \<Longrightarrow> cond c' = cond c \<Longrightarrow> fine c'"
  by (simp add: fine_def)

lemma blank_Reset: "blank_prog p \<Longrightarrow> blank_prog (Reset t p)"
  by (auto simp: blank_prog_def Reset_def Let_def set_currIndex_def frames_ok_def)

lemma blank_flags [simp]:
  "blank_prog (p\<lparr>isExecute := b\<rparr>) = blank_prog p" "blank_prog (p\<lparr>isHandModeActive := b\<rparr>) = blank_prog p"
  by (simp_all add: blank_prog_def frames_ok_def)

lemma exec_blank:
  assumes "blank_prog (cond c)"
  shows "exec_bot e c = Inr (if isExecute (cond c) then upd_cond (set_currIndex 0) c else c)"
proof (cases "isExecute (cond c)")
  case True
  have len: "length (program (cond c)) = 1" "cell_id (program (cond c) ! 0) = 0"
    using assms by (simp_all add: blank_prog_def TESTPROGRAM_def)
  have i: "currIndex (cond c) = 0" "startIndex (cond c) = 0" using assms by (simp_all add: blank_prog_def)
  have "empty_scan (cond c) 0 = Inr (set_currIndex 0 (cond c))"
    by (subst empty_scan.simps) (simp add: len i LineLength_def)
  moreover have "ExecutorList ! 0 = op_empty" by (simp add: ExecutorList_def Executor_0_15_def)
  ultimately show ?thesis
    using True by (simp add: exec_bot_def current_cell_def cell_at_def len i length_ExecutorList op_empty_def stay_def upd_cond_def upd_bot_def)
qed (simp add: exec_bot_def)

lemma exec_fine:
  assumes "fine c"
  shows "\<exists>c'. exec_bot e c = Inr c' \<and> fine c' \<and> idx_frame c c'"
proof (cases "cond_ok (cond c)")
  case True
  then have "good c" using assms by (simp add: fine_def good_def)
  then show ?thesis using exec_bot_ok exec_bot_frame good_fine by blast
next
  case False
  then have b: "blank_prog (cond c)" using assms by (simp add: fine_def)
  have "blank_prog (set_currIndex 0 (cond c))" using b by (simp add: blank_prog_def set_currIndex_def frames_ok_def)
  then have "fine (upd_cond (set_currIndex 0) c)" using assms by (simp add: fine_def ctx_ok_upd_cond)
  then show ?thesis using exec_blank [OF b] assms by simp
qed

section \<open>The whole game\<close>

definition bot_ctx :: "game \<Rightarrow> nat \<Rightarrow> ctx" where
  "bot_ctx g i = \<lparr>cmap = g_map g, cidx = g_index g, cbot = g_bots g ! i\<rparr>"

definition game_ok :: "game \<Rightarrow> bool" where
  "game_ok g \<longleftrightarrow> distinct (map bot_id (g_bots g)) \<and> (\<forall>i < length (g_bots g). fine (bot_ctx g i))"

lemma ctx_eta: "\<lparr>cmap = cmap c, cidx = cidx c, cbot = cbot c\<rparr> = (c :: ctx)"
  by (cases c) simp

text \<open>Putting a bot back after an action that kept its own invariant keeps the invariant of all.\<close>

lemma game_ok_put:
  assumes "game_ok g" "i < length (g_bots g)" "fine c" "idx_frame (bot_ctx g i) c"
  shows "game_ok (g\<lparr>g_map := cmap c, g_index := cidx c, g_bots := (g_bots g)[i := cbot c]\<rparr>)"
    and "map bot_id ((g_bots g)[i := cbot c]) = map bot_id (g_bots g)"
    and "map inventory ((g_bots g)[i := cbot c]) = map inventory (g_bots g)"
proof -
  let ?g = "g\<lparr>g_map := cmap c, g_index := cidx c, g_bots := (g_bots g)[i := cbot c]\<rparr>"
  show ids: "map bot_id ((g_bots g)[i := cbot c]) = map bot_id (g_bots g)"
    using assms(2,4) by (simp add: map_update idx_frame_def bot_ctx_def list_update_same_conv)
  show "map inventory ((g_bots g)[i := cbot c]) = map inventory (g_bots g)"
    using assms(2,4) by (simp add: map_update idx_frame_def bot_ctx_def list_update_same_conv)
  have "fine (bot_ctx ?g j)" if j: "j < length (g_bots g)" for j
  proof (cases "j = i")
    case True
    then show ?thesis using assms(2,3) by (simp add: bot_ctx_def ctx_eta)
  next
    case False
    have gj: "fine (bot_ctx g j)" using assms(1) j by (simp add: game_ok_def)
    have "bot_id (g_bots g ! j) \<noteq> bot_id (g_bots g ! i)"
      using assms(1,2) j False by (auto simp: game_ok_def distinct_conv_nth)
    then show ?thesis
      using gj assms(3,4) False
      by (simp add: fine_def ctx_ok_def ctx_pre_def filed_at_def bot_ctx_def idx_frame_def
          del: split_paired_All)
  qed
  then show "game_ok ?g" using ids assms(1) by (simp add: game_ok_def)
qed

lemma exec_nth_ok:
  assumes "game_ok g" "i < length (g_bots g)"
  shows "\<exists>g'. exec_nth e i g = Inr g' \<and> game_ok g' \<and> map bot_id (g_bots g') = map bot_id (g_bots g)
    \<and> map inventory (g_bots g') = map inventory (g_bots g) \<and> width (g_map g') = width (g_map g) \<and> height (g_map g') = height (g_map g)"
proof -
  have "fine (bot_ctx g i)" using assms by (simp add: game_ok_def)
  then obtain c where c: "exec_bot e (bot_ctx g i) = Inr c" "fine c" and fr: "idx_frame (bot_ctx g i) c"
    using exec_fine by blast
  then have "width (cmap c) = width (g_map g)" "height (cmap c) = height (g_map g)"
    by (simp_all add: idx_frame_def bot_ctx_def)
  then show ?thesis
    using c(1) game_ok_put [OF assms c(2) fr] by (simp add: exec_nth_def bot_ctx_def)
qed

lemma exec_from_ok:
  "game_ok g \<Longrightarrow> \<forall>i \<in> set ks. i < length (g_bots g) \<Longrightarrow> \<exists>g'. exec_from es ks g = Inr g' \<and> game_ok g'
    \<and> map bot_id (g_bots g') = map bot_id (g_bots g) \<and> map inventory (g_bots g') = map inventory (g_bots g)
    \<and> width (g_map g') = width (g_map g) \<and> height (g_map g') = height (g_map g)"
proof (induction ks arbitrary: g)
  case (Cons i ks)
  then obtain g1 where "exec_nth (es i) i g = Inr g1" "game_ok g1" "map bot_id (g_bots g1) = map bot_id (g_bots g)"
      "map inventory (g_bots g1) = map inventory (g_bots g)" "width (g_map g1) = width (g_map g)" "height (g_map g1) = height (g_map g)"
    using exec_nth_ok [of g i "es i"] by (auto simp del: exec_nth_def)
  moreover from this have "length (g_bots g1) = length (g_bots g)" by (metis length_map)
  ultimately show ?case using Cons.IH [of g1] Cons.prems(2) by simp
qed simp

section \<open>Properties\<close>

text \<open>
  (C1) A tick of the executor is safe: if every bot runs a well-formed compiled program or none, \<open>Execute\<close>
  neither raises nor breaks anything. After it the programs are at valid cells with a valid call
  stack, the map is well formed, every bot is filed in the index where it stands.
\<close>

theorem Execute_safe:
  assumes "game_ok g"
  shows "\<exists>g'. Execute es g = Inr g' \<and> game_ok g'"
  unfolding Execute_def using exec_from_ok [OF assms, of "[0..<length (g_bots g)]"] by auto

definition demo_cell :: "int \<Rightarrow> int \<Rightarrow> prog_cell" where
  "demo_cell k n = \<lparr>cell_id = k, cell_operand = ONum n, cell_number = JNum 0\<rparr>"

definition demo_program :: "prog_cell list \<Rightarrow> ctx" where
  "demo_program cells = upd_cond (\<lambda>p. p\<lparr>program := cells, isExecute := True\<rparr>) (demo_ctx 1 1)"

definition line_of :: "prog_cell list \<Rightarrow> prog_cell list" where
  "line_of cells = cells @ replicate (16 - length cells) (demo_cell 0 0)"

lemma demo_good:
  assumes "program_wf cells"
  shows "good (demo_program cells)"
  using assms ctx_ok_upd_cond [OF demo_ctx_ok]
  by (simp add: good_def demo_program_def cond_ok_def demo_ctx_def new_Bot_def ProgramCondition_def
      idx_ok_def frames_ok_def program_wf_def)

lemma line_wf:
  assumes "length cells \<le> 16" "\<forall>i < length cells. cell_wf 16 i (cells ! i)"
  shows "program_wf (line_of cells)"
  using assms
  by (auto simp: program_wf_def line_of_def nth_append cell_wf_def demo_cell_def jump_ids_def nth_Cons')

theorem Execute_safe_witness:
  "\<exists>g'. Execute (\<lambda>_. demo_env)
     \<lparr>g_map = cmap (demo_ctx 1 1), g_index = cidx (demo_ctx 1 1),
      g_bots = [cbot (demo_program (line_of [demo_cell 62 0, demo_cell 27 0]))]\<rparr> = Inr g' \<and> game_ok g'"
proof (rule Execute_safe)
  have "program_wf (line_of [demo_cell 62 0, demo_cell 27 0])"
    by (rule line_wf) (auto simp: cell_wf_def demo_cell_def jump_ids_def less_Suc_eq)
  note g = demo_good [OF this]
  let ?d = "demo_program (line_of [demo_cell 62 0, demo_cell 27 0])"
  let ?g = "\<lparr>g_map = cmap (demo_ctx 1 1), g_index = cidx (demo_ctx 1 1), g_bots = [cbot ?d]\<rparr>"
  have "cmap ?d = cmap (demo_ctx 1 1)" "cidx ?d = cidx (demo_ctx 1 1)" by (simp_all add: demo_program_def)
  then have "bot_ctx ?g 0 = ?d" using ctx_eta [of ?d] by (simp add: bot_ctx_def)
  then show "game_ok ?g" using g by (simp add: game_ok_def good_fine)
qed

text \<open>
  (C19) Cells marked fast touch nothing but the program: whatever their outcome, they leave the map,
  the index of the bots and the bot itself (place, direction, cooldown, hold) as they were, except
  for its program condition and its mode switches.
\<close>

theorem fast_cells_pure:
  assumes "i < 111" "IsOperationFast ! i" "(ExecutorList ! i) e c = Inr (b, c')"
  shows "cmap c' = cmap c \<and> cidx c' = cidx c
    \<and> (\<exists>p m. cbot c' = (cbot c)\<lparr>programCondition := p, bot_mode := m\<rparr>)"
proof -
  have "length IsOperationFast = 111" by (simp add: IsOperationFast_def)
  then have "(IsOperationFast ! i, ExecutorList ! i) \<in> set (zip IsOperationFast ExecutorList)"
    using assms(1) by (auto simp: in_set_zip length_ExecutorList)
  then have "pure_h (ExecutorList ! i)" using fast_table assms(2) by (fastforce simp: list_all_iff)
  then have "keeps_world c c'" using assms(3) by (simp add: pure_h_def pure_r_def)
  then show ?thesis by (simp add: keeps_world_def)
qed

theorem fast_cells_pure_witness:
  "cmap (snd (projr ((ExecutorList ! 42) demo_env (demo_ctx 1 1)))) = cmap (demo_ctx 1 1)"
proof -
  have h: "ExecutorList ! 42 = op_FLIP"
    by (simp add: ExecutorList_def Executor_0_15_def Executor_16_34_def Executor_35_50_def)
  obtain b c' where r: "(ExecutorList ! 42) demo_env (demo_ctx 1 1) = Inr (b, c')"
    by (auto simp: h op_FLIP_def continue_def)
  have "IsOperationFast ! 42" by (simp add: IsOperationFast_def)
  with fast_cells_pure [OF _ _ r] show ?thesis by (simp add: r)
qed

section \<open>Calls and returns\<close>

lemma live_frames_index [simp]: "live_frames (set_currIndex i p) = live_frames p"
    "frames_ok (set_currIndex i p) = frames_ok p" "stackDepth (set_currIndex i p) = stackDepth p"
  by (simp_all add: live_frames_def frames_ok_def set_currIndex_def)

lemma stackDepth_frame [simp]: "stackDepth (upd_frame f p) = stackDepth p"
    "stackDepth (push_frame p) = Suc (stackDepth p)" "stackDepth (leave_frame p) = stackDepth p - 1"
  by (simp_all add: upd_frame_def push_frame_def leave_frame_def Let_def)

lemma live_frames_enter_call:
  "frames_ok (cond c) \<Longrightarrow> live_frames (cond (enter_call c)) =
     fresh_frame\<lparr>returnIndex := currIndex (cond c)\<rparr> # live_frames (cond c)"
  using hd_live_frames [of "push_frame (cond c)"]
  by (simp add: enter_call_def live_frames_upd live_frames_push wf_intros)


lemma demo_call:
  "\<exists>b c1. op_GO_SUB demo_env (demo_program (line_of [demo_cell 3 5])) = Inr (b, c1)"
  by (auto simp: op_GO_SUB_def go_to_target_def jump_target_def current_cell_def cell_at_def enter_call_def
      demo_program_def line_of_def demo_cell_def stay_def demo_ctx_def new_Bot_def ProgramCondition_def)


text \<open>
  After \<open>stop\<close> the program is off and reset, but the executor still advances the index that was
  just reset: the index of a stopped program is 1, so switching the program on again without a
  reset starts it at the second cell.
\<close>

theorem stop_leaves_index_one:
  assumes "isExecute (cond c)" "current_cell c = Inr cell" "cell_id cell = 15"
  shows "\<exists>c'. exec_bot e c = Inr c' \<and> \<not> isExecute (cond c') \<and> stackDepth (cond c') = 0
    \<and> currIndex (cond c') = 1"
proof -
  have "ExecutorList ! 15 = op_stop"
    by (simp add: ExecutorList_def Executor_0_15_def)
  then have "exec_bot e c = Inr (upd_cond advance (reset_program e (upd_cond (\<lambda>p. p\<lparr>isExecute := False\<rparr>) c)))"
    using assms by (simp add: exec_bot_def op_stop_def continue_def length_ExecutorList)
  then show ?thesis
    by (simp add: reset_program_def set_hand_def Reset_def Let_def advance_def LineLength_def js_rem_def
        set_currIndex_def)
qed

theorem stop_leaves_index_one_witness:
  "\<exists>c'. exec_bot demo_env (demo_program (line_of [demo_cell 15 0])) = Inr c' \<and> currIndex (cond c') = 1"
proof -
  let ?c = "demo_program (line_of [demo_cell 15 0])"
  have "isExecute (cond ?c)" "current_cell ?c = Inr (demo_cell 15 0)" "cell_id (demo_cell 15 0) = 15"
    by (simp_all add: demo_program_def current_cell_def cell_at_def line_of_def demo_ctx_def new_Bot_def
        ProgramCondition_def demo_cell_def)
  from stop_leaves_index_one [OF this, of demo_env] show ?thesis by blast
qed

section \<open>The depth of the stack\<close>

fun run_bot :: "env \<Rightarrow> nat \<Rightarrow> ctx \<Rightarrow> ctx result" where
  "run_bot e 0 c = Inr c"
| "run_bot e (Suc n) c = ebind (exec_bot e c) (run_bot e n)"

lemma exec_GO_SUB:
  assumes "isExecute (cond c)" "current_cell c = Inr cell" "cell_id cell = 3" "cell_operand cell = ONum k" "0 \<le> k"
  shows "exec_bot e c = Inr (upd_cond (set_currIndex k) (enter_call c))"
proof -
  have "ExecutorList ! 3 = op_GO_SUB" by (simp add: ExecutorList_def Executor_0_15_def)
  then show ?thesis
    using assms by (simp add: exec_bot_def op_GO_SUB_def go_to_target_def jump_target_def stay_def
        length_ExecutorList)
qed

lemma enter_call_frame [simp]:
  "program (cond (enter_call c)) = program (cond c)" "isExecute (cond (enter_call c)) = isExecute (cond c)"
  "stackDepth (cond (enter_call c)) = Suc (stackDepth (cond c))" "currIndex (cond (enter_call c)) = currIndex (cond c)"
  by (simp_all add: enter_call_def) (simp_all add: upd_frame_def push_frame_def Let_def)

text \<open>
  The stack depth is not limited, whatever \<open>stackDepthMax\<close> says: a cell that calls itself
  deepens the stack by one in every tick, for ever.
\<close>

theorem stack_depth_unbounded:
  assumes "isExecute (cond c)" "current_cell c = Inr cell" "cell_id cell = 3"
    and "cell_operand cell = ONum (currIndex (cond c))" "0 \<le> currIndex (cond c)"
  shows "\<exists>c'. run_bot e n c = Inr c' \<and> stackDepth (cond c') = stackDepth (cond c) + n"
  using assms
proof (induction n arbitrary: c)
  case (Suc n)
  let ?c = "upd_cond (set_currIndex (currIndex (cond c))) (enter_call c)"
  have st: "exec_bot e c = Inr ?c" by (rule exec_GO_SUB [OF Suc.prems])
  have keep: "isExecute (cond ?c)" "currIndex (cond ?c) = currIndex (cond c)" "program (cond ?c) = program (cond c)"
      "stackDepth (cond ?c) = Suc (stackDepth (cond c))"
    using Suc.prems(1) by simp_all (simp add: set_currIndex_def)
  then have "current_cell ?c = current_cell c" unfolding current_cell_def cell_at_def by simp
  then have "current_cell ?c = Inr cell" using Suc.prems(2) by simp
  then obtain c' where "run_bot e n ?c = Inr c'" "stackDepth (cond c') = stackDepth (cond ?c) + n"
    using Suc.IH [of ?c] Suc.prems keep by auto
  then show ?case using st keep(4) by simp
qed simp

theorem stack_depth_unbounded_witness:
  "\<exists>c'. run_bot demo_env 501 (demo_program (line_of [demo_cell 3 0])) = Inr c'
     \<and> stackDepth (cond c') = 501 \<and> stackDepthMax (cond (demo_program (line_of [demo_cell 3 0]))) = 500"
proof -
  let ?c = "demo_program (line_of [demo_cell 3 0])"
  have f: "isExecute (cond ?c)" "current_cell ?c = Inr (demo_cell 3 0)" "cell_id (demo_cell 3 0) = 3"
      "cell_operand (demo_cell 3 0) = ONum (currIndex (cond ?c))" "0 \<le> currIndex (cond ?c)"
      "stackDepth (cond ?c) = 0" "stackDepthMax (cond ?c) = 500"
    by (simp_all add: demo_program_def current_cell_def cell_at_def line_of_def demo_ctx_def new_Bot_def
        ProgramCondition_def demo_cell_def)
  from stack_depth_unbounded [OF f(1-5), of demo_env 501] f(6,7) show ?thesis by auto
qed

section \<open>Empty cells, conditions, arithmetic\<close>



text \<open>
  The conditional jumps: after a test \<open>IF_TRUE\<close> leaves the line of cells exactly when the test
  failed and \<open>IF_FALSE\<close> exactly when it held; without a test \<open>IF_TRUE\<close> always jumps and \<open>IF_FALSE\<close>
  never does. Both switch the logic register off.
\<close>

theorem conditional_jumps:
  assumes "frames_ok (cond c)" "jump_target c = Inr t" "f = currentStack (cond c)"
  shows "\<exists>c1 c2. op_IF_TRUE e c = Inr (\<not> logicalValue f \<or> mode_logic f = LM_off, c1)
    \<and> currIndex (cond c1) = (if \<not> logicalValue f \<or> mode_logic f = LM_off then t else currIndex (cond c))
    \<and> op_IF_FALSE e c = Inr (logicalValue f \<and> mode_logic f \<noteq> LM_off, c2)
    \<and> currIndex (cond c2) = (if logicalValue f \<and> mode_logic f \<noteq> LM_off then t else currIndex (cond c))
    \<and> mode_logic (currentStack (cond c1)) = LM_off \<and> mode_logic (currentStack (cond c2)) = LM_off"
proof -
  have off: "mode_logic (currentStack (cond (set_logic LM_off d))) = LM_off" if "frames_ok (cond d)" for d
    using that by (simp add: set_logic_def upd_frame_def currentStack_def frames_ok_def)
  have idx: "currIndex (cond (set_logic LM_off d)) = currIndex (cond d)" for d by (simp add: set_logic_def)
  show ?thesis
    using assms off [of c] off [of "upd_cond (set_currIndex t) c"]
    by (auto simp: op_IF_TRUE_def op_IF_FALSE_def go_to_target_def Let_def stay_def continue_def idx)
qed

theorem conditional_jumps_witness:
  "\<exists>c1. op_IF_TRUE demo_env (demo_program (line_of [demo_cell 33 5])) = Inr (True, c1) \<and> currIndex (cond c1) = 5"
proof -
  let ?c = "demo_program (line_of [demo_cell 33 5])"
  have f: "frames_ok (cond ?c)" "mode_logic (currentStack (cond ?c)) = LM_off"
    by (simp_all add: frames_ok_def demo_program_def demo_ctx_def new_Bot_def ProgramCondition_def
        currentStack_def fresh_frame_def)
  have t: "jump_target ?c = Inr 5"
    by (simp add: jump_target_def current_cell_def cell_at_def demo_program_def line_of_def demo_cell_def
        demo_ctx_def new_Bot_def ProgramCondition_def)
  from conditional_jumps [OF f(1) t refl, of demo_env] f(2) show ?thesis by auto
qed

text \<open>
  Arithmetic on the last variable: when the variable set last is a user variable holding the
  number \<open>v\<close>, the commands \<open>SET\<close>, \<open>ADD\<close>, \<open>SUB\<close>, \<open>MUL\<close> with the number \<open>n\<close> leave \<open>n\<close>, \<open>v + n\<close>, \<open>v - n\<close>,
  \<open>v * n\<close> in it, and \<open>DIV\<close> the quotient truncated towards zero as a 32-bit integer, division by zero
  being division by one; no other variable changes.
\<close>

theorem arithmetic_commands:
  assumes "Younger (lastVariables (cond c)) = Some x" "isWriteble (Some x)" "uservariables (cond c) x = Some (JNum v)"
  shows "user_value (PComands e ''SET'' (JNum n) c) x = JNum n
    \<and> user_value (PComands e ''ADD'' (JNum n) c) x = JNum (v + n)
    \<and> user_value (PComands e ''SUB'' (JNum n) c) x = JNum (v - n)
    \<and> user_value (PComands e ''MUL'' (JNum n) c) x = JNum (v * n)
    \<and> user_value (PComands e ''DIV'' (JNum n) c) x = JNum (of_int (tilde2 (if n = 0 then v else v / n)))
    \<and> (y \<noteq> x \<longrightarrow> user_value (PComands e k (JNum n) c) y = user_value c y \<or> k \<in> {''AD2'', ''MU2'', ''DI2'', ''SU2''})"
proof -
  have ro: "\<not> is_readonly x" using assms(2) by (simp add: isWriteble_def)
  have val: "GetValueOfVariable e c x = JNum v" using ro assms(3) by (simp add: GetValueOfVariable_def user_value_def)
  have w: "user_value (set_variable x r c) z = (if z = x then r else user_value c z)" for r z
    using assms(3) by (simp add: set_variable_def user_value_def SetValueToVariable_def)
  show ?thesis
    using assms(1,2) by (auto simp: PComands_def Let_def pc1_def val w js_arith_def or_one_def)
qed

theorem arithmetic_commands_witness:
  "user_value (PComands demo_env ''ADD'' (JNum 2)
     (upd_cond (\<lambda>p. p\<lparr>uservariables := (uservariables p)(OStr ''a'' \<mapsto> JNum 3),
        lastVariables := VarCacher_Set (lastVariables p) (OStr ''a'')\<rparr>) (demo_ctx 1 1))) (OStr ''a'') = JNum 5"
proof -
  let ?c = "upd_cond (\<lambda>p. p\<lparr>uservariables := (uservariables p)(OStr ''a'' \<mapsto> JNum 3),
      lastVariables := VarCacher_Set (lastVariables p) (OStr ''a'')\<rparr>) (demo_ctx 1 1)"
  have "Younger (lastVariables (cond ?c)) = Some (OStr ''a'')"
    by (simp add: demo_ctx_def new_Bot_def ProgramCondition_def VarCacher_Set_def Younger_def new_VarCacher_def)
  moreover have "isWriteble (Some (OStr ''a''))"
    by (simp add: isWriteble_def operand_set_def is_readonly_def is_comand_def Readonly_ComandList_def
        PComands_ComandList_def)
  moreover have "uservariables (cond ?c) (OStr ''a'') = Some (JNum 3)" by simp
  ultimately have "user_value (PComands demo_env ''ADD'' (JNum 2) ?c) (OStr ''a'') = JNum (3 + 2)"
    using arithmetic_commands by blast
  then show ?thesis by simp
qed

end
