(* ===== verification/Packs.thy ===== *)
theory Packs
  imports World_Map
begin

text \<open>
  The buildings: \<open>PackConstruction\<close> and \<open>Pack\<close> of \<^verbatim>\<open>scripts/entitys/entity.js\<close> and the ten kinds of
  buildings of \<^verbatim>\<open>scripts/entitys/packs.js\<close> with their plans. A plan is an array of strings; the
  grid computed from it is indexed by column first.
\<close>

section \<open>Plans\<close>

definition dictionary :: "char \<Rightarrow> byte option" where
  "dictionary p =
     map_of [(CHR ''-'', Block_empty), (CHR ''f'', Block_build_frame), (CHR ''c'', Block_build_corner),
             (CHR ''e'', Block_build_entry), (CHR ''r'', Block_road), (CHR ''g'', Block_g_road)] p"

text \<open>\<open>parseInt\<close> of one character; \<open>None\<close> is \<open>NaN\<close>, which the test \<open>num != NaN\<close> lets through.\<close>

definition parse_digit :: "char \<Rightarrow> int option" where
  "parse_digit p = (let n = of_char p :: int in if 48 \<le> n \<and> n \<le> 57 then Some (n - 48) else None)"

record construction =
  grid :: "byte list list"
  con_width :: int
  con_height :: int
  interactivePoints :: "(int \<times> int \<times> int option) list"

definition plan_at :: "string list \<Rightarrow> nat \<Rightarrow> nat \<Rightarrow> char option" where
  "plan_at plan x y = (if y < length (plan ! x) then Some (plan ! x ! y) else None)"

definition plan_block :: "byte \<Rightarrow> char option \<Rightarrow> byte" where
  "plan_block replasenum p =
     (case Option.bind p dictionary of Some b \<Rightarrow> b | None \<Rightarrow> replasenum)"

definition GetBlockGrid :: "string list \<Rightarrow> byte \<Rightarrow> construction" where
  "GetBlockGrid plan replasenum =
     \<lparr>grid = map (\<lambda>y. map (\<lambda>x. plan_block replasenum (plan_at plan x y)) [0..<length plan])
        [0..<length (hd plan)],
      con_width = int (length (hd plan)), con_height = int (length plan),
      interactivePoints = concat (map (\<lambda>y. concat (map (\<lambda>x.
        if Option.bind (plan_at plan x y) dictionary = None
        then [(int x, int y, Option.bind (plan_at plan x y) parse_digit)] else [])
        [0..<length plan])) [0..<length (hd plan)])\<rparr>"

text \<open>The base class and \<open>Gate\<close> have no construction.\<close>

definition construction_of :: "pack_kind \<Rightarrow> construction option" where
  "construction_of k =
     (case k of
        Pack \<Rightarrow> None
      | Resp \<Rightarrow> Some (GetBlockGrid
          [''-----'', ''-fff-'', ''-f1e-'', ''-fff-'', ''-f2f-'', ''-----''] Block_build_entry)
      | Stock \<Rightarrow> Some (GetBlockGrid [''-----'', ''-fff-'', ''-f1f-'', ''-----''] Block_build_entry)
      | Craft \<Rightarrow> Some (GetBlockGrid
          [''-----'', ''-cfc-'', ''-f1f-'', ''-fef-'', ''-----''] Block_build_entry)
      | Gun \<Rightarrow> Some (GetBlockGrid
          [''-----'', ''-f-f-'', ''--1--'', ''-f-f-'', ''-----''] Block_empty)
      | Gate \<Rightarrow> None
      | Market \<Rightarrow> Some (GetBlockGrid
          [''-------'', ''-cfefc-'', ''-ffeff-'', ''-ee1ee-'', ''-ffeff-'', ''-cfefc-'', ''-------'']
          Block_build_entry)
      | UP \<Rightarrow> Some (GetBlockGrid
          [''-----'', ''-cfc-'', ''-fff-'', ''-f1f-'', ''-fef-'', ''-----''] Block_build_entry)
      | TP \<Rightarrow> Some (GetBlockGrid
          [''-----'', ''-fff-'', ''-f1f-'', ''-fef-'', ''-----''] Block_build_entry)
      | Clans \<Rightarrow> Some (GetBlockGrid
          [''-------'', ''-cfffc-'', ''-ff1ff-'', ''-ffeff-'', ''-cfefc-'', ''-------''] Block_build_entry)
      | Science \<Rightarrow> Some (GetBlockGrid
          [''---fffff---'', ''--fff1fff--'', ''-cfffefffc-'', ''-fff---fff-'', ''-cfc---cfc-'',
           ''-----------''] Block_build_entry))"

section \<open>Buildings\<close>

definition onlyClanpack :: "pack_kind \<Rightarrow> bool" where
  "onlyClanpack k = (k = Gun)"

definition onlyNoClanPack :: "pack_kind \<Rightarrow> bool" where
  "onlyNoClanPack k = (k = Market \<or> k = UP)"

definition pack_interactive :: "pack_kind \<Rightarrow> bool" where
  "pack_interactive k = (k \<noteq> Gate)"

definition consumeCry :: "pack_kind \<Rightarrow> string option" where
  "consumeCry k = (if k = Resp then Some ''b'' else if k = Gun then Some ''c'' else None)"

text \<open>The constructor: \<open>owner\<close> is absent or a bot number with an optional clan number.\<close>

definition new_Pack :: "pack_kind \<Rightarrow> (int \<times> int option) option \<Rightarrow> (int \<times> int) option \<Rightarrow> rat \<Rightarrow> pack" where
  "new_Pack k owner pos date =
     \<lparr>pk_kind = k,
      pk_owner = (case owner of Some (i, _) \<Rightarrow> i | None \<Rightarrow> -1),
      pk_clan = (case owner of Some (i, Some _) \<Rightarrow> i | _ \<Rightarrow> -1),
      pk_createTime = date, pk_hp = 1000, pk_hpmax = 1000, pk_position = pos\<rparr>"

definition half :: "int \<Rightarrow> int" where
  "half n = tilde2 (of_int n / 2)"

definition construct_cells :: "construction \<Rightarrow> int \<Rightarrow> int \<Rightarrow> ((int \<times> int) \<times> int \<times> int) list" where
  "construct_cells con cx cy =
     (let dx = half (con_width con); dy = half (con_height con) in
      concat (map (\<lambda>by. map (\<lambda>bx. ((cx - dx + bx, cy - dy + by), bx, by)) [0..2 * dx]) [0..2 * dy]))"

fun construct_loop :: "construction \<Rightarrow> ((int \<times> int) \<times> int \<times> int) list \<Rightarrow> world_map \<Rightarrow> world_map result" where
  "construct_loop con [] w = Inr w"
| "construct_loop con (((x, y), bx, by) # ps) w =
     (case ta_get (grid con) bx of
        None \<Rightarrow> Inl TypeError
      | Some column \<Rightarrow>
          (case ta_get column by of
             Some b \<Rightarrow> construct_loop con ps (if b \<noteq> 0 then SetTileWithCoords w x y b 0 else w)
           | None \<Rightarrow> construct_loop con ps w))"

definition Construct :: "pack_kind \<Rightarrow> int \<Rightarrow> int \<Rightarrow> world_map \<Rightarrow> world_map result" where
  "Construct k cx cy w =
     (case construction_of k of
        None \<Rightarrow> Inl TypeError
      | Some con \<Rightarrow> construct_loop con (construct_cells con cx cy) w)"

definition check_cells :: "construction \<Rightarrow> int \<Rightarrow> int \<Rightarrow> (int \<times> int) list" where
  "check_cells con cx cy =
     (let dx = half (con_width con); dy = half (con_height con) in
      concat (map (\<lambda>y. map (\<lambda>x. (x, y)) [cx - dx..cx + dx - 1]) [cy - dy..cy + dy - 1]))"

text \<open>\<open>Gate\<close> overrides the check with an empty body: \<open>None\<close> is \<open>undefined\<close>.\<close>

definition BeforeInstalationChack ::
    "pack_kind \<Rightarrow> int \<Rightarrow> int \<Rightarrow> world_map \<Rightarrow> (int \<times> int \<times> byte) list option result" where
  "BeforeInstalationChack k cx cy w =
     (if k = Gate then Inr None
      else case construction_of k of
        None \<Rightarrow> Inl TypeError
      | Some con \<Rightarrow>
          Inr (Some (concat (map (\<lambda>(x, y).
            let block = GetIDByCoord w x y in if solid (BlockStats block) then [(x, y, block)] else [])
            (check_cells con cx cy)))))"

section \<open>What the plans have in common\<close>

definition plan_ok :: "construction \<Rightarrow> bool" where
  "plan_ok con \<longleftrightarrow> (let dx = half (con_width con); dy = half (con_height con) in
     int (length (grid con)) = 2 * dx + 1
     \<and> list_all (\<lambda>bx. list_all (\<lambda>by. case ta_get (grid con ! nat bx) by of
          Some b \<Rightarrow> b = 0 \<or> (bx < 2 * dx \<and> by < 2 * dy) | None \<Rightarrow> True) [0..2 * dy]) [0..2 * dx])"

lemma construction_plan_ok: "construction_of k = Some con \<Longrightarrow> plan_ok con"
proof -
  have "case construction_of k of Some con \<Rightarrow> plan_ok con | None \<Rightarrow> True"
    by (cases k) (simp_all only: construction_of_def pack_kind.simps option.simps, code_simp+)
  then show "construction_of k = Some con \<Longrightarrow> plan_ok con" by simp
qed

section \<open>Building\<close>

type_synonym tile_write = "int \<times> int \<times> byte"

fun writes_of :: "construction \<Rightarrow> ((int \<times> int) \<times> int \<times> int) list \<Rightarrow> tile_write list" where
  "writes_of con [] = []"
| "writes_of con (((x, y), bx, by) # ps) =
     (case ta_get (grid con) bx of
        None \<Rightarrow> []
      | Some column \<Rightarrow> (case ta_get column by of Some b \<Rightarrow> (if b \<noteq> 0 then [(x, y, b)] else []) | None \<Rightarrow> []))
     @ writes_of con ps"

fun put_list :: "world_map \<Rightarrow> tile_write list \<Rightarrow> world_map" where
  "put_list w [] = w"
| "put_list w ((x, y, b) # ws) = put_list (SetTileWithCoords w x y b 0) ws"

lemma construct_loop_writes:
  "\<forall>p \<in> set ps. 0 \<le> fst (snd p) \<and> fst (snd p) < int (length (grid con)) \<Longrightarrow>
    construct_loop con ps w = Inr (put_list w (writes_of con ps))"
  by (induction con ps w rule: construct_loop.induct) (auto simp: ta_get_def)

lemma writes_of_mem:
  "(x, y, b) \<in> set (writes_of con ps) \<Longrightarrow> \<exists>bx by column. ((x, y), bx, by) \<in> set ps
    \<and> ta_get (grid con) bx = Some column \<and> ta_get column by = Some b \<and> b \<noteq> 0"
proof (induction con ps rule: writes_of.induct)
  case (2 con xa ya bx "by" ps)
  show ?case
  proof (cases "(x, y, b) \<in> set (writes_of con ps)")
    case True
    then show ?thesis using "2.IH" by auto
  next
    case False
    then have "xa = x \<and> ya = y \<and> (\<exists>column. ta_get (grid con) bx = Some column \<and> ta_get column by = Some b \<and> b \<noteq> 0)"
      using "2.prems" by (cases "ta_get (grid con) bx"; cases "ta_get (the (ta_get (grid con) bx)) by")
        (auto split: if_splits)
    then show ?thesis by auto
  qed
qed simp

lemma writes_of_memI:
  "((x, y), bx, by) \<in> set ps \<Longrightarrow> ta_get (grid con) bx = Some column \<Longrightarrow> ta_get column by = Some b \<Longrightarrow>
    b \<noteq> 0 \<Longrightarrow> (x, y, b) \<in> set (writes_of con ps)"
  by (induction con ps rule: writes_of.induct) auto

lemma writes_of_distinct:
  "distinct (map fst ps) \<Longrightarrow> distinct (map (\<lambda>(x, y, b). (x, y)) (writes_of con ps))"
proof (induction con ps rule: writes_of.induct)
  case (2 con x y bx "by" ps)
  have "(x, y) \<notin> (\<lambda>(x, y, b). (x, y)) ` set (writes_of con ps)"
  proof
    assume "(x, y) \<in> (\<lambda>(x, y, b). (x, y)) ` set (writes_of con ps)"
    then obtain b where "(x, y, b) \<in> set (writes_of con ps)" by auto
    then have "(x, y) \<in> fst ` set ps" using writes_of_mem by (metis fst_conv image_eqI)
    then show False using "2.prems" by simp
  qed
  then show ?case using "2" by (auto split: option.splits)
qed simp

lemma ok_put_list [wf_intros]: "map_ok w \<Longrightarrow> map_ok (put_list w ws)"
  by (induction w ws rule: put_list.induct) (simp_all add: ok_SetTileWithCoords)

lemma put_list_other:
  "map_ok w \<Longrightarrow> (x', y') \<notin> (\<lambda>(x, y, b). (x, y)) ` set ws \<Longrightarrow>
    GetIDByCoord (put_list w ws) x' y' = GetIDByCoord w x' y'"
proof (induction w ws rule: put_list.induct)
  case (2 w x y b ws)
  have "wf_map w" using "2.prems"(1) by (simp add: map_ok_def)
  then show ?case
    using "2" GetID_SetTile_other [of w x' y' x y b 0] by (auto simp: ok_SetTileWithCoords)
qed simp

lemma put_list_reads:
  "map_ok w \<Longrightarrow> distinct (map (\<lambda>(x, y, b). (x, y)) ws) \<Longrightarrow>
    \<forall>(x, y, b) \<in> set ws. \<not> solid (BlockStats (GetIDByCoord w x y)) \<Longrightarrow> (x, y, b) \<in> set ws \<Longrightarrow>
    GetIDByCoord (put_list w ws) x y = b"
proof (induction w ws rule: put_list.induct)
  case (2 w x1 y1 b1 ws)
  let ?w = "SetTileWithCoords w x1 y1 b1 0"
  have wf: "wf_map w" and ok: "map_ok ?w" using "2.prems"(1) by (simp_all add: map_ok_def wf_intros)
  have free: "\<forall>(x, y, b) \<in> set ws. \<not> solid (BlockStats (GetIDByCoord ?w x y))"
  proof clarify
    fix x y b assume m: "(x, y, b) \<in> set ws" and sol: "solid (BlockStats (GetIDByCoord ?w x y))"
    have "(x, y) \<noteq> (x1, y1)" using "2.prems"(2) m by force
    then show False using GetID_SetTile_other [OF wf] sol m "2.prems"(3) by auto
  qed
  show ?case
  proof (cases "(x, y, b) = (x1, y1, b1)")
    case True
    have "\<not> solid (BlockStats (GetIDByCoord w x1 y1))" using "2.prems"(3) by simp
    moreover from this have "ValidCoords w x1 y1" by (intro not_fed_valid) auto
    ultimately have "GetIDByCoord ?w x1 y1 = b1" by (intro visible_after_put "2.prems"(1)) auto
    moreover have "(x1, y1) \<notin> (\<lambda>(x, y, b). (x, y)) ` set ws" using "2.prems"(2) by simp
    ultimately show ?thesis using put_list_other [OF ok, of x1 y1 ws] True by simp
  next
    case False
    then have "(x, y, b) \<in> set ws" using "2.prems"(4) by auto
    then show ?thesis using "2.IH" ok free "2.prems"(2) by simp
  qed
qed simp

lemma construct_cells_distinct: "distinct (map fst (construct_cells con cx cy))"
proof -
  let ?dx = "half (con_width con)" and ?dy = "half (con_height con)"
  have "map fst (construct_cells con cx cy) =
      map (\<lambda>(by, bx). (cx - ?dx + bx, cy - ?dy + by)) (List.product [0..2 * ?dy] [0..2 * ?dx])"
    by (simp add: construct_cells_def Let_def product_concat_map map_concat comp_def)
  then show ?thesis by (auto simp: distinct_map distinct_product inj_on_def)
qed

lemma construct_cells_mem:
  "((x, y), bx, by) \<in> set (construct_cells con cx cy) \<longleftrightarrow>
    x = cx - half (con_width con) + bx \<and> y = cy - half (con_height con) + by
    \<and> 0 \<le> bx \<and> bx \<le> 2 * half (con_width con) \<and> 0 \<le> by \<and> by \<le> 2 * half (con_height con)"
  by (auto simp: construct_cells_def Let_def image_iff Bex_def)

lemma check_cells_mem: "(x, y) \<in> set (check_cells con cx cy) \<longleftrightarrow>
    cx - half (con_width con) \<le> x \<and> x < cx + half (con_width con)
    \<and> cy - half (con_height con) \<le> y \<and> y < cy + half (con_height con)"
  by (auto simp: check_cells_def Let_def image_iff Bex_def)

lemma plan_writes_checked:
  assumes "plan_ok con" "(x, y, b) \<in> set (writes_of con (construct_cells con cx cy))"
  shows "(x, y) \<in> set (check_cells con cx cy)"
proof -
  obtain bx "by" column where m: "((x, y), bx, by) \<in> set (construct_cells con cx cy)"
      "ta_get (grid con) bx = Some column" "ta_get column by = Some b" "b \<noteq> 0"
    using writes_of_mem [OF assms(2)] by blast
  then have r: "0 \<le> bx" "bx \<le> 2 * half (con_width con)" "0 \<le> by" "by \<le> 2 * half (con_height con)"
    by (simp_all add: construct_cells_mem)
  have "ta_get (grid con ! nat bx) by = Some b" using m(2,3) by (auto simp: ta_get_def split: if_splits)
  moreover have "case ta_get (grid con ! nat bx) by of Some b \<Rightarrow>
      b = 0 \<or> (bx < 2 * half (con_width con) \<and> by < 2 * half (con_height con)) | None \<Rightarrow> True"
    using assms(1) r by (simp add: plan_ok_def Let_def list_all_iff)
  ultimately have "bx < 2 * half (con_width con) \<and> by < 2 * half (con_height con)"
    using m(4) by simp
  then show ?thesis using m(1) by (simp add: construct_cells_mem check_cells_mem)
qed

lemma check_clear:
  assumes "BeforeInstalationChack k cx cy w = Inr (Some [])" "construction_of k = Some con"
    and "(x, y) \<in> set (check_cells con cx cy)"
  shows "\<not> solid (BlockStats (GetIDByCoord w x y))"
  using assms by (auto simp: BeforeInstalationChack_def Let_def split: if_splits)

text \<open>
  (C12) A site the check finds clear can be built on: \<open>Construct\<close> then succeeds, keeps the map well
  formed, leaves every solid block where it was, and every cell of the plan that is not blank
  reads as the block of the plan, although the check does not look at the last column and row.
\<close>

theorem Construct_on_clear_site:
  assumes "map_ok w" "BeforeInstalationChack k cx cy w = Inr (Some [])" "construction_of k = Some con"
  shows "\<exists>w'. Construct k cx cy w = Inr w' \<and> map_ok w'
    \<and> (\<forall>x y. solid (BlockStats (GetIDByCoord w x y)) \<longrightarrow> GetIDByCoord w' x y = GetIDByCoord w x y)
    \<and> (\<forall>x y bx by column b. ((x, y), bx, by) \<in> set (construct_cells con cx cy) \<longrightarrow>
          ta_get (grid con) bx = Some column \<longrightarrow> ta_get column by = Some b \<longrightarrow> b \<noteq> 0 \<longrightarrow>
          GetIDByCoord w' x y = b)"
proof -
  let ?ps = "construct_cells con cx cy"
  let ?ws = "writes_of con ?ps"
  have pl: "plan_ok con" by (rule construction_plan_ok [OF assms(3)])
  then have "\<forall>p \<in> set ?ps. 0 \<le> fst (snd p) \<and> fst (snd p) < int (length (grid con))"
    by (auto simp: construct_cells_mem plan_ok_def Let_def)
  then have c: "Construct k cx cy w = Inr (put_list w ?ws)"
    by (simp add: Construct_def assms(3) construct_loop_writes)
  have free: "\<not> solid (BlockStats (GetIDByCoord w x y))" if "(x, y, b) \<in> set ?ws" for x y b
    using check_clear [OF assms(2,3) plan_writes_checked [OF pl that]] .
  have "GetIDByCoord (put_list w ?ws) x y = GetIDByCoord w x y" if "solid (BlockStats (GetIDByCoord w x y))" for x y
    using that free by (intro put_list_other assms(1)) auto
  moreover have "GetIDByCoord (put_list w ?ws) x y = b" if "(x, y, b) \<in> set ?ws" for x y b
    using free that by (intro put_list_reads assms(1) writes_of_distinct construct_cells_distinct) auto
  ultimately show ?thesis using c ok_put_list [OF assms(1)] writes_of_memI by blast
qed

lemma Stock_plan_entry:
  "Option.bind (construction_of Stock) (\<lambda>con. Option.bind (ta_get (grid con) 2) (\<lambda>column. ta_get column 2))
    = Some Block_build_entry"
  "Option.bind (construction_of Stock) (\<lambda>con. Some (con_width con, con_height con)) = Some (5, 4)"
  by code_simp+

lemma blank_site_clear: "BeforeInstalationChack Stock 4 4 (WorldMap 8 8) = Inr (Some [])"
  by code_simp

theorem Construct_on_clear_site_witness:
  "\<exists>w'. Construct Stock 4 4 (WorldMap 8 8) = Inr w' \<and> map_ok w' \<and> GetIDByCoord w' 4 4 = Block_build_entry"
proof -
  obtain con where con: "construction_of Stock = Some con" by (simp add: construction_of_def)
  have dim: "con_width con = 5" "con_height con = 4" and
    e: "Option.bind (ta_get (grid con) 2) (\<lambda>column. ta_get column 2) = Some Block_build_entry"
    using Stock_plan_entry by (simp_all add: con)
  obtain column where column: "ta_get (grid con) 2 = Some column" "ta_get column 2 = Some Block_build_entry"
    using e by (auto simp: bind_eq_Some_conv)
  have "half 5 = 2" "half 4 = 2" by code_simp+
  then have cell: "((4, 4), 2, 2) \<in> set (construct_cells con 4 4)"
    by (simp add: construct_cells_mem dim)
  have ok: "map_ok (WorldMap 8 8)" unfolding WorldMap_def by (intro wf_intros) simp_all
  obtain w' where w': "Construct Stock 4 4 (WorldMap 8 8) = Inr w'" "map_ok w'"
    "\<And>x y bx by column b. ((x, y), bx, by) \<in> set (construct_cells con 4 4) \<Longrightarrow>
      ta_get (grid con) bx = Some column \<Longrightarrow> ta_get column by = Some b \<Longrightarrow> b \<noteq> 0 \<Longrightarrow> GetIDByCoord w' x y = b"
    using Construct_on_clear_site [OF ok blank_site_clear con] by blast
  have "GetIDByCoord w' 4 4 = Block_build_entry" using w'(3) [OF cell column] by simp
  then show ?thesis using w' by blast
qed

end
