(* ===== verification/Admin_Map.thy ===== *)
theory Admin_Map
  imports JS_Prelude
begin

text \<open>
  The map view of the admin panel (\<^verbatim>\<open>admin/app.js\<close>): the view state \<open>mapState\<close>, the change of
  coordinates between world and screen, the mouse handlers of \<open>setupMap\<close> and what \<open>renderMap\<close> draws.
  A drawing is the list of the shapes in the order the code draws them. The result of
  \<open>window.devicePixelRatio || 1\<close> and the size of the element on the page are arguments (\<open>page\<close>). Reading
  a field of \<open>mapData\<close> before a map was loaded raises.
\<close>

section \<open>Data\<close>

record building =
  bl_x :: int
  bl_y :: int
  pack_type :: string

record map_player =
  mp_name :: string
  mp_x :: int
  mp_y :: int

record map_data =
  md_width :: int
  md_height :: int
  md_buildings :: "building list"
  md_players :: "map_player list"

record map_state =
  zoom :: rat
  offsetX :: rat
  offsetY :: rat
  dragging :: bool
  lastX :: rat
  lastY :: rat

definition mapState :: map_state where
  "mapState = \<lparr>zoom = 1, offsetX = 0, offsetY = 0, dragging = False, lastX = 0, lastY = 0\<rparr>"

record canvas =
  cv_width :: int
  cv_height :: int
  clientWidth :: rat
  clientHeight :: rat

text \<open>The element on the page: its size, and \<open>window.devicePixelRatio || 1\<close>.\<close>

record page =
  rect_width :: rat
  rect_height :: rat
  ratio :: rat

section \<open>Coordinates\<close>

definition baseScale :: "map_data option \<Rightarrow> canvas \<Rightarrow> rat" where
  "baseScale md cv =
     (case md of
        None \<Rightarrow> 1
      | Some d \<Rightarrow> min (of_int (cv_width cv) / of_int (max (md_width d) 1))
                     (of_int (cv_height cv) / of_int (max (md_height d) 1)) * (92 / 100))"

definition worldToScreen ::
    "map_data option \<Rightarrow> map_state \<Rightarrow> canvas \<Rightarrow> rat \<Rightarrow> rat \<Rightarrow> (rat \<times> rat) result" where
  "worldToScreen md s cv x y =
     (let scale = baseScale md cv * zoom s in
      case md of
        None \<Rightarrow> Inl TypeError
      | Some d \<Rightarrow>
          Inr (x * scale + of_int (cv_width cv) / 2 - of_int (md_width d) * scale / 2 + offsetX s,
               y * scale + of_int (cv_height cv) / 2 - of_int (md_height d) * scale / 2 + offsetY s))"

definition screenToWorld ::
    "map_data option \<Rightarrow> map_state \<Rightarrow> rat \<Rightarrow> canvas \<Rightarrow> rat \<Rightarrow> rat \<Rightarrow> (rat \<times> rat) result" where
  "screenToWorld md s pixels cv x y =
     (let sx = x * pixels; sy = y * pixels; scale = baseScale md cv * zoom s in
      case md of
        None \<Rightarrow> Inl TypeError
      | Some d \<Rightarrow>
          Inr ((sx - of_int (cv_width cv) / 2 + of_int (md_width d) * scale / 2 - offsetX s) / scale,
               (sy - of_int (cv_height cv) / 2 + of_int (md_height d) * scale / 2 - offsetY s) / scale))"

section \<open>Drawing\<close>

datatype shape =
    Clear int int
  | StrokeRect rat rat rat rat
  | Line rat rat rat rat
  | Square string rat rat rat
  | Disc rat rat rat
  | Label string rat rat rat

definition resizeCanvas :: "page \<Rightarrow> canvas \<Rightarrow> canvas" where
  "resizeCanvas pg cv =
     (let width = max 1 \<lfloor>rect_width pg * ratio pg\<rfloor>; height = max 1 \<lfloor>rect_height pg * ratio pg\<rfloor> in
      if cv_width cv \<noteq> width \<or> cv_height cv \<noteq> height
      then cv\<lparr>cv_width := width, cv_height := height\<rparr> else cv)"

definition chooseGridStep :: "rat \<Rightarrow> rat" where
  "chooseGridStep scale = (if scale > 10 then 32 else if scale > 3 then 128 else 512)"

text \<open>The loop \<open>for (let x = 0; x <= worldW; x += screenStep)\<close>; \<open>None\<close> means that it does not end.\<close>

partial_function (option) grid_lines :: "rat \<Rightarrow> rat \<Rightarrow> rat \<Rightarrow> rat list option" where
  "grid_lines world step x =
     (if x \<le> world then Option.bind (grid_lines world step (x + step)) (\<lambda>xs. Some (x # xs)) else Some [])"

definition drawGrid :: "rat \<times> rat \<Rightarrow> rat \<Rightarrow> rat \<Rightarrow> rat \<Rightarrow> shape list option" where
  "drawGrid origin worldW worldH scale =
     (let step = chooseGridStep scale; screenStep = step * scale in
      if screenStep < 8 then Some []
      else Option.bind (grid_lines worldW screenStep 0) (\<lambda>xs.
           Option.bind (grid_lines worldH screenStep 0) (\<lambda>ys.
           Some (map (\<lambda>x. Line (fst origin + x) (snd origin) (fst origin + x) (snd origin + worldH)) xs
               @ map (\<lambda>y. Line (fst origin) (snd origin + y) (fst origin + worldW) (snd origin + y)) ys))))"

definition draw_building :: "map_data \<Rightarrow> map_state \<Rightarrow> canvas \<Rightarrow> building \<Rightarrow> shape list result" where
  "draw_building d s cv b =
     ebind (worldToScreen (Some d) s cv (of_int (bl_x b)) (of_int (bl_y b))) (\<lambda>(px, py).
       let size = max 4 (min 14 (5 * zoom s)) in
       Inr [Square (if pack_type b = ''Gun'' then ''#d65f5f'' else ''#4da3ff'') (px - size / 2) (py - size / 2) size])"

definition draw_player :: "map_data \<Rightarrow> map_state \<Rightarrow> canvas \<Rightarrow> map_player \<Rightarrow> shape list result" where
  "draw_player d s cv p =
     ebind (worldToScreen (Some d) s cv (of_int (mp_x p)) (of_int (mp_y p))) (\<lambda>(px, py).
       let radius = max 4 (min 10 (4 * zoom s)) in
       Inr (Disc px py radius #
            (if zoom s \<ge> 65 / 100
             then [Label (mp_name p) (max 11 (min 16 (10 * zoom s))) (px + radius + 4) (py - radius)] else [])))"

fun draw_all :: "('a \<Rightarrow> shape list result) \<Rightarrow> 'a list \<Rightarrow> shape list result" where
  "draw_all f [] = Inr []"
| "draw_all f (a # as) = ebind (f a) (\<lambda>ss. ebind (draw_all f as) (\<lambda>rest. Inr (ss @ rest)))"

definition drawBuildings :: "map_data \<Rightarrow> map_state \<Rightarrow> canvas \<Rightarrow> shape list result" where
  "drawBuildings d s cv = draw_all (draw_building d s cv) (md_buildings d)"

definition drawPlayers :: "map_data \<Rightarrow> map_state \<Rightarrow> canvas \<Rightarrow> shape list result" where
  "drawPlayers d s cv = draw_all (draw_player d s cv) (md_players d)"

definition renderMap ::
    "map_data option \<Rightarrow> page \<Rightarrow> canvas \<Rightarrow> map_state \<Rightarrow> (canvas \<times> shape list option) result option" where
  "renderMap md pg cv s =
     (case md of
        None \<Rightarrow> Some (Inr (cv, None))
      | Some d \<Rightarrow>
          let cv = resizeCanvas pg cv;
              scale = baseScale md cv * zoom s;
              worldW = of_int (md_width d) * scale;
              worldH = of_int (md_height d) * scale
          in case worldToScreen md s cv 0 0 of
               Inl e \<Rightarrow> Some (Inl e)
             | Inr origin \<Rightarrow>
                 Option.bind (drawGrid origin worldW worldH scale) (\<lambda>grid.
                   Some (ebind (drawBuildings d s cv) (\<lambda>bs. ebind (drawPlayers d s cv) (\<lambda>ps.
                     Inr (cv, Some (Clear (cv_width cv) (cv_height cv)
                       # StrokeRect (fst origin) (snd origin) worldW worldH # grid @ bs @ ps)))))))"

section \<open>Zooming and dragging\<close>

text \<open>What a handler leaves: the view, the canvas and the new drawing, if it draws one.\<close>

type_synonym painted = "map_state \<times> canvas \<times> shape list option"

definition and_render :: "map_data option \<Rightarrow> page \<Rightarrow> canvas \<Rightarrow> map_state \<Rightarrow> painted result option" where
  "and_render md pg cv s =
     Option.bind (renderMap md pg cv s) (\<lambda>r. Some (ebind r (\<lambda>(cv, picture). Inr (s, cv, picture))))"

definition clamp_zoom :: "rat \<Rightarrow> rat" where
  "clamp_zoom z = min 20 (max (1 / 5) z)"

definition zoom_view ::
    "map_data option \<Rightarrow> page \<Rightarrow> canvas \<Rightarrow> rat \<Rightarrow> (rat \<times> rat) option \<Rightarrow> map_state \<Rightarrow> map_state result" where
  "zoom_view md pg cv factor anchor s =
     (let (px, py) = (case anchor of Some a \<Rightarrow> a | None \<Rightarrow> (clientWidth cv / 2, clientHeight cv / 2)) in
      ebind (screenToWorld md s (ratio pg) cv px py) (\<lambda>(bx, by).
        let s = s\<lparr>zoom := clamp_zoom (zoom s * factor)\<rparr> in
        ebind (worldToScreen md s cv bx by) (\<lambda>(ax, ay).
          Inr (case anchor of
                 Some (anchorX, anchorY) \<Rightarrow>
                   s\<lparr>offsetX := offsetX s + (anchorX - ax), offsetY := offsetY s + (anchorY - ay)\<rparr>
               | None \<Rightarrow> s))))"

definition zoomMap ::
    "map_data option \<Rightarrow> page \<Rightarrow> canvas \<Rightarrow> rat \<Rightarrow> (rat \<times> rat) option \<Rightarrow> map_state \<Rightarrow> painted result option" where
  "zoomMap md pg cv factor anchor s =
     (case zoom_view md pg cv factor anchor s of
        Inl e \<Rightarrow> Some (Inl e)
      | Inr s \<Rightarrow> and_render md pg cv s)"

datatype map_event =
    MouseDown rat rat
  | MouseUp
  | MouseMove rat rat
  | Wheel rat rat rat
  | ZoomIn
  | ZoomOut
  | MapReset

fun map_handler :: "map_data option \<Rightarrow> page \<Rightarrow> canvas \<Rightarrow> map_event \<Rightarrow> map_state \<Rightarrow> painted result option" where
  "map_handler md pg cv (MouseDown x y) s = Some (Inr (s\<lparr>dragging := True, lastX := x, lastY := y\<rparr>, cv, None))"
| "map_handler md pg cv MouseUp s = Some (Inr (s\<lparr>dragging := False\<rparr>, cv, None))"
| "map_handler md pg cv (MouseMove x y) s =
     (if \<not> dragging s then Some (Inr (s, cv, None))
      else and_render md pg cv
             (s\<lparr>offsetX := offsetX s + (x - lastX s), offsetY := offsetY s + (y - lastY s),
                lastX := x, lastY := y\<rparr>))"
| "map_handler md pg cv (Wheel deltaY ox oy) s =
     zoomMap md pg cv (if deltaY < 0 then 115 / 100 else 87 / 100) (Some (ox, oy)) s"
| "map_handler md pg cv ZoomIn s = zoomMap md pg cv (12 / 10) None s"
| "map_handler md pg cv ZoomOut s = zoomMap md pg cv (85 / 100) None s"
| "map_handler md pg cv MapReset s = and_render md pg cv (s\<lparr>zoom := 1, offsetX := 0, offsetY := 0\<rparr>)"

section \<open>The two changes of coordinates\<close>

definition canvas_ok :: "canvas \<Rightarrow> bool" where
  "canvas_ok cv \<longleftrightarrow> 0 < cv_width cv \<and> 0 < cv_height cv"

definition zoom_ok :: "map_state \<Rightarrow> bool" where
  "zoom_ok s \<longleftrightarrow> 1 / 5 \<le> zoom s \<and> zoom s \<le> 20"

lemma baseScale_pos: "canvas_ok cv \<Longrightarrow> 0 < baseScale md cv"
  by (auto simp: baseScale_def canvas_ok_def min_def max_def split: option.splits)

lemma scale_pos: "canvas_ok cv \<Longrightarrow> zoom_ok s \<Longrightarrow> 0 < baseScale md cv * zoom s"
  by (intro mult_pos_pos baseScale_pos) (auto simp: zoom_ok_def)

lemma clamp_zoom_range: "1 / 5 \<le> clamp_zoom z \<and> clamp_zoom z \<le> 20"
  by (simp add: clamp_zoom_def min_def max_def)

lemma worldToScreen_shift:
  "worldToScreen (Some d) (s\<lparr>offsetX := offsetX s + dx, offsetY := offsetY s + dy\<rparr>) cv x y =
    ebind (worldToScreen (Some d) s cv x y) (\<lambda>(a, b). Inr (a + dx, b + dy))"
  by (simp add: worldToScreen_def Let_def)

lemma screen_world_inverse:
  assumes "canvas_ok cv" "zoom_ok s"
  shows "screenToWorld (Some d) s r cv a b = Inr (x, y) \<longleftrightarrow>
    worldToScreen (Some d) s cv x y = Inr (a * r, b * r)"
proof -
  have "baseScale (Some d) cv * zoom s \<noteq> 0" using scale_pos [OF assms, of "Some d"] by (metis less_irrefl)
  then show ?thesis by (auto simp: screenToWorld_def worldToScreen_def Let_def field_simps)
qed

lemma worldToScreen_total: "\<exists>a b. worldToScreen (Some d) s cv x y = Inr (a, b)"
  by (simp add: worldToScreen_def Let_def)

lemma screenToWorld_total: "\<exists>x y. screenToWorld (Some d) s r cv a b = Inr (x, y)"
  by (simp add: screenToWorld_def Let_def)

lemma grid_lines_eq:
  assumes "0 < step" "x \<le> world"
  shows "grid_lines world step x = Some (map (\<lambda>k. x + of_nat k * step) [0..<Suc (nat \<lfloor>(world - x) / step\<rfloor>)])"
  using assms
proof (induction "nat \<lfloor>(world - x) / step\<rfloor>" arbitrary: x)
  case 0
  then have "\<lfloor>(world - x) / step\<rfloor> \<le> 0" by simp
  then have "\<not> x + step \<le> world" using "0.prems" by (simp add: floor_le_iff field_simps)
  then show ?case using 0 by (simp add: grid_lines.simps [of world step x] grid_lines.simps [of world step "x + step"])
next
  case (Suc n)
  have q: "(world - (x + step)) / step = (world - x) / step - 1" using Suc.prems(1) by (simp add: field_simps)
  have "1 \<le> \<lfloor>(world - x) / step\<rfloor>" using Suc.hyps(2) by linarith
  then have le: "x + step \<le> world" using Suc.prems(1) by (simp add: le_floor_iff field_simps)
  have n: "n = nat \<lfloor>(world - (x + step)) / step\<rfloor>" using Suc.hyps(2) by (simp add: q)
  have "grid_lines world step (x + step) = Some (map (\<lambda>k. x + step + of_nat k * step) [0..<Suc n])"
    using Suc.hyps(1) [OF n Suc.prems(1) le] n by simp
  then have "grid_lines world step x = Some (x # map (\<lambda>k. x + step + of_nat k * step) [0..<Suc n])"
    using Suc.prems(2) by (simp add: grid_lines.simps [of world step x])
  also have "x # map (\<lambda>k. x + step + of_nat k * step) [0..<Suc n] = map (\<lambda>k. x + of_nat k * step) [0..<Suc (Suc n)]"
    by (subst upt_conv_Cons, simp) (simp add: map_Suc_upt [symmetric] algebra_simps del: upt_Suc)
  finally show ?case using Suc.hyps(2) by simp
qed

lemma grid_lines_total: "0 < step \<Longrightarrow> \<exists>xs. grid_lines world step x = Some xs"
  by (cases "x \<le> world") (simp_all add: grid_lines_eq, simp add: grid_lines.simps)

lemma drawGrid_total: "\<exists>ls. drawGrid origin worldW worldH scale = Some ls"
proof (cases "chooseGridStep scale * scale < 8")
  case False
  then have "0 < chooseGridStep scale * scale" by linarith
  then obtain xs ys where "grid_lines worldW (chooseGridStep scale * scale) 0 = Some xs"
      "grid_lines worldH (chooseGridStep scale * scale) 0 = Some ys"
    using grid_lines_total by blast
  then show ?thesis using False by (simp add: drawGrid_def Let_def)
qed (simp add: drawGrid_def)

lemma draw_all_total: "(\<And>a. \<exists>ss. f a = Inr ss) \<Longrightarrow> \<exists>ss. draw_all f as = Inr ss"
proof (induction as)
  case (Cons a as)
  then obtain ss rest where "f a = Inr ss" "draw_all f as = Inr rest" by blast
  then show ?case by simp
qed simp

lemma draw_building_total: "\<exists>ss. draw_building d s cv b = Inr ss"
  by (simp add: draw_building_def worldToScreen_def Let_def)

lemma draw_player_total: "\<exists>ss. draw_player d s cv p = Inr ss"
  by (simp add: draw_player_def worldToScreen_def Let_def)

lemma canvas_ok_resize: "canvas_ok (resizeCanvas pg cv)"
  by (simp add: canvas_ok_def resizeCanvas_def Let_def max_def)

lemma renderMap_total: "\<exists>picture. renderMap (Some d) pg cv s = Some (Inr (resizeCanvas pg cv, Some picture))"
proof -
  let ?cv = "resizeCanvas pg cv"
  obtain ox oy where o: "worldToScreen (Some d) s ?cv 0 0 = Inr (ox, oy)" using worldToScreen_total by blast
  obtain bs where "drawBuildings d s ?cv = Inr bs"
    unfolding drawBuildings_def using draw_all_total [of "draw_building d s ?cv", OF draw_building_total] by auto
  moreover obtain ps where "drawPlayers d s ?cv = Inr ps"
    unfolding drawPlayers_def using draw_all_total [of "draw_player d s ?cv", OF draw_player_total] by auto
  moreover obtain grid where "drawGrid (ox, oy) (of_int (md_width d) * (baseScale (Some d) ?cv * zoom s))
      (of_int (md_height d) * (baseScale (Some d) ?cv * zoom s)) (baseScale (Some d) ?cv * zoom s) = Some grid"
    using drawGrid_total by blast
  ultimately show ?thesis using o by (simp add: renderMap_def Let_def)
qed

lemma and_render_total:
  "\<exists>picture. and_render (Some d) pg cv s = Some (Inr (s, resizeCanvas pg cv, Some picture))"
  using renderMap_total [of d pg cv s] by (auto simp: and_render_def)

lemma zoom_view_total: "\<exists>s'. zoom_view (Some d) pg cv factor anchor s = Inr s' \<and> zoom_ok s'"
  using clamp_zoom_range [of "zoom s * factor"]
  by (auto simp: zoom_view_def zoom_ok_def screenToWorld_def worldToScreen_def Let_def split: option.splits)

lemma zoomMap_total:
  "\<exists>s' picture. zoomMap (Some d) pg cv factor anchor s = Some (Inr (s', resizeCanvas pg cv, Some picture)) \<and> zoom_ok s'"
proof -
  obtain s' where "zoom_view (Some d) pg cv factor anchor s = Inr s'" "zoom_ok s'" using zoom_view_total by blast
  then show ?thesis using and_render_total [of d pg cv s'] by (auto simp: zoomMap_def)
qed

section \<open>Properties\<close>

fun map_run :: "map_data option \<Rightarrow> page \<Rightarrow> map_event list \<Rightarrow> map_state \<times> canvas \<Rightarrow> (map_state \<times> canvas) result option" where
  "map_run md pg [] (s, cv) = Some (Inr (s, cv))"
| "map_run md pg (e # es) (s, cv) =
     (case map_handler md pg cv e s of
        Some (Inr (s, cv, _)) \<Rightarrow> map_run md pg es (s, cv)
      | Some (Inl err) \<Rightarrow> Some (Inl err)
      | None \<Rightarrow> None)"

lemma map_handler_step:
  assumes "canvas_ok cv" "zoom_ok s"
  shows "\<exists>s' cv' picture. map_handler (Some d) pg cv e s = Some (Inr (s', cv', picture)) \<and> canvas_ok cv' \<and> zoom_ok s'"
proof -
  have z: "zoom_ok (s\<lparr>zoom := 1, offsetX := a, offsetY := b\<rparr>)" for a b by (simp add: zoom_ok_def)
  have q: "\<exists>s' cv' picture. zoomMap (Some d) pg cv f an s = Some (Inr (s', cv', picture)) \<and> canvas_ok cv' \<and> zoom_ok s'"
    for f an using zoomMap_total canvas_ok_resize by blast
  have r: "\<exists>s' cv' picture. and_render (Some d) pg cv t = Some (Inr (s', cv', picture)) \<and> canvas_ok cv' \<and> zoom_ok s'"
    if "zoom_ok t" for t using and_render_total canvas_ok_resize that by blast
  show ?thesis using assms q r z by (cases e) (simp_all add: zoom_ok_def)
qed

text \<open>
  (C28) Once a map was loaded no sequence of mouse events on the map view raises or hangs, however the
  map and the window are sized: every handler returns, grid loops included, the zoom stays
  between 0.2 and 20 and the canvas keeps a positive size.
\<close>

theorem map_run_safe:
  assumes "canvas_ok cv" "zoom_ok s"
  shows "\<exists>s' cv'. map_run (Some d) pg es (s, cv) = Some (Inr (s', cv')) \<and> canvas_ok cv' \<and> zoom_ok s'"
  using assms
proof (induction es arbitrary: s cv)
  case (Cons e es)
  obtain s1 cv1 picture where "map_handler (Some d) pg cv e s = Some (Inr (s1, cv1, picture))" "canvas_ok cv1" "zoom_ok s1"
    using map_handler_step [OF Cons.prems] by blast
  then show ?case using Cons.IH by simp
qed auto

theorem map_run_safe_witness:
  "\<exists>s' cv'. map_run (Some \<lparr>md_width = 100, md_height = 50, md_buildings = [], md_players = []\<rparr>)
      \<lparr>rect_width = 800, rect_height = 600, ratio = 2\<rparr> [Wheel (-1) 10 10, MouseDown 1 1, MouseMove 5 5, MouseUp]
      (mapState, \<lparr>cv_width = 300, cv_height = 150, clientWidth = 800, clientHeight = 600\<rparr>) = Some (Inr (s', cv'))
    \<and> canvas_ok cv' \<and> zoom_ok s'"
  by (rule map_run_safe) (simp_all add: canvas_ok_def zoom_ok_def mapState_def)

text \<open>
  (C27) Zooming about a point of the canvas succeeds exactly when a map is loaded (the handler raises
  before), and puts the world point that was under the pointer at the pointer's coordinates taken
  as canvas pixels. The pointer coordinates are CSS pixels, though, so the point stays under the
  pointer exactly when the pixel ratio is 1, or the pointer is at the origin.
\<close>

theorem zoomMap_anchor:
  assumes "canvas_ok cv" "zoom_ok s" "ratio pg \<noteq> 0"
  shows "zoom_view None pg cv f (Some (ax, ay)) s = Inl TypeError
    \<and> (\<exists>s' x y. zoom_view (Some d) pg cv f (Some (ax, ay)) s = Inr s' \<and> zoom s' = clamp_zoom (zoom s * f)
        \<and> screenToWorld (Some d) s (ratio pg) cv ax ay = Inr (x, y)
        \<and> worldToScreen (Some d) s' cv x y = Inr (ax, ay)
        \<and> (screenToWorld (Some d) s' (ratio pg) cv ax ay = Inr (x, y) \<longleftrightarrow> ratio pg = 1 \<or> (ax = 0 \<and> ay = 0)))"
proof -
  obtain x y where xy: "screenToWorld (Some d) s (ratio pg) cv ax ay = Inr (x, y)" using screenToWorld_total by blast
  let ?s = "s\<lparr>zoom := clamp_zoom (zoom s * f)\<rparr>"
  obtain a b where ab: "worldToScreen (Some d) ?s cv x y = Inr (a, b)" using worldToScreen_total by blast
  let ?s' = "?s\<lparr>offsetX := offsetX ?s + (ax - a), offsetY := offsetY ?s + (ay - b)\<rparr>"
  have z: "zoom_view (Some d) pg cv f (Some (ax, ay)) s = Inr ?s'"
    by (simp add: zoom_view_def xy ab Let_def del: map_state.update_convs)
  have w: "worldToScreen (Some d) ?s' cv x y = Inr (ax, ay)"
    by (simp only: worldToScreen_shift ab) simp
  have ok: "zoom_ok ?s'" using clamp_zoom_range [of "zoom s * f"] by (simp add: zoom_ok_def)
  have "screenToWorld (Some d) ?s' (ratio pg) cv ax ay = Inr (x, y) \<longleftrightarrow> ratio pg = 1 \<or> (ax = 0 \<and> ay = 0)"
    unfolding screen_world_inverse [OF assms(1) ok] w by auto
  moreover have "zoom_view None pg cv f (Some (ax, ay)) s = Inl TypeError"
    by (simp add: zoom_view_def screenToWorld_def Let_def)
  ultimately show ?thesis using z w xy by fastforce
qed

theorem zoomMap_anchor_witness:
  "\<exists>s' x y. zoom_view (Some \<lparr>md_width = 100, md_height = 50, md_buildings = [], md_players = []\<rparr>)
      \<lparr>rect_width = 800, rect_height = 600, ratio = 2\<rparr> \<lparr>cv_width = 1600, cv_height = 1200, clientWidth = 800, clientHeight = 600\<rparr>
      (115 / 100) (Some (10, 20)) mapState = Inr s'
    \<and> worldToScreen (Some \<lparr>md_width = 100, md_height = 50, md_buildings = [], md_players = []\<rparr>) s'
      \<lparr>cv_width = 1600, cv_height = 1200, clientWidth = 800, clientHeight = 600\<rparr> x y = Inr (10, 20)"
proof -
  have "canvas_ok \<lparr>cv_width = 1600, cv_height = 1200, clientWidth = 800, clientHeight = 600\<rparr>" "zoom_ok mapState"
    "ratio \<lparr>rect_width = 800, rect_height = 600, ratio = 2\<rparr> \<noteq> 0"
    by (simp_all add: canvas_ok_def zoom_ok_def mapState_def)
  from zoomMap_anchor [OF this] show ?thesis by blast
qed

text \<open>
  The grid is drawn at every multiple of the grid step inside the world and nowhere else, the
  vertical lines before the horizontal ones, unless the lines would be closer than 8 pixels: then
  no line is drawn. There is at most one line per 8 pixels in each direction, and one more.
\<close>

theorem drawGrid_lines:
  fixes w h :: int
  assumes "0 \<le> w" "0 \<le> h" "0 < scale"
  shows "\<exists>ls. drawGrid (ox, oy) (of_int w * scale) (of_int h * scale) scale = Some ls
    \<and> ls = (if chooseGridStep scale * scale < 8 then [] else
        map (\<lambda>k. let x = ox + of_nat k * (chooseGridStep scale * scale) in Line x oy x (oy + of_int h * scale))
          [0..<Suc (nat \<lfloor>of_int w / chooseGridStep scale\<rfloor>)]
        @ map (\<lambda>k. let y = oy + of_nat k * (chooseGridStep scale * scale) in Line ox y (ox + of_int w * scale) y)
          [0..<Suc (nat \<lfloor>of_int h / chooseGridStep scale\<rfloor>)])
    \<and> of_nat (length ls) \<le> of_int w * scale / 8 + of_int h * scale / 8 + (2 :: rat)"
proof (cases "chooseGridStep scale * scale < 8")
  case True
  then show ?thesis using assms by (simp add: drawGrid_def)
next
  case False
  let ?st = "chooseGridStep scale"
  have st: "0 < ?st * scale" using False by linarith
  have q: "(of_int n * scale - 0) / (?st * scale) = of_int n / ?st" for n using assms(3) by simp
  have g: "grid_lines (of_int n * scale) (?st * scale) 0 =
      Some (map (\<lambda>k. of_nat k * (?st * scale)) [0..<Suc (nat \<lfloor>of_int n / ?st\<rfloor>)])" if "0 \<le> n" for n
    using grid_lines_eq [OF st, of 0 "of_int n * scale"] that assms(3) by (simp only: q) simp
  have len: "of_nat (Suc (nat \<lfloor>of_int n / ?st\<rfloor>)) \<le> of_int n * scale / 8 + (1 :: rat)" if "0 \<le> n" for n
  proof -
    have "0 < ?st" by (simp add: chooseGridStep_def)
    then have "of_nat (nat \<lfloor>of_int n / ?st\<rfloor>) \<le> of_int n / ?st" using that by (simp add: of_nat_nat)
    also have "\<dots> \<le> of_int n * scale / 8"
      using False that \<open>0 < ?st\<close> mult_left_mono [of 8 "?st * scale" "of_int n"] by (simp add: field_simps)
    finally show ?thesis by simp
  qed
  show ?thesis using False g [OF assms(1)] g [OF assms(2)] len [OF assms(1)] len [OF assms(2)]
    by (simp add: drawGrid_def Let_def comp_def del: upt_Suc)
qed

theorem drawGrid_lines_witness:
  "\<exists>ls. drawGrid (0, 0) (of_int 100 * 5) (of_int 200 * 5) 5 = Some ls \<and> of_nat (length ls) \<le> (400 :: rat)"
  using drawGrid_lines [of 100 200 5 0 0] by fastforce

end
