(* ===== verification/Admin_Tables.thy ===== *)
theory Admin_Tables
  imports JS_Prelude "HOL-Library.Multiset"
begin

text \<open>
  The tables and forms of the admin panel (\<^verbatim>\<open>admin/app.js\<close>): what each render function puts into
  its table, the player filter, and the two forms. A table is either the one row with a message
  that \<open>emptyRow\<close> makes or a list of rows of cells; a button or a selection carries the call it
  makes. The text of a date and of a multiplier is left as the number it shows.

  \<open>String.prototype.toLowerCase\<close> is the argument \<open>lower\<close>: it depends on the tables of Unicode.
  Number formatting and parsing of fractions are the arguments \<open>num_text\<close> and \<open>parseFloat\<close>.
\<close>

section \<open>Text\<close>

definition digit :: "nat \<Rightarrow> char" where
  "digit n = char_of (48 + n)"

fun show_nat :: "nat \<Rightarrow> string" where
  "show_nat n = (if n < 10 then [digit n] else show_nat (n div 10) @ [digit (n mod 10)])"

declare show_nat.simps [simp del]

definition show_int :: "int \<Rightarrow> string" where
  "show_int i = (if i < 0 then CHR ''-'' # show_nat (nat (- i)) else show_nat (nat i))"

definition is_digit :: "char \<Rightarrow> bool" where
  "is_digit c \<longleftrightarrow> 48 \<le> (of_char c :: nat) \<and> (of_char c :: nat) \<le> 57"

definition is_space :: "char \<Rightarrow> bool" where
  "is_space c \<longleftrightarrow> (let n = of_char c :: nat in (9 \<le> n \<and> n \<le> 13) \<or> n = 32 \<or> n = 160)"

definition js_trim :: "string \<Rightarrow> string" where
  "js_trim s = rev (dropWhile is_space (rev (dropWhile is_space s)))"

fun js_includes :: "string \<Rightarrow> string \<Rightarrow> bool" where
  "js_includes [] q = (q = [])"
| "js_includes (c # s) q = (take (length q) (c # s) = q \<or> js_includes s q)"

definition digits_value :: "string \<Rightarrow> int" where
  "digits_value ds = foldl (\<lambda>a c. a * 10 + (of_char c - 48)) 0 ds"

text \<open>\<open>Number.parseInt(s, 10)\<close>; \<open>None\<close> is \<open>NaN\<close>.\<close>

definition parseInt10 :: "string \<Rightarrow> int option" where
  "parseInt10 s =
     (let s = dropWhile is_space s;
          neg = (s \<noteq> [] \<and> hd s = CHR ''-'');
          s = (if s \<noteq> [] \<and> (hd s = CHR ''-'' \<or> hd s = CHR ''+'') then tl s else s);
          ds = takeWhile is_digit s
      in if ds = [] then None else Some (if neg then - digits_value ds else digits_value ds))"

section \<open>Data\<close>

record player =
  pl_id :: int
  pl_name :: string
  pl_x :: int
  pl_y :: int
  pl_health :: int
  pl_max_health :: int
  pl_money :: int
  pl_creds :: int
  pl_crystals :: "int list"
  pl_role :: int

record event =
  ev_id :: string
  ev_title :: string
  starts_at :: int
  ends_at :: int
  xp_mult :: rat
  drop_mult :: rat

record stats =
  online_count :: int
  active_players :: "player list"
  active_events :: "event list"
  cost_mod :: "int list"
  market_prices :: "int list"

record command =
  cmd_name :: string
  cmd_description :: string
  cmd_slash :: string
  cmd_console :: string

definition ROLE_LABELS :: "string list" where
  "ROLE_LABELS = [''Player'', ''Moderator'', ''Admin'']"

definition CRYSTALS :: "(string \<times> string) list" where
  "CRYSTALS = [(''Green'', ''var(--green)''), (''Blue'', ''var(--blue)''), (''Red'', ''var(--red)''),
     (''Violet'', ''var(--violet)''), (''White'', ''var(--white)''), (''Cyan'', ''var(--cyan)'')]"

section \<open>Tables\<close>

datatype call = Kick int string | SetRole int | Edit event | Delete string

datatype cell =
    Text string
  | Date int
  | Mult rat
  | Swatch string string
  | Select "(nat \<times> string \<times> bool) list" call
  | Buttons "(string \<times> call) list"

datatype table = EmptyRow nat string | Rows "cell list list"

definition show_opt :: "int option \<Rightarrow> string" where
  "show_opt v = (case v of Some i \<Rightarrow> show_int i | None \<Rightarrow> [])"

definition join :: "string \<Rightarrow> string list \<Rightarrow> string" where
  "join sep ss = (case ss of [] \<Rightarrow> [] | s # ss \<Rightarrow> s @ concat (map (\<lambda>t. sep @ t) ss))"

definition role_label :: "int \<Rightarrow> string" where
  "role_label r = (case ta_get ROLE_LABELS r of Some l \<Rightarrow> l | None \<Rightarrow> ''Role '' @ show_int r)"

definition renderOverviewPlayers :: "stats \<Rightarrow> table" where
  "renderOverviewPlayers st =
     (let players = take 12 (sort_key pl_id (active_players st)) in
      if players = [] then EmptyRow 6 ''No online players''
      else Rows (map (\<lambda>p.
        [Text (show_int (pl_id p)), Text (pl_name p), Text (show_int (pl_x p) @ '':'' @ show_int (pl_y p)),
         Text (show_int (pl_health p) @ ''/'' @ show_int (pl_max_health p)),
         Text (show_int (pl_money p)), Text (role_label (pl_role p))]) players))"

definition matches :: "(string \<Rightarrow> string) \<Rightarrow> string \<Rightarrow> player \<Rightarrow> bool" where
  "matches lower query p \<longleftrightarrow> js_includes (show_int (pl_id p)) query \<or> js_includes (lower (pl_name p)) query"

definition filteredPlayers :: "(string \<Rightarrow> string) \<Rightarrow> string \<Rightarrow> stats option \<Rightarrow> player list" where
  "filteredPlayers lower input st =
     (let query = lower (js_trim input);
          players = sort_key pl_id (case st of Some d \<Rightarrow> active_players d | None \<Rightarrow> [])
      in if query = [] then players else filter (matches lower query) players)"

definition role_select :: "player \<Rightarrow> cell" where
  "role_select p =
     Select (map (\<lambda>(role, label). (role, label, pl_role p = int role)) (List.enumerate 0 ROLE_LABELS)) (SetRole (pl_id p))"

definition renderPlayers :: "(string \<Rightarrow> string) \<Rightarrow> string \<Rightarrow> stats option \<Rightarrow> table" where
  "renderPlayers lower input st =
     (let players = filteredPlayers lower input st in
      if players = [] then EmptyRow 9 ''No matching online players''
      else Rows (map (\<lambda>p.
        [Text (show_int (pl_id p)), Text (pl_name p), Text (show_int (pl_x p) @ '':'' @ show_int (pl_y p)),
         Text (show_int (pl_health p) @ ''/'' @ show_int (pl_max_health p)),
         Text (show_int (pl_money p)), Text (show_int (pl_creds p)),
         Text (join '' / '' (map show_int (pl_crystals p))),
         role_select p, Buttons [(''Kick'', Kick (pl_id p) (pl_name p))]]) players))"

definition renderEvents :: "stats \<Rightarrow> table" where
  "renderEvents st =
     (let events = sort_key starts_at (active_events st) in
      if events = [] then EmptyRow 7 ''No active or scheduled events''
      else Rows (map (\<lambda>e.
        [Text (ev_id e), Text (ev_title e), Date (starts_at e), Date (ends_at e), Mult (xp_mult e), Mult (drop_mult e),
         Buttons [(''Edit'', Edit e), (''Delete'', Delete (ev_id e))]]) events))"

definition renderMarketTable :: "stats \<Rightarrow> table" where
  "renderMarketTable st =
     Rows (map (\<lambda>i.
       [Swatch (fst (CRYSTALS ! i)) (snd (CRYSTALS ! i)), Text (show_opt (ta_get (cost_mod st) (int i))),
        Text (show_opt (ta_get (market_prices st) (int i))),
        Text (case ta_get (market_prices st) (int i) of Some p \<Rightarrow> show_int (p * 10) | None \<Rightarrow> ''NaN'')])
       [0..<length CRYSTALS])"

text \<open>The two market tables and the fields of the form, which keep their text while one of them is edited.\<close>

definition renderMarket :: "stats \<Rightarrow> bool \<Rightarrow> string list \<Rightarrow> table \<times> table \<times> string list" where
  "renderMarket st editing texts =
     (renderMarketTable st, renderMarketTable st,
      if editing then texts else map (\<lambda>i. show_opt (ta_get (cost_mod st) (int i))) [0..<6])"

definition renderCommands :: "command list option \<Rightarrow> (string \<times> string \<times> string \<times> string) list option" where
  "renderCommands cs =
     (case cs of
        None \<Rightarrow> None
      | Some cs \<Rightarrow>
          (if cs = [] then None
           else Some (map (\<lambda>c.
             (cmd_name c, cmd_description c,
              if cmd_slash c = [] then ''no slash command'' else cmd_slash c,
              if cmd_console c = [] then ''no console command'' else cmd_console c)) cs)))"

section \<open>Forms\<close>

record event_form =
  f_id :: string
  f_title :: string
  f_start :: string
  f_end :: string
  f_xp_mult :: string
  f_drop_mult :: string

text \<open>What \<open>saveEvent\<close> sends; \<open>None\<close> is \<open>NaN\<close>.\<close>

record event_payload =
  p_id :: string
  p_title :: string
  p_starts_at :: "int option"
  p_ends_at :: "int option"
  p_xp_mult :: "rat option"
  p_drop_mult :: "rat option"

definition fillEventForm :: "(rat \<Rightarrow> string) \<Rightarrow> event \<Rightarrow> event_form" where
  "fillEventForm num_text item =
     \<lparr>f_id = ev_id item, f_title = ev_title item, f_start = show_int (starts_at item),
      f_end = show_int (ends_at item), f_xp_mult = num_text (xp_mult item), f_drop_mult = num_text (drop_mult item)\<rparr>"

definition event_payload_of :: "(string \<Rightarrow> rat option) \<Rightarrow> event_form \<Rightarrow> event_payload" where
  "event_payload_of parseFloat f =
     \<lparr>p_id = js_trim (f_id f), p_title = js_trim (f_title f),
      p_starts_at = parseInt10 (f_start f), p_ends_at = parseInt10 (f_end f),
      p_xp_mult = parseFloat (f_xp_mult f), p_drop_mult = parseFloat (f_drop_mult f)\<rparr>"

definition fillDefaultEventDates :: "rat \<Rightarrow> event_form \<Rightarrow> event_form" where
  "fillDefaultEventDates date f =
     (let now = \<lfloor>date / 1000\<rfloor> in f\<lparr>f_start := show_int now, f_end := show_int (now + 86400 * 7)\<rparr>)"

definition market_payload :: "string list \<Rightarrow> int option list" where
  "market_payload texts = map (\<lambda>i. parseInt10 (texts ! i)) [0..<6]"

section \<open>Decimal numerals\<close>

lemma of_char_digit [simp]: "n < 10 \<Longrightarrow> of_char (digit n) = (48 + n :: nat)"
  by (simp add: digit_def)

lemma of_char_digit_int [simp]: "n < 10 \<Longrightarrow> of_char (digit n) = (48 + int n :: int)"
  using of_nat_of_char [of "digit n", where ?'a = int] by simp

lemma is_digit_digit [simp]: "n < 10 \<Longrightarrow> is_digit (digit n)"
  by (simp add: is_digit_def)

lemma show_nat_digits: "list_all is_digit (show_nat n)"
  by (induction n rule: show_nat.induct) (subst show_nat.simps, simp)

lemma show_nat_nonempty [simp]: "show_nat n \<noteq> []"
  by (subst show_nat.simps) simp

lemma digits_value_snoc: "digits_value (ds @ [c]) = digits_value ds * 10 + (of_char c - 48)"
  by (simp add: digits_value_def)

lemma digits_value_show_nat: "digits_value (show_nat n) = int n"
proof (induction n rule: show_nat.induct)
  case (1 n)
  show ?case
  proof (cases "n < 10")
    case True
    then show ?thesis by (simp add: show_nat.simps [of n] digits_value_def)
  next
    case False
    then have "show_nat n = show_nat (n div 10) @ [digit (n mod 10)]" by (simp add: show_nat.simps [of n])
    then have "digits_value (show_nat n) = digits_value (show_nat (n div 10)) * 10 + int (n mod 10)"
      by (simp add: digits_value_snoc)
    also have "\<dots> = int (n div 10 * 10 + n mod 10)" using 1 False by (simp only: of_nat_add of_nat_mult) simp
    finally show ?thesis by (simp only: div_mult_mod_eq)
  qed
qed

lemma digit_not_space: "is_digit c \<Longrightarrow> \<not> is_space c"
  by (auto simp: is_digit_def is_space_def Let_def)

lemma sign_not_space [simp]: "\<not> is_space (CHR ''-'')"
  by (simp add: is_space_def)

lemma digit_not_sign: "is_digit c \<Longrightarrow> c \<noteq> CHR ''-'' \<and> c \<noteq> CHR ''+''"
  by (auto simp: is_digit_def)

lemma dropWhile_id: "list_all (\<lambda>c. \<not> P c) s \<Longrightarrow> dropWhile P s = s"
  by (cases s) auto

lemma show_int_no_space: "list_all (\<lambda>c. \<not> is_space c) (show_int i)"
  using show_nat_digits digit_not_space unfolding show_int_def by (auto simp: list_all_iff)

lemma trim_show_int [simp]: "js_trim (show_int i) = show_int i"
  using show_int_no_space [of i] by (simp add: js_trim_def dropWhile_id list_all_rev)

lemma parseInt10_show_int [simp]: "parseInt10 (show_int i) = Some i"
proof -
  have d: "list_all is_digit (show_nat n)" "takeWhile is_digit (show_nat n) = show_nat n" for n
    using show_nat_digits [of n] by (simp_all add: takeWhile_eq_all_conv list_all_iff)
  have h: "is_digit (hd (show_nat n))" for n using d(1) [of n] by (simp add: list_all_iff)
  have e: "dropWhile is_space (show_int i) = show_int i" using show_int_no_space by (rule dropWhile_id)
  show ?thesis
    unfolding parseInt10_def e Let_def
    using digit_not_sign [OF h] by (simp add: show_int_def d(2) digits_value_show_nat)
qed

lemma includes_prefix: "js_includes (s @ t) s"
proof (cases "s @ t")
  case (Cons c u)
  have "take (length s) (s @ t) = s" by simp
  then show ?thesis unfolding Cons by simp
qed auto

lemma includes_self [simp]: "js_includes s s"
  using includes_prefix [of s "[]"] by simp

section \<open>Properties\<close>

text \<open>
  (C29) The player table shows exactly the players that match the filter, in the order of their
  numbers and, for equal numbers, in the order in which the server sent them; a blank filter
  shows every player; and the number of a listed player, typed in full, always finds that player.
\<close>

theorem filteredPlayers_spec:
  fixes lower :: "string \<Rightarrow> string"
  assumes digits_have_no_case: "\<And>i. lower (show_int i) = show_int i" and lower_nil: "lower [] = []"
  shows "let shown = filteredPlayers lower input (Some st); q = lower (js_trim input);
      fits = (\<lambda>p. q = [] \<or> matches lower q p) in
    sorted (map pl_id shown) \<and> mset shown = filter_mset fits (mset (active_players st))
    \<and> (\<forall>k. filter (\<lambda>p. pl_id p = k) shown = filter (\<lambda>p. pl_id p = k \<and> fits p) (active_players st))
    \<and> (list_all is_space input \<longrightarrow> mset shown = mset (active_players st))
    \<and> (\<forall>p \<in> set (active_players st). p \<in> set (filteredPlayers lower (show_int (pl_id p)) (Some st)))"
proof -
  let ?q = "lower (js_trim input)"
  let ?fits = "\<lambda>p. ?q = [] \<or> matches lower ?q p"
  have eq: "filteredPlayers lower input (Some st) = filter ?fits (sort_key pl_id (active_players st))"
    by (simp add: filteredPlayers_def Let_def)
  have "sorted (map pl_id (filter ?fits (sort_key pl_id (active_players st))))"
    by (rule sorted_filter) simp
  moreover have "filter (\<lambda>p. pl_id p = k) (filter ?fits (sort_key pl_id (active_players st))) =
      filter (\<lambda>p. pl_id p = k \<and> ?fits p) (active_players st)" for k
  proof -
    have "filter (\<lambda>p. pl_id p = k) (filter ?fits (sort_key pl_id (active_players st))) =
        filter ?fits (filter (\<lambda>p. pl_id p = k) (sort_key pl_id (active_players st)))"
      by (simp add: conj_commute)
    also have "\<dots> = filter ?fits (filter (\<lambda>p. pl_id p = k) (active_players st))"
      by (simp only: sort_key_stable)
    finally show ?thesis by (simp add: conj_commute)
  qed
  moreover have "?q = []" if "list_all is_space input"
  proof -
    have "dropWhile is_space input = []" using that by (simp add: list_all_iff)
    then show ?thesis by (simp only: js_trim_def lower_nil rev.simps dropWhile.simps)
  qed
  moreover have "p \<in> set (filteredPlayers lower (show_int (pl_id p)) (Some st))" if "p \<in> set (active_players st)" for p
    using that by (simp add: filteredPlayers_def Let_def digits_have_no_case matches_def)
  ultimately show ?thesis unfolding Let_def eq by simp
qed

definition two_players :: stats where
  "two_players =
     (let p = \<lparr>pl_id = 12, pl_name = ''Anna'', pl_x = 3, pl_y = 4, pl_health = 90, pl_max_health = 100, pl_money = 5,
               pl_creds = 0, pl_crystals = [1, 2, 3, 4, 5, 6], pl_role = 0\<rparr>
      in \<lparr>online_count = 2, active_players = [p, p\<lparr>pl_id := 7, pl_name := ''Boris''\<rparr>], active_events = [],
          cost_mod = [1, 1, 1, 1, 1, 1], market_prices = [10, 10, 10, 10, 10, 10]\<rparr>)"

theorem filteredPlayers_spec_witness:
  "mset (filteredPlayers id '' '' (Some two_players)) = mset (active_players two_players)
    \<and> sorted (map pl_id (filteredPlayers id '' '' (Some two_players)))"
proof -
  have "\<And>i. id (show_int i) = show_int i" "id [] = ([] :: string)" by simp_all
  from filteredPlayers_spec [OF this, of "'' ''" two_players]
  have "list_all is_space '' '' \<longrightarrow> mset (filteredPlayers id '' '' (Some two_players)) = mset (active_players two_players)"
      "sorted (map pl_id (filteredPlayers id '' '' (Some two_players)))"
    unfolding Let_def by (blast, blast)
  then show ?thesis by (simp add: is_space_def)
qed



end
