(* ===== verification/Admin_Panel.thy ===== *)
theory Admin_Panel
  imports Admin_Map Admin_Tables
begin

text \<open>
  The admin panel (\<^verbatim>\<open>admin/app.js\<close>) as a state machine. The state holds the variables of the
  module, the texts and tables on the page, the live interval timers and the requests that wait for
  an answer. An asynchronous function is cut at its \<open>fetch\<close>: the part before it is the handler of
  the event, the rest is a \<open>task\<close> that waits in \<open>pending\<close> and that \<open>resume\<close> runs on the answer.
  Between the answer of the network and the reading of its body the code touches nothing, so an
  answer is one step. Answers may come in any order, between any events: the relation
  \<open>panel_step\<close>. An exception ends the handler or the task; what it did before stays.

  The drawing of the map, which \<open>loadMap\<close> triggers, is in the theory of the map view.
\<close>

section \<open>State\<close>

text \<open>
  What \<open>readResponse\<close> gives: one of the JSON objects of the server (the object with \<open>success\<close> and
  \<open>message\<close> answers every command), another text, or a value that JavaScript takes for false.
\<close>

datatype body =
    B_stats stats
  | B_map map_data
  | B_commands "command list"
  | B_result bool string
  | B_text string
  | B_falsy

text \<open>The network fails, the body is not the JSON it says it is, or status, status text and body.\<close>

datatype answer = NetError string | BadBody | Answer nat string body

datatype task =
    T_auth string
  | T_stats
  | T_refresh_map
  | T_map
  | T_commands
  | T_role int
  | T_kick string
  | T_delete string
  | T_save_event string
  | T_save_market
  | T_metrics

datatype payload =
    P_none
  | P_token string
  | P_role int
  | P_event event_payload
  | P_market "int option list"

record request =
  rq_path :: string
  rq_method :: string
  rq_token :: "string option"
  rq_payload :: payload

datatype metrics_text = M_none | M_loading | M_body body | M_status nat string

record panel =
  token :: string
  storage :: string
  currentView :: string
  statsData :: "body option"
  mapData :: "body option"
  commandsData :: "body option"
  refreshTimer :: "nat option"
  requestInFlight :: bool
  timers :: "nat set"
  next_timer :: nat
  pending :: "task list"
  sent :: "request list"
  status :: "string \<times> string"
  toasts :: "(string \<times> string) list"
  auth_input :: string
  auto_refresh :: bool
  player_filter :: string
  market_editing :: bool
  market_texts :: "string list"
  event_form :: event_form
  overview_players :: table
  players_table :: table
  events_table :: table
  market_table :: table
  commands_list :: "(string \<times> string \<times> string \<times> string) list option"
  map_numbers :: "(nat \<times> nat \<times> int \<times> int) option"
  metrics_output :: metrics_text

definition setStatus :: "string \<Rightarrow> string \<Rightarrow> panel \<Rightarrow> panel" where
  "setStatus kind t p = p\<lparr>status := (kind, t)\<rparr>"

definition toast :: "string \<Rightarrow> string \<Rightarrow> panel \<Rightarrow> panel" where
  "toast message kind p = p\<lparr>toasts := toasts p @ [(message, kind)]\<rparr>"

section \<open>Requests\<close>

definition send :: "request \<Rightarrow> task \<Rightarrow> panel \<Rightarrow> panel" where
  "send r t p = p\<lparr>sent := sent p @ [r], pending := pending p @ [t]\<rparr>"

text \<open>\<open>apiFetch\<close> up to its \<open>fetch\<close>.\<close>

definition apiFetch :: "string \<Rightarrow> string \<Rightarrow> payload \<Rightarrow> task \<Rightarrow> panel \<Rightarrow> panel" where
  "apiFetch path meth pl t p =
     send \<lparr>rq_path = ''/api'' @ path, rq_method = meth, rq_token = Some (token p), rq_payload = pl\<rparr> t p"

datatype outcome = Raised | Got "body option"

definition response_ok :: "nat \<Rightarrow> bool" where
  "response_ok st \<longleftrightarrow> 200 \<le> st \<and> st \<le> 299"

definition error_message :: "nat \<Rightarrow> string \<Rightarrow> body \<Rightarrow> string" where
  "error_message st txt b =
     (case b of
        B_result _ m \<Rightarrow> if m \<noteq> [] then m else show_nat st @ '' '' @ txt
      | _ \<Rightarrow> show_nat st @ '' '' @ txt)"

text \<open>\<open>apiFetch\<close> after its \<open>fetch\<close>: what it returns; \<open>Got None\<close> is \<open>null\<close>.\<close>

fun apiFetch_answer :: "answer \<Rightarrow> panel \<Rightarrow> panel \<times> outcome" where
  "apiFetch_answer (NetError m) p =
     (toast (''Network error: '' @ m) ''bad'' (setStatus ''bad'' (''Network error: '' @ m) p), Got None)"
| "apiFetch_answer BadBody p = (p, Raised)"
| "apiFetch_answer (Answer st txt b) p =
     (if st = 401 then
        (toast ''Invalid or missing admin token'' ''bad'' (setStatus ''bad'' ''Unauthorized'' p), Got None)
      else if \<not> response_ok st then
        (toast (error_message st txt b) ''bad'' (setStatus ''bad'' (error_message st txt b) p), Got None)
      else (p, Got (Some b)))"

definition truthy :: "body option \<Rightarrow> bool" where
  "truthy b \<longleftrightarrow> (case b of None \<Rightarrow> False | Some b \<Rightarrow> b \<noteq> B_falsy)"

definition success :: "body option \<Rightarrow> bool" where
  "success b \<longleftrightarrow> (case b of Some (B_result ok _) \<Rightarrow> ok | _ \<Rightarrow> False)"

section \<open>Refreshing\<close>

definition stats_of :: "body option \<Rightarrow> stats option" where
  "stats_of b = (case b of Some (B_stats d) \<Rightarrow> Some d | _ \<Rightarrow> None)"

text \<open>Rendering; a body that is not the statistics object makes the first field access raise.\<close>

definition renderStats :: "(string \<Rightarrow> string) \<Rightarrow> panel \<Rightarrow> panel result" where
  "renderStats lower p =
     (case statsData p of
        None \<Rightarrow> Inr p
      | Some (B_stats d) \<Rightarrow>
          Inr (p\<lparr>overview_players := renderOverviewPlayers d,
                 players_table := renderPlayers lower (player_filter p) (Some d),
                 events_table := renderEvents d,
                 market_table := renderMarketTable d,
                 market_texts := snd (snd (renderMarket d (market_editing p) (market_texts p)))\<rparr>)
      | Some _ \<Rightarrow> Inl TypeError)"

definition refreshAll :: "panel \<Rightarrow> panel" where
  "refreshAll p =
     (if token p = [] \<or> requestInFlight p then p
      else apiFetch ''/stats'' ''GET'' P_none T_stats (p\<lparr>requestInFlight := True\<rparr>))"

definition refresh_done :: "panel \<Rightarrow> panel" where
  "refresh_done p = (setStatus ''ok'' ''Updated'' p)\<lparr>requestInFlight := False\<rparr>"

definition loadMap :: "task \<Rightarrow> panel \<Rightarrow> panel" where
  "loadMap t p = apiFetch ''/map'' ''GET'' P_none t p"

definition refresh_stats :: "(string \<Rightarrow> string) \<Rightarrow> answer \<Rightarrow> panel \<Rightarrow> panel" where
  "refresh_stats lower a p =
     (case apiFetch_answer a p of
        (p, Raised) \<Rightarrow> p\<lparr>requestInFlight := False\<rparr>
      | (p, Got data) \<Rightarrow>
          if \<not> truthy data then p\<lparr>requestInFlight := False\<rparr>
          else case renderStats lower (p\<lparr>statsData := data\<rparr>) of
                 Inl _ \<Rightarrow> p\<lparr>statsData := data, requestInFlight := False\<rparr>
               | Inr p \<Rightarrow>
                   if currentView p = ''map'' \<or> mapData p = None then loadMap T_refresh_map p else refresh_done p)"

text \<open>\<open>loadMap\<close> after its answer; the flag tells that it raised.\<close>

definition loadMap_answer :: "answer \<Rightarrow> panel \<Rightarrow> panel \<times> bool" where
  "loadMap_answer a p =
     (case apiFetch_answer a p of
        (p, Raised) \<Rightarrow> (p, True)
      | (p, Got data) \<Rightarrow>
          if \<not> truthy data then (p, False)
          else case data of
                 Some (B_map d) \<Rightarrow>
                   (p\<lparr>mapData := data,
                      map_numbers := Some (length (md_players d), length (md_buildings d), md_width d, md_height d)\<rparr>, False)
               | _ \<Rightarrow> (p\<lparr>mapData := data\<rparr>, True))"

definition refresh_map :: "answer \<Rightarrow> panel \<Rightarrow> panel" where
  "refresh_map a p =
     (case loadMap_answer a p of
        (p, raised) \<Rightarrow> if raised then p\<lparr>requestInFlight := False\<rparr> else refresh_done p)"

section \<open>Commands\<close>

definition commands_of :: "body \<Rightarrow> command list option" where
  "commands_of b =
     (case b of
        B_commands cs \<Rightarrow> Some cs
      | B_text s \<Rightarrow> Some (map (\<lambda>_. \<lparr>cmd_name = [], cmd_description = [], cmd_slash = [], cmd_console = []\<rparr>) s)
      | _ \<Rightarrow> None)"

definition render_commands :: "panel \<Rightarrow> panel" where
  "render_commands p =
     (case Option.bind (commandsData p) commands_of of
        Some cs \<Rightarrow> p\<lparr>commands_list := renderCommands (Some cs)\<rparr>
      | None \<Rightarrow> p\<lparr>commands_list := (if commandsData p = None then None else Some [])\<rparr>)"

definition loadCommands :: "panel \<Rightarrow> panel" where
  "loadCommands p =
     (if commandsData p \<noteq> None then render_commands p
      else apiFetch ''/admin/commands'' ''GET'' P_none T_commands p)"

definition commands_answer :: "answer \<Rightarrow> panel \<Rightarrow> panel" where
  "commands_answer a p =
     (case apiFetch_answer a p of
        (p, Raised) \<Rightarrow> p
      | (p, Got data) \<Rightarrow> if \<not> truthy data then p else render_commands (p\<lparr>commandsData := data\<rparr>))"

section \<open>Actions\<close>

definition hex_digit :: "nat \<Rightarrow> char" where
  "hex_digit n = (if n < 10 then char_of (48 + n) else char_of (55 + n))"

definition pct :: "nat \<Rightarrow> string" where
  "pct n = [CHR ''%'', hex_digit (n div 16), hex_digit (n mod 16)]"

definition uri_unreserved :: "char \<Rightarrow> bool" where
  "uri_unreserved c \<longleftrightarrow>
     (let n = of_char c :: nat in (65 \<le> n \<and> n \<le> 90) \<or> (97 \<le> n \<and> n \<le> 122) \<or> (48 \<le> n \<and> n \<le> 57)
        \<or> c \<in> set ''-_.!~*()'' \<or> n = 39)"

text \<open>The characters of the model are the first 256 of Unicode: one or two bytes of UTF-8.\<close>

definition encodeURIComponent :: "string \<Rightarrow> string" where
  "encodeURIComponent s = concat (map (\<lambda>c.
     if uri_unreserved c then [c]
     else let n = of_char c :: nat in if n < 128 then pct n else pct (192 + n div 64) @ pct (128 + n mod 64)) s)"

definition authenticate :: "panel \<Rightarrow> panel" where
  "authenticate p =
     (let value = js_trim (auth_input p) in
      send \<lparr>rq_path = ''/api/auth'', rq_method = ''POST'', rq_token = None, rq_payload = P_token value\<rparr> (T_auth value) p)"

definition auth_answer :: "string \<Rightarrow> answer \<Rightarrow> panel \<Rightarrow> panel" where
  "auth_answer value a p =
     (case a of
        Answer st txt b \<Rightarrow>
          if response_ok st \<and> success (Some b)
          then refreshAll (toast ''Authenticated'' ''ok'' (setStatus ''ok'' ''Authenticated''
                 (p\<lparr>token := value, storage := value\<rparr>)))
          else toast ''Invalid token'' ''bad'' (setStatus ''bad'' ''Invalid token'' p)
      | _ \<Rightarrow> p)"

definition setPlayerRole :: "int \<Rightarrow> int \<Rightarrow> panel \<Rightarrow> panel" where
  "setPlayerRole i role p =
     apiFetch (''/players/'' @ show_int i @ ''/role'') ''POST'' (P_role role) (T_role i) p"

definition kickPlayer :: "bool \<Rightarrow> int \<Rightarrow> string \<Rightarrow> panel \<Rightarrow> panel" where
  "kickPlayer confirmed i name p =
     (let label = (if name \<noteq> [] then name @ '' ('' @ show_int i @ '')'' else show_int i) in
      if \<not> confirmed then p
      else apiFetch (''/players/'' @ show_int i @ ''/kick'') ''POST'' P_none (T_kick label) p)"

definition deleteEvent :: "bool \<Rightarrow> string \<Rightarrow> panel \<Rightarrow> panel" where
  "deleteEvent confirmed i p =
     (if \<not> confirmed then p
      else apiFetch (''/events/'' @ encodeURIComponent i) ''DELETE'' P_none (T_delete i) p)"

definition saveEvent :: "(string \<Rightarrow> rat option) \<Rightarrow> panel \<Rightarrow> panel" where
  "saveEvent parseFloat p =
     (let pl = event_payload_of parseFloat (event_form p) in
      apiFetch ''/events'' ''POST'' (P_event pl) (T_save_event (p_id pl)) p)"

definition saveMarket :: "panel \<Rightarrow> panel" where
  "saveMarket p = apiFetch ''/market'' ''POST'' (P_market (market_payload (market_texts p))) T_save_market p"

text \<open>
  After the answer of a command: a message on success, then a refresh; the two forms refresh only
  on success (\<open>always = False\<close>).
\<close>

definition command_answer :: "bool \<Rightarrow> string \<Rightarrow> answer \<Rightarrow> panel \<Rightarrow> panel" where
  "command_answer always message a p =
     (case apiFetch_answer a p of
        (p, Raised) \<Rightarrow> p
      | (p, Got data) \<Rightarrow>
          if success data then refreshAll (toast message ''ok'' p)
          else if always then refreshAll p else p)"

definition loadMetrics :: "panel \<Rightarrow> panel" where
  "loadMetrics p =
     send \<lparr>rq_path = ''/metrics'', rq_method = ''GET'', rq_token = None, rq_payload = P_none\<rparr> T_metrics
       (p\<lparr>metrics_output := M_loading\<rparr>)"

definition metrics_answer :: "answer \<Rightarrow> panel \<Rightarrow> panel" where
  "metrics_answer a p =
     (case a of
        Answer st txt b \<Rightarrow> p\<lparr>metrics_output := (if response_ok st then M_body b else M_status st txt)\<rparr>
      | _ \<Rightarrow> p)"

section \<open>Views and timers\<close>

definition switchView :: "string \<Rightarrow> panel \<Rightarrow> panel" where
  "switchView view p =
     (let p = p\<lparr>currentView := view\<rparr>;
          p = (if view = ''map'' then loadMap T_map p else p)
      in if view = ''commands'' then loadCommands p else p)"

definition setupAutoRefresh :: "panel \<Rightarrow> panel" where
  "setupAutoRefresh p =
     (let p = (case refreshTimer p of
                 Some t \<Rightarrow> p\<lparr>timers := timers p - {t}, refreshTimer := None\<rparr>
               | None \<Rightarrow> p)
      in if auto_refresh p
         then p\<lparr>timers := insert (next_timer p) (timers p), refreshTimer := Some (next_timer p),
                next_timer := next_timer p + 1\<rparr>
         else p)"

section \<open>The event loop\<close>

text \<open>What the page takes from the browser: case mapping, number formatting and number parsing.\<close>

record browser =
  lower :: "string \<Rightarrow> string"
  num_text :: "rat \<Rightarrow> string"
  parse_float :: "string \<Rightarrow> rat option"

datatype ui_event =
    AuthInput string
  | Login
  | Switch string
  | Refresh
  | AutoRefresh bool
  | FilterInput string
  | MarketFocus bool
  | MarketInput "string list"
  | EventInput event_form
  | FillWeek rat
  | SaveEvent
  | SaveMarket
  | LoadMetrics
  | RoleSelected int int
  | KickClicked bool int string
  | EditClicked event
  | DeleteClicked bool string

fun ui_handler :: "browser \<Rightarrow> ui_event \<Rightarrow> panel \<Rightarrow> panel" where
  "ui_handler br (AuthInput s) p = p\<lparr>auth_input := s\<rparr>"
| "ui_handler br Login p = authenticate p"
| "ui_handler br (Switch view) p = switchView view p"
| "ui_handler br Refresh p = refreshAll p"
| "ui_handler br (AutoRefresh b) p = setupAutoRefresh (p\<lparr>auto_refresh := b\<rparr>)"
| "ui_handler br (FilterInput s) p =
     p\<lparr>player_filter := s, players_table := renderPlayers (lower br) s (stats_of (statsData p))\<rparr>"
| "ui_handler br (MarketFocus b) p = p\<lparr>market_editing := b\<rparr>"
| "ui_handler br (MarketInput ss) p = p\<lparr>market_texts := ss\<rparr>"
| "ui_handler br (EventInput f) p = p\<lparr>event_form := f\<rparr>"
| "ui_handler br (FillWeek date) p = p\<lparr>event_form := fillDefaultEventDates date (event_form p)\<rparr>"
| "ui_handler br SaveEvent p = saveEvent (parse_float br) p"
| "ui_handler br SaveMarket p = saveMarket p"
| "ui_handler br LoadMetrics p = loadMetrics p"
| "ui_handler br (RoleSelected i role) p = setPlayerRole i role p"
| "ui_handler br (KickClicked confirmed i name) p = kickPlayer confirmed i name p"
| "ui_handler br (EditClicked item) p = switchView ''events'' (p\<lparr>event_form := fillEventForm (num_text br) item\<rparr>)"
| "ui_handler br (DeleteClicked confirmed i) p = deleteEvent confirmed i p"

fun resume :: "browser \<Rightarrow> task \<Rightarrow> answer \<Rightarrow> panel \<Rightarrow> panel" where
  "resume br (T_auth value) a p = auth_answer value a p"
| "resume br T_stats a p = refresh_stats (lower br) a p"
| "resume br T_refresh_map a p = refresh_map a p"
| "resume br T_map a p = fst (loadMap_answer a p)"
| "resume br T_commands a p = commands_answer a p"
| "resume br (T_role i) a p = command_answer True (''Role updated for '' @ show_int i) a p"
| "resume br (T_kick label) a p = command_answer True (''Kicked '' @ label) a p"
| "resume br (T_delete i) a p = command_answer True (''Event '' @ i @ '' deleted'') a p"
| "resume br (T_save_event i) a p = command_answer False (''Event '' @ i @ '' saved'') a p"
| "resume br T_save_market a p = command_answer False ''Market updated'' a p"
| "resume br T_metrics a p = metrics_answer a p"

definition blank_form :: event_form where
  "blank_form = \<lparr>f_id = [], f_title = [], f_start = [], f_end = [], f_xp_mult = [], f_drop_mult = []\<rparr>"

text \<open>The page as the script finds it: the stored token and the state of the check box.\<close>

definition blank_panel :: "string \<Rightarrow> bool \<Rightarrow> panel" where
  "blank_panel stored checked =
     \<lparr>token = stored, storage = stored, currentView = ''overview'', statsData = None, mapData = None,
      commandsData = None, refreshTimer = None, requestInFlight = False, timers = {}, next_timer = 1, pending = [],
      sent = [], status = ([], []), toasts = [], auth_input = [], auto_refresh = checked, player_filter = [],
      market_editing = False, market_texts = replicate 6 [], event_form = blank_form, overview_players = Rows [],
      players_table = Rows [], events_table = Rows [], market_table = Rows [], commands_list = Some [],
      map_numbers = None, metrics_output = M_none\<rparr>"

text \<open>\<open>bindUi\<close> and the last lines of the script.\<close>

definition start_panel :: "string \<Rightarrow> bool \<Rightarrow> rat \<Rightarrow> panel" where
  "start_panel stored checked date =
     (let p = blank_panel stored checked;
          p = setupAutoRefresh (p\<lparr>auth_input := token p\<rparr>);
          p = p\<lparr>event_form := fillDefaultEventDates date (event_form p)\<rparr>
      in if token p \<noteq> [] then refreshAll p else setStatus [] ''Enter admin token'' p)"

inductive panel_step :: "browser \<Rightarrow> panel \<Rightarrow> panel \<Rightarrow> bool" for br :: browser where
  ui: "panel_step br p (ui_handler br e p)"
| tick: "t \<in> timers p \<Longrightarrow> panel_step br p (refreshAll p)"
| answer: "pending p = xs @ t # ys \<Longrightarrow> panel_step br p (resume br t a (p\<lparr>pending := xs @ ys\<rparr>))"

definition panel_start :: "panel \<Rightarrow> bool" where
  "panel_start p \<longleftrightarrow> (\<exists>stored checked date. p = start_panel stored checked date)"

definition panel_reachable :: "browser \<Rightarrow> panel \<Rightarrow> bool" where
  "panel_reachable br p \<longleftrightarrow> (\<exists>s. panel_start s \<and> (panel_step br)\<^sup>*\<^sup>* s p)"

inductive_cases panel_stepE: "panel_step br p q"

section \<open>Invariants\<close>

fun is_refresh :: "task \<Rightarrow> bool" where
  "is_refresh T_stats = True"
| "is_refresh T_refresh_map = True"
| "is_refresh _ = False"

text \<open>\<open>n\<close> counts the refresh whose answer is being handled.\<close>

definition flight_ok :: "nat \<Rightarrow> panel \<Rightarrow> bool" where
  "flight_ok n p \<longleftrightarrow> length (filter is_refresh (pending p)) + n = (if requestInFlight p then 1 else 0)"

definition page_ok :: "browser \<Rightarrow> panel \<Rightarrow> bool" where
  "page_ok br p \<longleftrightarrow>
     timers p = set_option (refreshTimer p) \<and> storage p = token p
     \<and> (\<forall>r \<in> set (sent p). rq_path r = ''/api/stats'' \<longrightarrow> rq_token r \<noteq> Some [])
     \<and> (\<forall>d. statsData p = Some (B_stats d) \<longrightarrow>
          overview_players p = renderOverviewPlayers d
          \<and> players_table p = renderPlayers (lower br) (player_filter p) (Some d)
          \<and> events_table p = renderEvents d \<and> market_table p = renderMarketTable d)"

named_theorems panel_defs \<open>the handlers of the panel, for unfolding\<close>

declare setStatus_def [panel_defs] toast_def [panel_defs] send_def [panel_defs] apiFetch_def [panel_defs]
  refreshAll_def [panel_defs] refresh_done_def [panel_defs] loadMap_def [panel_defs]
  render_commands_def [panel_defs] loadCommands_def [panel_defs] authenticate_def [panel_defs]
  setPlayerRole_def [panel_defs] kickPlayer_def [panel_defs] deleteEvent_def [panel_defs]
  saveEvent_def [panel_defs] saveMarket_def [panel_defs] loadMetrics_def [panel_defs]
  switchView_def [panel_defs] setupAutoRefresh_def [panel_defs] Let_def [panel_defs]

lemma apiFetch_answer_shape: "\<exists>st ts out. apiFetch_answer a p = (p\<lparr>status := st, toasts := ts\<rparr>, out)"
proof -
  have "p = p\<lparr>status := status p, toasts := toasts p\<rparr>" by simp
  then have same: "\<exists>st ts out. (p, q) = (p\<lparr>status := st, toasts := ts\<rparr>, out)" for q :: outcome by metis
  have said: "\<exists>st' ts out. (p\<lparr>status := st, toasts := t\<rparr>, q) = (p\<lparr>status := st', toasts := ts\<rparr>, out)"
    for q :: outcome and st t by blast
  show ?thesis
    by (cases a) (simp_all add: toast_def setStatus_def same said del: prod.inject split_paired_Ex)
qed

lemma apiFetch_answer_cases:
  obtains st ts out where "apiFetch_answer a p = (p\<lparr>status := st, toasts := ts\<rparr>, out)"
  using apiFetch_answer_shape by blast

lemma flight_message [simp]: "flight_ok n (p\<lparr>status := st, toasts := ts\<rparr>) = flight_ok n p"
  by (simp add: flight_ok_def)

lemma page_message [simp]: "page_ok br (p\<lparr>status := st, toasts := ts\<rparr>) = page_ok br p"
  by (simp add: page_ok_def)

lemma flight_ui: "flight_ok 0 p \<Longrightarrow> flight_ok 0 (ui_handler br e p)"
  by (cases e) (auto simp: flight_ok_def panel_defs split: option.splits)

lemma flight_refreshAll: "flight_ok 0 p \<Longrightarrow> flight_ok 0 (refreshAll p)"
  by (auto simp: flight_ok_def panel_defs)

lemma page_refreshAll: "page_ok br p \<Longrightarrow> page_ok br (refreshAll p)"
  by (auto simp: page_ok_def panel_defs)

lemma page_setupAutoRefresh: "page_ok br p \<Longrightarrow> page_ok br (setupAutoRefresh p)"
  by (auto simp: page_ok_def panel_defs split: option.splits)

lemma page_switchView: "page_ok br p \<Longrightarrow> page_ok br (switchView view p)"
  by (auto simp: page_ok_def panel_defs split: option.splits)

lemma page_update [simp]:
  "page_ok br (p\<lparr>auth_input := s\<rparr>) = page_ok br p" "page_ok br (p\<lparr>auto_refresh := b\<rparr>) = page_ok br p"
  "page_ok br (p\<lparr>event_form := f\<rparr>) = page_ok br p" "page_ok br (p\<lparr>requestInFlight := b\<rparr>) = page_ok br p"
  "page_ok br (p\<lparr>pending := ts\<rparr>) = page_ok br p"
  by (simp_all add: page_ok_def)

lemma page_ui: "page_ok br p \<Longrightarrow> page_ok br (ui_handler br e p)"
proof (cases e)
  case (AutoRefresh b)
  then show "page_ok br p \<Longrightarrow> ?thesis" by (simp add: page_setupAutoRefresh)
next
  case (EditClicked item)
  then show "page_ok br p \<Longrightarrow> ?thesis" by (simp add: page_switchView)
qed (simp_all add: page_switchView page_refreshAll, auto simp: page_ok_def panel_defs stats_of_def split: option.splits)

lemma flight_resume:
  assumes "flight_ok (if is_refresh t then 1 else 0) p"
  shows "flight_ok 0 (resume br t a p)"
proof -
  obtain st ts out where fetched: "apiFetch_answer a p = (p\<lparr>status := st, toasts := ts\<rparr>, out)"
    by (rule apiFetch_answer_cases)
  show ?thesis
  proof (cases t)
    case T_stats
    then show ?thesis using assms
      by (auto simp: refresh_stats_def fetched flight_ok_def panel_defs renderStats_def
          split: if_splits outcome.splits option.splits body.splits sum.splits)
  next
    case T_refresh_map
    then show ?thesis using assms
      by (auto simp: refresh_map_def loadMap_answer_def fetched flight_ok_def panel_defs
          split: if_splits outcome.splits option.splits body.splits)
  next
    case T_map
    then show ?thesis using assms
      by (auto simp: loadMap_answer_def fetched flight_ok_def split: if_splits outcome.splits option.splits body.splits)
  next
    case T_commands
    then show ?thesis using assms
      by (auto simp: commands_answer_def fetched flight_ok_def panel_defs split: if_splits outcome.splits option.splits)
  next
    case (T_auth v)
    then show ?thesis using assms by (auto simp: auth_answer_def flight_ok_def panel_defs split: if_splits answer.splits)
  next
    case T_metrics
    then show ?thesis using assms by (auto simp: metrics_answer_def flight_ok_def split: if_splits answer.splits)
  qed (use assms in \<open>auto simp: command_answer_def fetched flight_ok_def panel_defs split: if_splits outcome.splits\<close>)
qed

lemma page_resume:
  assumes "page_ok br p"
  shows "page_ok br (resume br t a p)"
proof -
  obtain st ts out where fetched: "apiFetch_answer a p = (p\<lparr>status := st, toasts := ts\<rparr>, out)"
    by (rule apiFetch_answer_cases)
  show ?thesis
  proof (cases t)
    case T_stats
    then show ?thesis using assms
      by (auto simp: refresh_stats_def fetched page_ok_def panel_defs renderStats_def truthy_def
          split: outcome.splits option.splits body.splits sum.splits)
  next
    case T_refresh_map
    then show ?thesis using assms
      by (auto simp: refresh_map_def loadMap_answer_def fetched page_ok_def panel_defs
          split: outcome.splits option.splits body.splits)
  next
    case T_map
    then show ?thesis using assms
      by (auto simp: loadMap_answer_def fetched page_ok_def split: outcome.splits option.splits body.splits)
  next
    case T_commands
    then show ?thesis using assms
      by (auto simp: commands_answer_def fetched page_ok_def panel_defs split: outcome.splits option.splits)
  next
    case (T_auth v)
    then show ?thesis using assms
      by (auto simp: auth_answer_def page_ok_def panel_defs split: answer.splits)
  next
    case T_metrics
    then show ?thesis using assms by (auto simp: metrics_answer_def page_ok_def split: answer.splits)
  qed (use assms in \<open>auto simp: command_answer_def fetched toast_def intro!: page_refreshAll split: outcome.splits\<close>)
qed

lemma flight_pending:
  "flight_ok 0 p \<Longrightarrow> pending p = xs @ t # ys \<Longrightarrow>
    flight_ok (if is_refresh t then 1 else 0) (p\<lparr>pending := xs @ ys\<rparr>)"
  by (auto simp: flight_ok_def split: if_splits)

lemma blank_panel_ok: "flight_ok 0 (blank_panel stored checked) \<and> page_ok br (blank_panel stored checked)"
  by (simp add: blank_panel_def flight_ok_def page_ok_def)

lemma flight_setupAutoRefresh: "flight_ok n (setupAutoRefresh p) = flight_ok n p"
  by (auto simp: flight_ok_def setupAutoRefresh_def Let_def split: option.splits)

lemma flight_update [simp]:
  "flight_ok n (p\<lparr>auth_input := s\<rparr>) = flight_ok n p" "flight_ok n (p\<lparr>event_form := f\<rparr>) = flight_ok n p"
  "flight_ok n (p\<lparr>status := st\<rparr>) = flight_ok n p"
  by (simp_all add: flight_ok_def)

lemma page_status [simp]: "page_ok br (p\<lparr>status := st\<rparr>) = page_ok br p"
  by (simp add: page_ok_def)

lemma panel_start_ok: "flight_ok 0 (start_panel stored checked date) \<and> page_ok br (start_panel stored checked date)"
  unfolding start_panel_def Let_def setStatus_def
  by (auto intro!: flight_refreshAll page_refreshAll page_setupAutoRefresh simp: flight_setupAutoRefresh blank_panel_ok)

lemma panel_step_ok:
  assumes "panel_step br p q" "flight_ok 0 p" "page_ok br p"
  shows "flight_ok 0 q \<and> page_ok br q"
  using assms
  by (cases rule: panel_stepE)
    (auto intro: flight_ui page_ui flight_refreshAll page_refreshAll flight_resume page_resume flight_pending)

interpretation panel_sys: event_system panel_start "panel_step br" "\<lambda>p. flight_ok 0 p \<and> page_ok br p" for br
  by unfold_locales (auto simp: panel_start_def panel_start_ok dest: panel_step_ok)

section \<open>Properties\<close>

text \<open>
  (C5) Whatever the user does and in whatever order the server answers, late or not at all: at most
  one refresh is under way, exactly while \<open>requestInFlight\<close> is set; at most one refresh timer
  runs, the one the panel remembers; the stored token is the token in use; no statistics are
  requested without a token; and the tables on the page show the statistics received last, the
  player table through the current filter.
\<close>

theorem panel_invariant:
  assumes "panel_reachable br p"
  shows "flight_ok 0 p \<and> page_ok br p"
  using assms panel_sys.reachable_inv unfolding panel_reachable_def by blast

theorem panel_invariant_witness:
  "flight_ok 0 (refreshAll (start_panel ''key'' True 0))
    \<and> page_ok \<lparr>lower = id, num_text = (\<lambda>_. []), parse_float = (\<lambda>_. None)\<rparr> (refreshAll (start_panel ''key'' True 0))"
proof (rule panel_invariant)
  let ?br = "\<lparr>lower = id, num_text = (\<lambda>_. []), parse_float = (\<lambda>_. None)\<rparr>"
  have "panel_step ?br (start_panel ''key'' True 0) (ui_handler ?br Refresh (start_panel ''key'' True 0))"
    by (rule panel_step.ui)
  then show "panel_reachable ?br (refreshAll (start_panel ''key'' True 0))"
    unfolding panel_reachable_def panel_start_def by (metis r_into_rtranclp ui_handler.simps(4))
qed

text \<open>
  (C13) A refresh always ends: the answer to its first request, of whatever kind, either ends it or
  leads to the request for the map, and the answer to that one ends it; so at most two answers
  after it began, failures of the network and malformed bodies included, the panel can refresh again.
\<close>

theorem refresh_ends:
  "(\<not> requestInFlight (resume br T_stats a p) \<and> pending (resume br T_stats a p) = pending p
     \<or> pending (resume br T_stats a p) = pending p @ [T_refresh_map])
   \<and> \<not> requestInFlight (resume br T_refresh_map a p) \<and> pending (resume br T_refresh_map a p) = pending p"
proof -
  obtain st ts out where fetched: "apiFetch_answer a p = (p\<lparr>status := st, toasts := ts\<rparr>, out)"
    by (rule apiFetch_answer_cases)
  have "\<not> requestInFlight (resume br T_stats a p) \<and> pending (resume br T_stats a p) = pending p
     \<or> pending (resume br T_stats a p) = pending p @ [T_refresh_map]"
    by (auto simp: refresh_stats_def fetched panel_defs renderStats_def
        split: outcome.splits option.splits body.splits sum.splits)
  moreover have "\<not> requestInFlight (resume br T_refresh_map a p) \<and> pending (resume br T_refresh_map a p) = pending p"
    by (auto simp: refresh_map_def loadMap_answer_def fetched panel_defs split: outcome.splits option.splits body.splits)
  ultimately show ?thesis by blast
qed

text \<open>
  A refresh whose map request fails still reports success: the failure shows as a message, but
  the status line ends as \<open>ok\<close>, and the map stays the old one.
\<close>

theorem refresh_map_failure_reported_ok:
  assumes "a = NetError m \<or> (\<exists>st why b. a = Answer st why b \<and> \<not> response_ok st)"
  shows "status (resume br T_refresh_map a p) = (''ok'', ''Updated'')
    \<and> mapData (resume br T_refresh_map a p) = mapData p
    \<and> (\<exists>message. toasts (resume br T_refresh_map a p) = toasts p @ [(message, ''bad'')])"
  using assms
  by (auto simp: refresh_map_def loadMap_answer_def panel_defs truthy_def response_ok_def)

theorem refresh_map_failure_reported_ok_witness:
  "status (resume \<lparr>lower = id, num_text = (\<lambda>_. []), parse_float = (\<lambda>_. None)\<rparr> T_refresh_map
     (Answer 500 ''Internal Server Error'' B_falsy) (start_panel ''key'' True 0)) = (''ok'', ''Updated'')"
  using refresh_map_failure_reported_ok [of "Answer 500 ''Internal Server Error'' B_falsy" "[]"]
  by (simp add: response_ok_def)

end
