(* ===== verification/Vectors.thy ===== *)
theory Vectors
  imports Admin_Tables
begin

text \<open>
  The helpers of \<^verbatim>\<open>scripts/usefuladitions.js\<close>: vectors, the interpolations the renderer runs once per
  frame, and the abbreviated numbers of the status bars. Coordinates are rationals. The printing
  of integers is the one of the tables of the admin panel.
\<close>

section \<open>Vectors\<close>

record vector2d =
  vx :: rat
  vy :: rat

definition Vector2d :: "rat \<Rightarrow> rat \<Rightarrow> vector2d" where
  "Vector2d x y = \<lparr>vx = x, vy = y\<rparr>"

definition x_int :: "vector2d \<Rightarrow> int" where "x_int v = \<lfloor>vx v\<rfloor>"
definition y_int :: "vector2d \<Rightarrow> int" where "y_int v = \<lfloor>vy v\<rfloor>"

text \<open>The operator \<open>%\<close> with divisor 1: the rest has the sign of the dividend.\<close>

definition rem1 :: "rat \<Rightarrow> rat" where
  "rem1 x = x - of_int (js_trunc x)"

definition mantice :: "rat \<Rightarrow> rat" where
  "mantice x = (let xx = (if x < 0 then 1 + rem1 x else rem1 x) in if xx = 1 then 0 else xx)"

definition CopyV2 :: "vector2d \<Rightarrow> vector2d \<Rightarrow> vector2d" where
  "CopyV2 v from = v\<lparr>vx := vx from, vy := vy from\<rparr>"

definition Vec_Set :: "vector2d \<Rightarrow> rat \<Rightarrow> rat \<Rightarrow> vector2d" where
  "Vec_Set v x y = v\<lparr>vx := x, vy := y\<rparr>"

definition Vec_Add :: "vector2d \<Rightarrow> rat \<Rightarrow> rat \<Rightarrow> vector2d" where
  "Vec_Add v x y = v\<lparr>vx := vx v + x, vy := vy v + y\<rparr>"

definition Addv2 :: "vector2d \<Rightarrow> vector2d \<Rightarrow> vector2d" where
  "Addv2 v u = v\<lparr>vx := vx v + vx u, vy := vy v + vy u\<rparr>"

definition IsEqually :: "vector2d \<Rightarrow> vector2d \<Rightarrow> bool" where
  "IsEqually v u \<longleftrightarrow> vx v = vx u \<and> vy v = vy u"

section \<open>Interpolation\<close>

definition lerp_coord :: "rat \<Rightarrow> rat \<Rightarrow> rat \<Rightarrow> rat \<Rightarrow> rat" where
  "lerp_coord accuracy amt goal x = (if \<bar>x - goal\<bar> > accuracy then (1 - amt) * x + amt * goal else goal)"

definition Lerp2d :: "vector2d \<Rightarrow> rat \<Rightarrow> vector2d option \<Rightarrow> rat \<Rightarrow> vector2d \<Rightarrow> vector2d" where
  "Lerp2d target amt translation accuracy v =
     (case translation of
        Some t \<Rightarrow> v\<lparr>vx := lerp_coord accuracy amt (vx target - vx t) (vx v), vy := lerp_coord accuracy amt (vy target - vy t) (vy v)\<rparr>
      | None \<Rightarrow> v\<lparr>vx := lerp_coord accuracy amt (vx target) (vx v), vy := lerp_coord accuracy amt (vy target) (vy v)\<rparr>)"

text \<open>The angle the renderer shows, in degrees; the statements in the order of the code.\<close>

definition Lerp :: "rat \<Rightarrow> rat \<Rightarrow> rat \<Rightarrow> rat" where
  "Lerp ta tb amt =
     (let tb = (if ta > 270 \<and> ta < 360 \<and> tb = 90 then 450 else tb);
          ta = (if ta > 359 \<and> tb = 90 then 0 else ta);
          tb = (if tb = 0 \<and> ta \<ge> 169 then 360 else tb)
      in if ta \<ge> 359 \<and> (tb = 0 \<or> tb = 360) then 0
         else (let tb = (if tb = 270 \<and> ta < 90 then - 90 else tb)
               in if ta < 0 \<and> (tb = 270 \<or> tb = - 90) then 360 - ta
                  else (1 - amt) * ta + amt * tb))"

section \<open>Abbreviated numbers\<close>

text \<open>Division of \<open>BigInt\<close> values truncates; the numbers here are not negative.\<close>

function kkk_loop :: "int \<Rightarrow> string \<Rightarrow> int \<times> string" where
  "kkk_loop number result =
     (if number > 10 ^ 9 then kkk_loop (number div 10 ^ 9) (result @ ''T'') else (number, result))"
  by auto
termination by (relation "measure (nat \<circ> fst)") auto

declare kkk_loop.simps [simp del]

definition toKKKformat :: "int \<Rightarrow> int \<Rightarrow> string" where
  "toKKKformat number nochangeminimum =
     (if number \<ge> nochangeminimum then
        (if number \<le> 10 ^ 6 \<and> number > 10 ^ 3 then show_int (number div 10 ^ 3) @ ''K''
         else if number \<le> 10 ^ 9 \<and> number > 10 ^ 6 then show_int (number div 10 ^ 6) @ ''M''
         else if number \<le> 10 ^ 12 \<and> number > 10 ^ 9 then show_int (number div 10 ^ 9) @ ''B''
         else if number \<le> 10 ^ 15 \<and> number > 10 ^ 12 then show_int (number div 10 ^ 12) @ ''T''
         else if number \<le> 10 ^ 18 \<and> number > 10 ^ 15 then show_int (number div 10 ^ 15) @ ''Q''
         else if number \<le> 10 ^ 21 \<and> number > 10 ^ 18 then show_int (number div 10 ^ 18) @ ''KQ''
         else case kkk_loop number [] of (number, result) \<Rightarrow> show_int number @ result)
      else show_int number)"

section \<open>Whole and fractional part\<close>

lemma mantice_range: "0 \<le> mantice x \<and> mantice x < 1 \<and> of_int \<lfloor>x\<rfloor> + mantice x = x"
proof (cases "x < 0")
  case True
  have "rem1 x = x + of_int \<lfloor>- x\<rfloor>" using True by (simp add: rem1_def js_trunc_def)
  then have m: "mantice x = (if x + of_int \<lfloor>- x\<rfloor> = 0 then 0 else 1 + (x + of_int \<lfloor>- x\<rfloor>))"
    using True by (simp add: mantice_def Let_def)
  show ?thesis
  proof (cases "x + of_int \<lfloor>- x\<rfloor> = 0")
    case True
    then have "x = of_int (- \<lfloor>- x\<rfloor>)" by simp
    then have "of_int \<lfloor>x\<rfloor> = x" by (metis floor_of_int)
    then show ?thesis using m True by simp
  next
    case False
    have "of_int \<lfloor>- x\<rfloor> \<le> - x" "- x < of_int \<lfloor>- x\<rfloor> + 1" by linarith+
    moreover have "x \<noteq> - of_int \<lfloor>- x\<rfloor>" using False by auto
    ultimately have lt: "x < - of_int \<lfloor>- x\<rfloor>" by linarith
    then have "\<lfloor>x\<rfloor> = - \<lfloor>- x\<rfloor> - 1" using \<open>- x < of_int \<lfloor>- x\<rfloor> + 1\<close> by (intro floor_unique) auto
    then show ?thesis using m False lt \<open>- x < of_int \<lfloor>- x\<rfloor> + 1\<close> by (simp add: algebra_simps)
  qed
next
  case False
  then have r: "rem1 x = x - of_int \<lfloor>x\<rfloor>" by (simp add: rem1_def js_trunc_def)
  have "of_int \<lfloor>x\<rfloor> \<le> x" "x < of_int \<lfloor>x\<rfloor> + 1" by linarith+
  then show ?thesis using False r by (simp add: mantice_def Let_def)
qed

section \<open>Interpolation comes to rest\<close>

lemma lerp_goal [simp]: "0 \<le> acc \<Longrightarrow> lerp_coord acc amt goal goal = goal"
  by (simp add: lerp_coord_def)

lemma lerp_power:
  "(lerp_coord acc amt goal ^^ n) x = goal \<or> (lerp_coord acc amt goal ^^ n) x - goal = (1 - amt) ^ n * (x - goal)"
  if "0 \<le> acc"
proof (induction n)
  case (Suc n)
  let ?y = "(lerp_coord acc amt goal ^^ n) x"
  have "lerp_coord acc amt goal ?y = goal \<or> lerp_coord acc amt goal ?y - goal = (1 - amt) * (?y - goal)"
    by (auto simp: lerp_coord_def algebra_simps)
  moreover have "?y = goal \<Longrightarrow> lerp_coord acc amt goal ?y = goal" using that by simp
  ultimately show ?case using Suc.IH by auto
qed simp

lemma rat_power_small:
  fixes q y :: rat
  assumes "\<bar>q\<bar> < 1" "0 < y"
  shows "\<exists>n. \<bar>q\<bar> ^ n < y"
proof -
  have "\<bar>of_rat q :: real\<bar> < 1" using assms(1) by (metis of_rat_1 of_rat_less abs_of_rat)
  moreover have "0 < (of_rat y :: real)" using assms(2) by simp
  ultimately obtain n where "\<bar>of_rat q :: real\<bar> ^ n < of_rat y" using real_arch_pow_inv by blast
  then have "(of_rat (\<bar>q\<bar> ^ n) :: real) < of_rat y" by (simp add: of_rat_power abs_of_rat)
  then show ?thesis by (auto simp: of_rat_less)
qed

lemma lerp_stays:
  assumes "0 \<le> acc" "(lerp_coord acc amt goal ^^ k) x = goal" "k \<le> n"
  shows "(lerp_coord acc amt goal ^^ n) x = goal"
  using assms(3)
proof (induction n rule: dec_induct)
  case base
  show ?case by (rule assms(2))
next
  case (step n)
  then show ?case using assms(1) by simp
qed

lemma lerp_settles:
  assumes "0 < acc" "0 < amt" "amt < 2"
  shows "\<exists>k. \<forall>n \<ge> k. (lerp_coord acc amt goal ^^ n) x = goal"
proof -
  have q: "\<bar>1 - amt\<bar> < 1" using assms(2,3) by (simp add: abs_if)
  obtain k where k: "\<bar>1 - amt\<bar> ^ k < acc / (\<bar>x - goal\<bar> + 1)"
    using rat_power_small [OF q, of "acc / (\<bar>x - goal\<bar> + 1)"] assms(1) by (auto intro: divide_pos_pos)
  have "\<bar>(1 - amt) ^ k * (x - goal)\<bar> \<le> \<bar>1 - amt\<bar> ^ k * (\<bar>x - goal\<bar> + 1)"
    by (simp add: abs_mult power_abs mult_left_mono)
  also have "\<dots> < acc" using k by (simp add: pos_less_divide_eq)
  finally have small: "\<bar>(1 - amt) ^ k * (x - goal)\<bar> < acc" .
  have "lerp_coord acc amt goal ((lerp_coord acc amt goal ^^ k) x) = goal"
    using lerp_power [where acc = acc and amt = amt and goal = goal and n = k and x = x] small assms(1) by (auto simp: lerp_coord_def)
  then have "(lerp_coord acc amt goal ^^ Suc k) x = goal" by simp
  then show ?thesis using lerp_stays [where acc = acc and amt = amt and goal = goal and k = "Suc k" and x = x] assms(1) less_imp_le by blast
qed

lemma Lerp2d_iterate:
  "vx ((Lerp2d target amt tr acc ^^ n) v) = (lerp_coord acc amt (vx target - (case tr of Some t \<Rightarrow> vx t | None \<Rightarrow> 0)) ^^ n) (vx v)"
  "vy ((Lerp2d target amt tr acc ^^ n) v) = (lerp_coord acc amt (vy target - (case tr of Some t \<Rightarrow> vy t | None \<Rightarrow> 0)) ^^ n) (vy v)"
  by (induction n) (simp_all add: Lerp2d_def split: option.splits)

section \<open>Properties\<close>

text \<open>
  A frame-by-frame interpolation comes to rest exactly at its goal, the target less the
  translation: for an amount between 0 and 2 and any positive accuracy there is a frame from which
  on both coordinates equal the goal, whatever the start.
\<close>

theorem Lerp2d_settles:
  assumes "0 < acc" "0 < amt" "amt < 2"
  shows "\<exists>k. \<forall>n \<ge> k. IsEqually ((Lerp2d target amt tr acc ^^ n) v)
    (Vector2d (vx target - (case tr of Some t \<Rightarrow> vx t | None \<Rightarrow> 0)) (vy target - (case tr of Some t \<Rightarrow> vy t | None \<Rightarrow> 0)))"
proof -
  obtain k1 where "\<forall>n \<ge> k1. vx ((Lerp2d target amt tr acc ^^ n) v) = vx target - (case tr of Some t \<Rightarrow> vx t | None \<Rightarrow> 0)"
    unfolding Lerp2d_iterate using lerp_settles [OF assms] by blast
  moreover obtain k2 where "\<forall>n \<ge> k2. vy ((Lerp2d target amt tr acc ^^ n) v) = vy target - (case tr of Some t \<Rightarrow> vy t | None \<Rightarrow> 0)"
    unfolding Lerp2d_iterate using lerp_settles [OF assms] by blast
  ultimately show ?thesis by (intro exI [of _ "max k1 k2"]) (simp add: IsEqually_def Vector2d_def)
qed

theorem Lerp2d_settles_witness:
  "\<exists>k. \<forall>n \<ge> k. IsEqually ((Lerp2d (Vector2d 10 20) (18 / 100) None (5 / 10000) ^^ n) (Vector2d 0 0)) (Vector2d 10 20)"
  using Lerp2d_settles [of "5 / 10000" "18 / 100" "Vector2d 10 20" None "Vector2d 0 0"]
  by (simp add: Vector2d_def)

text \<open>
  When the shown angle has passed below zero on its way to 270 degrees, the wrap returns
  \<open>360 - ta\<close>: the mirror image of the angle, not the angle one turn higher.
\<close>

lemma Lerp_wrap_mirrors: "ta < 0 \<Longrightarrow> Lerp ta 270 amt = 360 - ta"
  by (simp add: Lerp_def Let_def)

text \<open>
  Between a thousand and \<open>10 ^ 21\<close> an abbreviated number shows the leading one to four digits of
  the number, rounded down, with the suffix of its unit.
\<close>

lemma toKKKformat_value:
  assumes "minimum \<le> n" "10 ^ 3 < n" "n \<le> 10 ^ 21"
  shows "\<exists>k u suffix. toKKKformat n minimum = show_int k @ suffix
    \<and> (u, suffix) \<in> {(10 ^ 3, ''K''), (10 ^ 6, ''M''), (10 ^ 9, ''B''), (10 ^ 12, ''T''), (10 ^ 15, ''Q''), (10 ^ 18, ''KQ'')}
    \<and> 1 \<le> k \<and> k \<le> 1000 \<and> k * u \<le> n \<and> n < (k + 1) * u"
proof -
  have unit: "1 \<le> n div u \<and> n div u \<le> 1000 \<and> n div u * u \<le> n \<and> n < (n div u + 1) * u"
    if "0 < u" "u < n" "n \<le> 1000 * u" for u
  proof -
    have "n div u * u + n mod u = n" "0 \<le> n mod u" "n mod u < u" using that(1) by simp_all
    moreover have "1 \<le> n div u" using that by (simp add: pos_imp_zdiv_pos_iff int_one_le_iff_zero_less)
    moreover have "n div u \<le> 1000" using that zdiv_mono1 [of n "1000 * u" u] by simp
    moreover have "(n div u + 1) * u = n div u * u + u" by (simp add: distrib_right)
    ultimately show ?thesis by linarith
  qed
  consider "n \<le> 10 ^ 6" | "10 ^ 6 < n" "n \<le> 10 ^ 9" | "10 ^ 9 < n" "n \<le> 10 ^ 12" | "10 ^ 12 < n" "n \<le> 10 ^ 15"
    | "10 ^ 15 < n" "n \<le> 10 ^ 18" | "10 ^ 18 < n" by linarith
  then show ?thesis
  proof cases
    case 1
    then show ?thesis using assms unit [of "10 ^ 3"]
      by (intro exI [of _ "n div 10 ^ 3"] exI [of _ "10 ^ 3"] exI [of _ "''K''"]) (simp add: toKKKformat_def)
  next
    case 2
    then show ?thesis using assms unit [of "10 ^ 6"]
      by (intro exI [of _ "n div 10 ^ 6"] exI [of _ "10 ^ 6"] exI [of _ "''M''"]) (simp add: toKKKformat_def)
  next
    case 3
    then show ?thesis using assms unit [of "10 ^ 9"]
      by (intro exI [of _ "n div 10 ^ 9"] exI [of _ "10 ^ 9"] exI [of _ "''B''"]) (simp add: toKKKformat_def)
  next
    case 4
    then show ?thesis using assms unit [of "10 ^ 12"]
      by (intro exI [of _ "n div 10 ^ 12"] exI [of _ "10 ^ 12"] exI [of _ "''T''"]) (simp add: toKKKformat_def)
  next
    case 5
    then show ?thesis using assms unit [of "10 ^ 15"]
      by (intro exI [of _ "n div 10 ^ 15"] exI [of _ "10 ^ 15"] exI [of _ "''Q''"]) (simp add: toKKKformat_def)
  next
    case 6
    then show ?thesis using assms unit [of "10 ^ 18"]
      by (intro exI [of _ "n div 10 ^ 18"] exI [of _ "10 ^ 18"] exI [of _ "''KQ''"]) (simp add: toKKKformat_def)
  qed
qed

text \<open>Above that the unit of the suffix \<open>T\<close> is no longer \<open>10 ^ 12\<close>: two trilliards show as \<open>2000TT\<close>.\<close>

lemma toKKKformat_large: "toKKKformat (2 * 10 ^ 21) 100000 = ''2000TT''"
  by code_simp

section \<open>Random colours\<close>

text \<open>\<open>toString(16)\<close> of a number that is not negative: no leading zeros.\<close>

definition hex_digit :: "int \<Rightarrow> char" where
  "hex_digit n = ''0123456789abcdef'' ! nat n"

fun hex_string :: "nat \<Rightarrow> string" where
  "hex_string n = (if n < 16 then [hex_digit (int n)] else hex_string (n div 16) @ [hex_digit (int (n mod 16))])"

declare hex_string.simps [simp del]

definition RandColor :: "rat \<Rightarrow> string" where
  "RandColor u = ''#'' @ hex_string (nat \<lfloor>u * 16777215\<rfloor>)"

definition RandColor16 :: "rat \<Rightarrow> string" where
  "RandColor16 u = ''#'' @ hex_string (nat \<lfloor>u * 4095\<rfloor>)"

lemma length_hex_string: "0 < k \<Longrightarrow> n < 16 ^ k \<Longrightarrow> 0 < length (hex_string n) \<and> length (hex_string n) \<le> k"
proof (induction k arbitrary: n)
  case (Suc k)
  show ?case
  proof (cases "n < 16")
    case False
    moreover from this have "0 < k" "n div 16 < 16 ^ k"
      using Suc.prems(2) by (cases k, simp_all add: less_mult_imp_div_less mult.commute)
    ultimately show ?thesis using Suc.IH [of "n div 16"] by (simp add: hex_string.simps [of n])
  qed (simp add: hex_string.simps [of n])
qed simp

text \<open>
  The colours are promised as \<open>#xxxxxx\<close> and \<open>#xxx\<close>. They have at most that many digits, but a small draw
  gives fewer.
\<close>

lemma RandColor_digits:
  assumes "unit_draw u"
  shows "length (RandColor u) \<le> 7" "length (RandColor16 u) \<le> 4"
proof -
  have "u * 16777215 < 1 * 16777215" "u * 4095 < 1 * 4095" using assms by (simp_all only: mult_less_cancel_right) simp_all
  then have fl: "\<lfloor>u * 16777215\<rfloor> < 16777215" "\<lfloor>u * 4095\<rfloor> < 4095" by (simp_all add: floor_less_iff)
  have "nat a < k" if "a < int k" "0 < k" for a k using that by linarith
  from this [of _ "16 ^ 6"] this [of _ "16 ^ 3"] have "nat \<lfloor>u * 16777215\<rfloor> < 16 ^ 6" "nat \<lfloor>u * 4095\<rfloor> < 16 ^ 3"
    using fl by (fastforce dest: less_trans)+
  then show "length (RandColor u) \<le> 7" "length (RandColor16 u) \<le> 4"
    using length_hex_string [of 6 "nat \<lfloor>u * 16777215\<rfloor>"] length_hex_string [of 3 "nat \<lfloor>u * 4095\<rfloor>"]
    by (simp_all add: RandColor_def RandColor16_def)
qed

lemma RandColor_short: "RandColor 0 = ''#0''" "RandColor16 0 = ''#0''"
  by (simp_all add: RandColor_def RandColor16_def hex_string.simps hex_digit_def)

section \<open>Printed numbers\<close>

lemma show_int_inj: "show_int v = show_int v' \<Longrightarrow> v = v'"
  by (metis option.inject parseInt10_show_int)

end
