(* ===== verification/Controls.thy ===== *)
theory Controls
  imports Geophys Program_Safety Vectors
begin

text \<open>
  The page of the sandbox: keyboard, mouse and options (\<^verbatim>\<open>scripts/controls.js\<close>), the start of the program
  ticker (\<^verbatim>\<open>scripts/main.js\<close>) and the part of the renderer that changes the world
  (\<open>MouseSetBlock\<close> and \<open>Update\<close> of \<^verbatim>\<open>scripts/wrenderer.js\<close>). Readings of the clock and random draws
  of one handler are two sequences, \<open>clock\<close> and \<open>draws\<close>. \<open>CurrentBot\<close> is an index into the list of
  bots or absent. The movement loop of a held key may not end; it is a partial function.
\<close>

section \<open>State\<close>

text \<open>\<open>delta\<close> is \<open>None\<close> when it is \<open>NaN\<close>.\<close>

record key_flags =
  k_w :: bool
  k_a :: bool
  k_s :: bool
  k_d :: bool
  k_z :: bool
  delta :: "rat option"
  k_shift :: bool
  k_ctrl :: bool
  timePrev :: rat
  mouse :: "nat \<Rightarrow> bool"
  mousepos :: "rat \<times> rat"

definition KeyFlags :: key_flags where
  "KeyFlags = \<lparr>k_w = False, k_a = False, k_s = False, k_d = False, k_z = False, delta = Some 0, k_shift = False,
     k_ctrl = False, timePrev = 0, mouse = (\<lambda>_. False), mousepos = (0, 0)\<rparr>"

definition KeyFlags_Reset :: "key_flags \<Rightarrow> key_flags" where
  "KeyFlags_Reset k = k\<lparr>k_w := False, k_a := False, k_s := False, k_d := False, k_z := False, k_shift := False,
     k_ctrl := False, delta := Some 0\<rparr>"

record woptions =
  o_ignoreBorders :: bool
  o_vectors :: bool
  o_nicknames :: bool
  o_fps :: rat
  o_progTicks :: rat
  o_viewBox :: bool

definition WOptions :: woptions where
  "WOptions = \<lparr>o_ignoreBorders = True, o_vectors = False, o_nicknames = True, o_fps = 60, o_progTicks = 10,
     o_viewBox = False\<rparr>"

text \<open>The handlers of the option controls; numbers are what the text of the control converts to.\<close>

datatype option_event =
    ViewBox bool
  | IgnoreBorders bool
  | Vectors bool
  | Nicknames bool
  | Fps rat
  | ProgTicks rat

fun set_option :: "option_event \<Rightarrow> woptions \<Rightarrow> woptions" where
  "set_option (ViewBox b) opts = opts\<lparr>o_viewBox := b\<rparr>"
| "set_option (IgnoreBorders b) opts = opts\<lparr>o_ignoreBorders := b\<rparr>"
| "set_option (Vectors b) opts = opts\<lparr>o_vectors := b\<rparr>"
| "set_option (Nicknames b) opts = opts\<lparr>o_nicknames := b\<rparr>"
| "set_option (Fps x) opts = opts\<lparr>o_fps := x\<rparr>"
| "set_option (ProgTicks x) opts = opts\<lparr>o_progTicks := x\<rparr>"

text \<open>
  The last two fields belong to the physics object: the guard of its cycle and the position of its
  iterator over the living cells.
\<close>

record sandbox =
  sb_keys :: key_flags
  sb_options :: woptions
  sb_game :: game
  sb_current :: "nat option"
  sb_camera :: vector2d
  sb_BotIDCounter :: nat
  sb_inProcess :: bool
  sb_iter :: set_iter

definition env_at :: "sandbox \<Rightarrow> rat \<Rightarrow> rat \<Rightarrow> env" where
  "env_at s t u = \<lparr>now = t, draw = u, ignoreBorders = o_ignoreBorders (sb_options s)\<rparr>"

section \<open>Acting on a bot\<close>

definition put_bot :: "nat \<Rightarrow> ctx \<Rightarrow> game \<Rightarrow> game" where
  "put_bot i c g = g\<lparr>g_map := cmap c, g_index := cidx c, g_bots := (g_bots g)[i := cbot c]\<rparr>"

definition on_bot :: "nat \<Rightarrow> (ctx \<Rightarrow> ctx result) \<Rightarrow> game \<Rightarrow> game result" where
  "on_bot i f g = ebind (f (bot_ctx g i)) (\<lambda>c. Inr (put_bot i c g))"

fun for_bots :: "(nat \<Rightarrow> ctx \<Rightarrow> ctx result) \<Rightarrow> nat list \<Rightarrow> game \<Rightarrow> game result" where
  "for_bots f [] g = Inr g"
| "for_bots f (i # ks) g = ebind (on_bot i (f i) g) (for_bots f ks)"

definition with_current :: "(ctx \<Rightarrow> ctx result) \<Rightarrow> sandbox \<Rightarrow> sandbox result" where
  "with_current f s =
     (case sb_current s of
        None \<Rightarrow> Inl TypeError
      | Some i \<Rightarrow> ebind (on_bot i f (sb_game s)) (\<lambda>g. Inr (s\<lparr>sb_game := g\<rparr>)))"

section \<open>Held keys\<close>

fun held :: "side \<Rightarrow> key_flags \<Rightarrow> bool" where
  "held Su k = k_w k" | "held Sr k = k_d k" | "held Sd k = k_s k" | "held Sl k = k_a k" | "held Sf k = False"

fun set_held :: "side \<Rightarrow> bool \<Rightarrow> key_flags \<Rightarrow> key_flags" where
  "set_held Su b k = k\<lparr>k_w := b\<rparr>" | "set_held Sr b k = k\<lparr>k_d := b\<rparr>" | "set_held Sd b k = k\<lparr>k_s := b\<rparr>"
| "set_held Sl b k = k\<lparr>k_a := b\<rparr>" | "set_held Sf b k = k"

text \<open>The order of the branches of the timer.\<close>

definition held_side :: "key_flags \<Rightarrow> side option" where
  "held_side k = find (\<lambda>d. held d k) [Su, Sr, Sd, Sl]"

lemma held_delta [simp]: "held d (k\<lparr>delta := x\<rparr>) = held d k"
  by (cases d) simp_all

lemma held_side_delta [simp]: "held_side (k\<lparr>delta := x\<rparr>) = held_side k"
  by (simp add: held_side_def cong: if_cong)

text \<open>
  \<open>while (KeyFlags.delta > 0) KeyFlags.delta -= WRender.CurrentBot.Move(side, true)\<close>: the result is the
  last value of \<open>delta\<close> and the world, an exception, or nothing if the loop does not end. The
  difference with \<open>undefined\<close> is \<open>NaN\<close>, which is not positive.
\<close>

partial_function (option) move_loop ::
    "(nat \<Rightarrow> env) \<Rightarrow> side \<Rightarrow> nat \<Rightarrow> rat \<Rightarrow> ctx \<Rightarrow> (rat option \<times> ctx) result option" where
  "move_loop es d n dt c =
     (if dt > 0 then
        (case Move (es n) d True c of
           Inl e \<Rightarrow> Some (Inl e)
         | Inr r \<Rightarrow>
             (case fst r of
                None \<Rightarrow> Some (Inr (None, snd r))
              | Some cd \<Rightarrow> move_loop es d (Suc n) (dt - cd) (snd r)))
      else Some (Inr (Some dt, c)))"

definition control_tick :: "(nat \<Rightarrow> rat) \<Rightarrow> (nat \<Rightarrow> rat) \<Rightarrow> sandbox \<Rightarrow> sandbox result option" where
  "control_tick clock draws s =
     (let k = sb_keys s; dt = clock 0 - timePrev k; k = k\<lparr>delta := Some dt\<rparr>; s = s\<lparr>sb_keys := k\<rparr>;
          es = (\<lambda>n. env_at s (clock (Suc n)) (draws n))
      in case held_side k of
           Some d \<Rightarrow>
             (if k_shift k then Some (with_current (\<lambda>c. Inr (Rotate (es 0) d True True c)) s)
              else if dt > 0 then
                (case sb_current s of
                   None \<Rightarrow> Some (Inl TypeError)
                 | Some i \<Rightarrow>
                     Option.bind (move_loop es d 0 dt (bot_ctx (sb_game s) i)) (\<lambda>r.
                       Some (ebind r (\<lambda>(dl, c).
                         Inr (s\<lparr>sb_keys := k\<lparr>delta := dl\<rparr>, sb_game := put_bot i c (sb_game s)\<rparr>)))))
              else Some (Inr s))
         | None \<Rightarrow>
             (if k_z k then Some (with_current (\<lambda>c. Inr (snd (Digg (es 0) True c))) s) else Some (Inr s)))"

section \<open>Key presses\<close>

definition press_dir :: "rat \<Rightarrow> side \<Rightarrow> key_flags \<Rightarrow> key_flags" where
  "press_dir t d k = (if held d k then k else set_held d True (k\<lparr>delta := Some 0, timePrev := t\<rparr>))"

definition toggle_program :: "env \<Rightarrow> ctx \<Rightarrow> ctx" where
  "toggle_program e c =
     (let c1 = upd_cond (\<lambda>p. p\<lparr>isExecute := \<not> isExecute p\<rparr>) c in
      if \<not> isExecute (cond c1) then reset_program e c1 else c1)"

definition js_round :: "rat \<Rightarrow> int" where
  "js_round x = \<lfloor>x + 1 / 2\<rfloor>"

text \<open>The body of the loop of the key C for another bot; three draws per bot.\<close>

definition call_bot :: "bool \<Rightarrow> bool \<Rightarrow> int \<times> int \<Rightarrow> int \<Rightarrow> (nat \<Rightarrow> rat) \<Rightarrow> ctx \<Rightarrow> ctx result" where
  "call_bot ctrl shift pos rot us c =
     (let target = (if ctrl then (fst pos + js_round ((us 0 - 1 / 2) * 10), snd pos + js_round ((us 1 - 1 / 2) * 10)) else pos) in
      ebind (Teleport (fst target) (snd target) c) (\<lambda>c.
        Inr (upd_bot (\<lambda>b. b\<lparr>rotation := (if shift then RandInt (us 2) 0 3 * 90 else rot)\<rparr>) c)))"

definition key_dir :: "string \<Rightarrow> side option" where
  "key_dir code = map_of [(''KeyW'', Su), (''ArrowUp'', Su), (''ArrowRight'', Sr), (''KeyD'', Sr), (''KeyS'', Sd),
     (''ArrowDown'', Sd), (''KeyA'', Sl), (''ArrowLeft'', Sl)] code"

text \<open>The keys whose whole effect is one action of the current bot.\<close>

definition key_action :: "env \<Rightarrow> string \<Rightarrow> (ctx \<Rightarrow> ctx) option" where
  "key_action e code = map_of [(''KeyF'', SetBlock e True), (''KeyV'', Heal e True), (''KeyJ'', SetQuadro e True),
     (''KeyH'', SetRoad e True), (''KeyY'', SetWB e True), (''KeyG'', UseGeo e True),
     (''KeyE'', upd_mode (\<lambda>m. m\<lparr>autodigg := \<not> autodigg m\<rparr>))] code"

definition key_space :: "rat \<Rightarrow> sandbox \<Rightarrow> sandbox" where
  "key_space u s =
     (let n = length (g_bots (sb_game s)); i = nat \<lfloor>u * of_nat n\<rfloor>
      in s\<lparr>sb_current := (if i < n then Some i else None)\<rparr>)"

definition key_run :: "(nat \<Rightarrow> rat) \<Rightarrow> sandbox \<Rightarrow> sandbox result" where
  "key_run clock s =
     (if k_shift (sb_keys s)
      then ebind (for_bots (\<lambda>i c. Inr (toggle_program (env_at s (clock i) 0) c)) [0..<length (g_bots (sb_game s))] (sb_game s))
             (\<lambda>g. Inr (s\<lparr>sb_game := g\<rparr>))
      else with_current (\<lambda>c. Inr (toggle_program (env_at s (clock 0) 0) c)) s)"

definition key_call :: "(nat \<Rightarrow> rat) \<Rightarrow> sandbox \<Rightarrow> sandbox result" where
  "key_call draws s =
     (let g = sb_game s; k = sb_keys s in
      if g_bots g = [] then Inr s
      else case sb_current s of
        None \<Rightarrow> Inl TypeError
      | Some cur \<Rightarrow>
          (let b = g_bots g ! cur in
           ebind (for_bots (\<lambda>i. call_bot (k_ctrl k) (k_shift k) (position b) (rotation b) (\<lambda>n. draws (3 * i + n)))
                    (filter (\<lambda>i. bot_id (g_bots g ! i) \<noteq> bot_id b) [0..<length (g_bots g)]) g)
             (\<lambda>g. Inr (s\<lparr>sb_game := g\<rparr>))))"

definition keydown :: "(nat \<Rightarrow> rat) \<Rightarrow> (nat \<Rightarrow> rat) \<Rightarrow> bool \<Rightarrow> string \<Rightarrow> sandbox \<Rightarrow> sandbox result" where
  "keydown clock draws in_text code s =
     (if in_text then Inr s
      else case key_dir code of
        Some d \<Rightarrow> Inr (s\<lparr>sb_keys := press_dir (clock 0) d (sb_keys s)\<rparr>)
      | None \<Rightarrow>
          (case key_action (env_at s (clock 0) (draws 0)) code of
             Some act \<Rightarrow> with_current (\<lambda>c. Inr (act c)) s
           | None \<Rightarrow>
               if code = ''ShiftLeft'' \<or> code = ''ShiftRight'' then Inr (s\<lparr>sb_keys := (sb_keys s)\<lparr>k_shift := True\<rparr>\<rparr>)
               else if code = ''ControlLeft'' \<or> code = ''ControlRight'' then
                 (let s = s\<lparr>sb_keys := (sb_keys s)\<lparr>k_ctrl := True\<rparr>\<rparr> in
                  if sb_current s = None then Inr s
                  else with_current (\<lambda>c. Inr (upd_mode (\<lambda>m. m\<lparr>roadignore := \<not> roadignore m\<rparr>) c)) s)
               else if code = ''Space'' then Inr (key_space (draws 0) s)
               else if code = ''KeyZ'' then Inr (s\<lparr>sb_keys := (sb_keys s)\<lparr>k_z := True\<rparr>\<rparr>)
               else if code = ''KeyR'' then key_run clock s
               else if code = ''KeyC'' then key_call draws s
               else Inr s))"

definition keyup :: "rat \<Rightarrow> string \<Rightarrow> key_flags \<Rightarrow> key_flags" where
  "keyup t code k =
     (case key_dir code of
        Some d \<Rightarrow> set_held d False (k\<lparr>timePrev := t\<rparr>)
      | None \<Rightarrow>
          if code = ''KeyZ'' then k\<lparr>k_z := False\<rparr>
          else if code = ''ShiftLeft'' \<or> code = ''ShiftRight'' then k\<lparr>k_shift := False\<rparr>
          else if code = ''ControlLeft'' \<or> code = ''ControlRight'' then k\<lparr>k_ctrl := False\<rparr>
          else k)"

section \<open>Mouse\<close>

definition mouse_cells :: "int \<Rightarrow> int \<Rightarrow> int \<Rightarrow> (int \<times> int) list" where
  "mouse_cells cx cy r = concat (map (\<lambda>y. map (\<lambda>x. (x, y)) [cx - r..cx + r]) [cy - r..cy + r])"

definition MouseSetBlock :: "vector2d \<Rightarrow> rat \<Rightarrow> rat \<Rightarrow> byte option \<Rightarrow> int \<Rightarrow> world_map \<Rightarrow> world_map" where
  "MouseSetBlock camera x y t radius w =
     foldl (\<lambda>w (x, y). case t of
              Some b \<Rightarrow> if b \<noteq> 0 then SetTileWithCoords w x y b 0 else ClearTile w x y False
            | None \<Rightarrow> ClearTile w x y False) w
       (mouse_cells \<lfloor>x / 16 + vx camera\<rfloor> \<lfloor>y / 16 + vy camera\<rfloor> radius)"

definition paint :: "rat \<Rightarrow> rat \<Rightarrow> byte option \<Rightarrow> int \<Rightarrow> sandbox \<Rightarrow> sandbox" where
  "paint x y t r s =
     s\<lparr>sb_game := (sb_game s)\<lparr>g_map := MouseSetBlock (sb_camera s) x y t r (g_map (sb_game s))\<rparr>\<rparr>"

definition mousedown :: "nat \<Rightarrow> rat \<Rightarrow> rat \<Rightarrow> sandbox \<Rightarrow> sandbox" where
  "mousedown button x y s =
     (let s = s\<lparr>sb_keys := (sb_keys s)\<lparr>mouse := (mouse (sb_keys s))(button := True)\<rparr>\<rparr>;
          s = (if mouse (sb_keys s) 0 then paint x y (Some 48) 0 s else s)
      in if mouse (sb_keys s) 1 then paint x y None 0 s else s)"

definition mousemove :: "rat \<Rightarrow> rat \<Rightarrow> sandbox \<Rightarrow> sandbox" where
  "mousemove x y s =
     (let s = (if mouse (sb_keys s) 0 then paint x y (Some 48) 0 s else s);
          s = (if mouse (sb_keys s) 1 then paint x y None 5 s else s)
      in s\<lparr>sb_keys := (sb_keys s)\<lparr>mousepos := (x, y)\<rparr>\<rparr>)"

definition mouseleave :: "key_flags \<Rightarrow> key_flags" where
  "mouseleave k = k\<lparr>mouse := (mouse k)(0 := False, 1 := False, 2 := False)\<rparr>"

definition mouseup :: "nat \<Rightarrow> key_flags \<Rightarrow> key_flags" where
  "mouseup button k = k\<lparr>mouse := (mouse k)(button := False)\<rparr>"

section \<open>Timers of the page\<close>

text \<open>
  The body of \<open>ProgTicker\<close>; the readings of each call of \<open>Execute\<close> come from \<open>es\<close>. With the option at
  0 the quotient is infinite in the code, so not below 30.
\<close>

fun execute_times :: "nat \<Rightarrow> (nat \<Rightarrow> nat \<Rightarrow> env) \<Rightarrow> game \<Rightarrow> game result" where
  "execute_times 0 es g = Inr g"
| "execute_times (Suc n) es g = ebind (Execute (es n) g) (execute_times n es)"

definition ProgTicker :: "(nat \<Rightarrow> nat \<Rightarrow> rat) \<Rightarrow> (nat \<Rightarrow> nat \<Rightarrow> rat) \<Rightarrow> sandbox \<Rightarrow> sandbox result" where
  "ProgTicker clock draws s =
     (let es = (\<lambda>n i. env_at s (clock n i) (draws n i));
          p = o_progTicks (sb_options s); n = (if p \<noteq> 0 \<and> 1000 / p < 30 then 51 else 1)
      in ebind (execute_times n es (sb_game s)) (\<lambda>g. Inr (s\<lparr>sb_game := g\<rparr>)))"

text \<open>The demonstration tiles \<open>Update\<close> drops into the world; four draws per tile.\<close>

definition sprinkle :: "(nat \<Rightarrow> rat) \<Rightarrow> world_map \<Rightarrow> world_map" where
  "sprinkle us w =
     SetTileWithCoords w (RandInt (us 0) 35 75) (RandInt (us 1) 70 81)
       (word_of_int (if RandInt (us 2) 0 1 \<noteq> 0 then RandInt (us 3) 60 68 else RandInt (us 3) 40 45)) 0"

text \<open>
  The camera follows the current bot; the amount \<open>0.9 / deltatime\<close> and the size of the canvas are
  arguments.
\<close>

definition GotoCurrentBot :: "rat \<Rightarrow> rat \<Rightarrow> rat \<Rightarrow> sandbox \<Rightarrow> sandbox" where
  "GotoCurrentBot amt canv_w canv_h s =
     (let s = (if sb_current s = None then s\<lparr>sb_current := Some 0\<rparr> else s);
          (x, y) = position (g_bots (sb_game s) ! the (sb_current s))
      in s\<lparr>sb_camera := Lerp2d (Vector2d (of_int x) (of_int y)) amt (Some (Vector2d (canv_w / 2 / 16) (canv_h / 2 / 16)))
            (1 / 16) (sb_camera s)\<rparr>)"

definition Update :: "(nat \<Rightarrow> rat) \<Rightarrow> rat \<Rightarrow> rat \<Rightarrow> rat \<Rightarrow> sandbox \<Rightarrow> sandbox result" where
  "Update us amt canv_w canv_h s =
     (let g = sb_game s;
          g = g\<lparr>g_map := sprinkle (\<lambda>n. us (4 + n)) (sprinkle us (g_map g))\<rparr>
      in ebind (if \<not> o_ignoreBorders (sb_options s)
                then for_bots (\<lambda>i c. Inr (if RandInt (us (8 + i)) 0 10 = 0 then CheckBlockUnder c else c))
                       [0..<length (g_bots g)] g
                else Inr g)
           (\<lambda>g. let s = s\<lparr>sb_game := g\<rparr> in
                Inr (if g_bots g \<noteq> [] then GotoCurrentBot amt canv_w canv_h s else s)))"

section \<open>Actions that keep the game in order\<close>

definition safe_act :: "(ctx \<Rightarrow> ctx result) \<Rightarrow> bool" where
  "safe_act f \<longleftrightarrow> (\<forall>c. fine c \<longrightarrow> (\<exists>c'. f c = Inr c' \<and> fine c' \<and> idx_frame c c'))"

lemma safe_actI: "(\<And>c. fine c \<Longrightarrow> fine (f c) \<and> idx_frame c (f c)) \<Longrightarrow> safe_act (\<lambda>c. Inr (f c))"
  by (simp add: safe_act_def)

definition world_ok :: "game \<Rightarrow> bool" where
  "world_ok g \<longleftrightarrow> game_ok g \<and> map_ok (g_map g) \<and> bc_ok (g_index g)"

definition same_shape :: "game \<Rightarrow> game \<Rightarrow> bool" where
  "same_shape g g' \<longleftrightarrow> map bot_id (g_bots g') = map bot_id (g_bots g)
     \<and> map inventory (g_bots g') = map inventory (g_bots g) \<and> width (g_map g') = width (g_map g)
     \<and> height (g_map g') = height (g_map g)"

lemma same_shape_refl [simp]: "same_shape g g"
  by (simp add: same_shape_def)

lemma same_shape_length: "same_shape g g' \<Longrightarrow> length (g_bots g') = length (g_bots g)"
  unfolding same_shape_def by (metis length_map)

lemma same_shape_trans: "same_shape g h \<Longrightarrow> same_shape h k \<Longrightarrow> same_shape g k"
  by (simp add: same_shape_def)

lemma fine_world: "fine c \<Longrightarrow> map_ok (cmap c) \<and> bc_ok (cidx c)"
  by (simp add: fine_def ctx_ok_def ctx_pre_def)

lemma put_bot_ok:
  assumes "game_ok g" "i < length (g_bots g)" "fine c" "idx_frame (bot_ctx g i) c"
  shows "world_ok (put_bot i c g)" and "same_shape g (put_bot i c g)"
  using game_ok_put [OF assms] fine_world [OF assms(3)] assms(4)
  by (simp_all add: world_ok_def put_bot_def same_shape_def idx_frame_def bot_ctx_def)

lemma game_ok_bot: "game_ok g \<Longrightarrow> i < length (g_bots g) \<Longrightarrow> fine (bot_ctx g i)"
  by (simp add: game_ok_def)

lemma on_bot_ok:
  assumes "world_ok g" "i < length (g_bots g)" "safe_act f"
  shows "\<exists>g'. on_bot i f g = Inr g' \<and> world_ok g' \<and> same_shape g g'"
proof -
  have g: "game_ok g" using assms(1) by (simp add: world_ok_def)
  obtain c where "f (bot_ctx g i) = Inr c" "fine c" "idx_frame (bot_ctx g i) c"
    using game_ok_bot [OF g assms(2)] assms(3) by (auto simp: safe_act_def)
  then show ?thesis using put_bot_ok [OF g assms(2)] by (simp add: on_bot_def)
qed

lemma for_bots_ok:
  assumes "world_ok g" "\<forall>i \<in> set ks. i < length (g_bots g)" "\<And>i. safe_act (f i)"
  shows "\<exists>g'. for_bots f ks g = Inr g' \<and> world_ok g' \<and> same_shape g g'"
  using assms(1,2)
proof (induction ks arbitrary: g)
  case (Cons i ks)
  obtain g1 where g1: "on_bot i (f i) g = Inr g1" "world_ok g1" "same_shape g g1"
    using on_bot_ok [OF Cons.prems(1) _ assms(3), of i] Cons.prems(2) by auto
  then have "\<forall>i \<in> set ks. i < length (g_bots g1)" using Cons.prems(2) by (simp add: same_shape_length)
  then show ?case using Cons.IH [OF g1(2)] g1 same_shape_trans by auto
qed simp

lemma idx_frame_upd_mode [simp]: "idx_frame c (upd_mode f c)"
  by (simp add: idx_frame_def upd_mode_def)

lemma safe_upd_mode: "safe_act (\<lambda>c. Inr (upd_mode f c))"
  by (rule safe_actI) (simp add: fine_def ctx_ok_upd_mode)

lemma safe_toggle: "safe_act (\<lambda>c. Inr (toggle_program e c))"
proof (rule safe_actI)
  fix c assume "fine c"
  have "keeps_world c (toggle_program e c)"
    by (auto simp: toggle_program_def Let_def reset_program_def set_hand_def)
  then show "fine (toggle_program e c) \<and> idx_frame c (toggle_program e c)"
    using \<open>fine c\<close> keeps_world_idx_frame
    by (auto simp: toggle_program_def Let_def fine_def reset_program_def set_hand_def
        intro!: ctx_ok_upd_cond ctx_ok_upd_mode cond_ok_Reset blank_Reset)
qed

lemma safe_actions:
  "safe_act (\<lambda>c. Inr (Rotate e d fu wcd c))" "safe_act (\<lambda>c. Inr (snd (Digg e fu c)))"
  "safe_act (\<lambda>c. Inr (SetBlock e fu c))" "safe_act (\<lambda>c. Inr (SetRoad e fu c))"
  "safe_act (\<lambda>c. Inr (SetWB e fu c))" "safe_act (\<lambda>c. Inr (SetQuadro e fu c))"
  "safe_act (\<lambda>c. Inr (UseGeo e fu c))" "safe_act (\<lambda>c. Inr (Heal e fu c))"
  by (rule safe_actI, simp add: fine_def wf_intros)+

lemma safe_check_under: "safe_act (\<lambda>c. Inr (if b then CheckBlockUnder c else c))"
proof (rule safe_actI)
  fix c assume "fine c"
  have "cond (CheckBlockUnder c) = cond c" "idx_frame c (CheckBlockUnder c)"
    by (auto simp: CheckBlockUnder_def Let_def idx_frame_def split: prod.splits)
  then show "fine (if b then CheckBlockUnder c else c) \<and> idx_frame c (if b then CheckBlockUnder c else c)"
    using \<open>fine c\<close> by (simp add: fine_def wf_intros)
qed

lemma safe_call:
  assumes "rot \<in> {0, 90, 180, 270}" "unit_draw (us 2)"
  shows "safe_act (call_bot ctrl shift pos rot us)"
  unfolding safe_act_def
proof (intro allI impI)
  fix c assume c: "fine c"
  let ?t = "if ctrl then (fst pos + js_round ((us 0 - 1 / 2) * 10), snd pos + js_round ((us 1 - 1 / 2) * 10)) else pos"
  let ?p = "upd_bot (\<lambda>b. b\<lparr>position := (fst ?t, snd ?t)\<rparr>) c"
  have "ctx_pre ?p" using c by (simp add: fine_def ctx_ok_def ctx_pre_def filed_at_def rotation_ok_def)
  then obtain c1 where c1: "HasMoved ?p = Inr c1" "ctx_ok c1"
      "cbot c1 = (cbot ?p)\<lparr>cachedPosition := position (cbot ?p)\<rparr>" "idx_frame ?p c1"
    by (rule HasMoved_ok)
  let ?r = "if shift then RandInt (us 2) 0 3 * 90 else rot"
  let ?c = "upd_bot (\<lambda>b. b\<lparr>rotation := ?r\<rparr>) c1"
  have "RandInt (us 2) 0 3 \<in> {0, 1, 2, 3}" using RandInt_range [OF assms(2), of 0 3] by auto
  then have r: "?r \<in> {0, 90, 180, 270}" using assms(1) by auto
  have "ctx_ok ?c" using c1(2) r by (intro ctx_ok_upd_bot) (auto simp: rotation_ok_def dest: ctx_okD)
  moreover have "cond ?c = cond c" using c1(3) by simp
  moreover have "idx_frame c ?p" "idx_frame c1 ?c" by (simp_all add: idx_frame_def)
  then have "idx_frame c ?c" using c1(4) idx_frame_trans by blast
  moreover have "call_bot ctrl shift pos rot us c = Inr ?c"
    using c1(1) by (simp add: call_bot_def Teleport_def Let_def)
  ultimately show "\<exists>c'. call_bot ctrl shift pos rot us c = Inr c' \<and> fine c' \<and> idx_frame c c'"
    using c by (simp add: fine_def)
qed

section \<open>The movement loop\<close>

text \<open>A positive lower bound of every value that \<open>Move\<close> can return for the bot.\<close>

definition pace :: "rat \<Rightarrow> bot \<Rightarrow> bool" where
  "pace m b \<longleftrightarrow> m \<le> cooldown b \<and> m \<le> cd_digging \<and> m \<le> 1000 / moveSpeed (stats b)
     \<and> m \<le> 1000 / (moveSpeed (stats b) * moveRoadSpeedMul (stats b))"

lemma pace_exists:
  assumes "0 < cooldown b" "0 < moveSpeed (stats b)" "0 < moveRoadSpeedMul (stats b)"
  obtains m where "0 < m" "pace m b"
proof -
  let ?m = "min (min (cooldown b) cd_digging)
    (min (1000 / moveSpeed (stats b)) (1000 / (moveSpeed (stats b) * moveRoadSpeedMul (stats b))))"
  have "0 < ?m" using assms by (simp add: cd_digging_def)
  moreover have "pace ?m b" by (simp add: pace_def min_le_iff_disj)
  ultimately show thesis using that by blast
qed

lemma HasMoved_bot: "HasMoved c = Inr c' \<Longrightarrow> stats (cbot c') = stats (cbot c) \<and> cooldown (cbot c') = cooldown (cbot c)"
  by (auto simp: HasMoved_def Let_def ebind_eq_Inr split: if_splits)

lemma Digg_bot:
  "stats (cbot (snd (Digg e fu c))) = stats (cbot c)"
  "cooldown (cbot (snd (Digg e fu c))) \<in> {cooldown (cbot c), cd_digging}"
  by (auto simp: Digg_def Let_def)

lemma step_or_digg_bot:
  "stats (cbot (snd (step_or_digg e c))) = stats (cbot c)"
  "cooldown (cbot (snd (step_or_digg e c))) \<in> {cooldown (cbot c), cd_digging}"
  using Digg_bot [of e False c] by (auto simp: step_or_digg_def Let_def)

lemma Move_cooldown:
  assumes "Move e d fu c = Inr (r, c')"
  shows "stats (cbot c') = stats (cbot c) \<and> cooldown (cbot c') \<in> {cooldown (cbot c), move_cd c, cd_digging}
    \<and> (if may_act fu c then r = Some (cooldown (cbot c')) else r = None)"
  using assms step_or_digg_bot [of e "upd_bot (turned d) c"]
  by (auto simp: Move_def Let_def ebind_eq_Inr turned_def dest: HasMoved_bot split: if_splits prod.splits)

lemma pace_Move:
  assumes "pace m (cbot c)" "Move e d fu c = Inr (r, c')"
  shows "pace m (cbot c')" and "r = Some x \<Longrightarrow> m \<le> x"
proof -
  have "m \<le> move_cd c" using assms(1) by (auto simp: pace_def move_cd_def Let_def)
  then show p: "pace m (cbot c')" using Move_cooldown [OF assms(2)] assms(1) by (auto simp: pace_def)
  show "r = Some x \<Longrightarrow> m \<le> x" using Move_cooldown [OF assms(2)] p by (auto simp: pace_def split: if_splits)
qed

lemma Move_fine:
  assumes "fine c"
  obtains r c' where "Move e d fu c = Inr (r, c')" "fine c'" "idx_frame c c'" "cond c' = cond c"
  using Move_ok [OF fine_ctx [OF assms], of e d fu] assms by (metis fine_def)

lemma move_loop_bound:
  assumes "0 < m"
  shows "fine c \<Longrightarrow> pace m (cbot c) \<Longrightarrow> dt \<le> of_nat k * m \<Longrightarrow>
    \<exists>r c'. move_loop es d n dt c = Some (Inr (r, c')) \<and> fine c' \<and> idx_frame c c' \<and> cond c' = cond c
      \<and> (case r of Some x \<Rightarrow> x \<le> 0 | None \<Rightarrow> \<not> may_act True c)"
proof (induction k arbitrary: n dt c)
  case 0
  then show ?case by (simp add: move_loop.simps)
next
  case (Suc k)
  show ?case
  proof (cases "dt > 0")
    case False
    then show ?thesis using Suc.prems by (simp add: move_loop.simps)
  next
    case True
    obtain r c1 where mv: "Move (es n) d True c = Inr (r, c1)" and c1: "fine c1" "idx_frame c c1" "cond c1 = cond c"
      using Move_fine [OF Suc.prems(1)] .
    show ?thesis
    proof (cases r)
      case None
      then have "\<not> may_act True c" using Move_cooldown [OF mv] by (auto split: if_splits)
      then show ?thesis using True mv c1 None by (subst move_loop.simps) simp
    next
      case (Some x)
      have "m \<le> x" using pace_Move(2) [OF Suc.prems(2) mv Some] .
      then have "dt - x \<le> of_nat k * m" using Suc.prems(3) by (simp add: algebra_simps)
      then obtain r' c2 where "move_loop es d (Suc n) (dt - x) c1 = Some (Inr (r', c2))" "fine c2" "idx_frame c1 c2"
          "cond c2 = cond c1" "case r' of Some y \<Rightarrow> y \<le> 0 | None \<Rightarrow> \<not> may_act True c1"
        using Suc.IH [OF c1(1) pace_Move(1) [OF Suc.prems(2) mv]] by blast
      moreover have "may_act True c1 = may_act True c" using c1(3) by (simp add: may_act_def)
      ultimately show ?thesis
        using True mv Some c1 idx_frame_trans by (subst move_loop.simps) (auto simp del: split_paired_Ex split: option.splits)
    qed
  qed
qed

lemma move_loop_returns:
  assumes "fine c" "0 < cooldown (cbot c)" "0 < moveSpeed (stats (cbot c))" "0 < moveRoadSpeedMul (stats (cbot c))"
  shows "\<exists>r c'. move_loop es d n dt c = Some (Inr (r, c')) \<and> fine c' \<and> idx_frame c c' \<and> cond c' = cond c
      \<and> (case r of Some x \<Rightarrow> x \<le> 0 | None \<Rightarrow> \<not> may_act True c)"
proof -
  obtain m where m: "0 < m" "pace m (cbot c)" using pace_exists [OF assms(2,3,4)] .
  obtain k where "dt / m < of_nat k" using reals_Archimedean2 by blast
  then have "dt \<le> of_nat k * m" using m(1) by (simp add: field_simps)
  then show ?thesis using move_loop_bound [OF m(1) assms(1) m(2)] by blast
qed

section \<open>A loop that does not end\<close>

text \<open>A bot that has never acted stands before an obstacle it may not dig.\<close>

definition stuck :: "(nat \<Rightarrow> env) \<Rightarrow> side \<Rightarrow> ctx \<Rightarrow> bool" where
  "stuck es d c \<longleftrightarrow> cooldown (cbot c) = 0 \<and> may_act True c \<and> \<not> autodigg (bot_mode (cbot c))
     \<and> (\<forall>n. cdTime (cbot c) \<le> now (es n) \<and> \<not> passable (es n) (cmap c) (side_target d (cbot c)))"

lemma stuck_Move:
  assumes "stuck es d c"
  shows "\<exists>c'. Move (es n) d True c = Inr (Some 0, c') \<and> stuck es d c'"
proof -
  let ?u = "GetIDByCoord (cmap c) (fst (position (cbot c))) (snd (position (cbot c)))"
  let ?c = "upd_bot (\<lambda>b. b\<lparr>cachedBlockUnder := ?u\<rparr>) (upd_bot (turned d) c)"
  have st: "step_or_digg (es n) (upd_bot (turned d) c) = (False, upd_bot (turned d) c)"
    using assms by (simp add: stuck_def step_or_digg_def Let_def passable_def side_target_def turned_def)
  have "\<not> inCooldown (es n) (cbot c)" using assms by (simp add: stuck_def inCooldown_def not_less)
  then have "Move (es n) d True c = Inr (Some 0, ?c)"
    using assms st by (simp add: Move_def Let_def stuck_def turned_def)
  moreover have "side_target d (cbot ?c) = side_target d (cbot c)"
    by (cases d) (simp_all add: side_target_def turned_def bFrontX_def bFrontY_def)
  then have "stuck es d ?c" using assms by (simp add: stuck_def may_act_def turned_def)
  ultimately show ?thesis by blast
qed

lemma move_loop_not_stuck: "move_loop es d n dt c = Some y \<Longrightarrow> \<not> (stuck es d c \<and> 0 < dt)"
proof (erule move_loop.raw_induct [rotated], rule notI)
  fix loop es d n dt c y
  assume IH: "\<And>es d n dt c y. loop es d n dt c = Some y \<Longrightarrow> \<not> (stuck es d c \<and> 0 < dt)"
    and body: "(if 0 < dt then
        (case Move (es n) d True c of Inl e \<Rightarrow> Some (Inl e)
         | Inr r \<Rightarrow> (case fst r of None \<Rightarrow> Some (Inr (None, snd r)) | Some cd \<Rightarrow> loop es d (Suc n) (dt - cd) (snd r)))
        else Some (Inr (Some dt, c))) = Some y"
    and st: "stuck es d c \<and> 0 < dt"
  obtain c' where "Move (es n) d True c = Inr (Some 0, c')" "stuck es d c'" using st stuck_Move by blast
  then show False using IH [of es d "Suc n" "dt - 0" c' y] body st by simp
qed

lemma move_loop_stuck: "stuck es d c \<Longrightarrow> 0 < dt \<Longrightarrow> move_loop es d n dt c = None"
  using move_loop_not_stuck by fastforce

lemma move_loop_fine:
  "move_loop es d n dt c = Some y \<Longrightarrow> fine c \<Longrightarrow> \<exists>r c'. y = Inr (r, c') \<and> fine c' \<and> idx_frame c c'"
proof (erule move_loop.raw_induct [rotated, THEN mp], rule impI)
  fix loop es d n dt c y
  assume IH: "\<And>es d n dt c y. loop es d n dt c = Some y \<Longrightarrow>
      fine c \<longrightarrow> (\<exists>r c'. y = Inr (r, c') \<and> fine c' \<and> idx_frame c c')"
    and body: "(if 0 < dt then
        (case Move (es n) d True c of Inl e \<Rightarrow> Some (Inl e)
         | Inr r \<Rightarrow> (case fst r of None \<Rightarrow> Some (Inr (None, snd r)) | Some cd \<Rightarrow> loop es d (Suc n) (dt - cd) (snd r)))
        else Some (Inr (Some dt, c))) = Some y"
    and c: "fine c"
  obtain r c1 where mv: "Move (es n) d True c = Inr (r, c1)" "fine c1" "idx_frame c c1" by (rule Move_fine [OF c])
  consider "\<not> 0 < dt" | "0 < dt" "r = None" | x where "0 < dt" "r = Some x" by (cases r) auto
  then show "\<exists>r c'. y = Inr (r, c') \<and> fine c' \<and> idx_frame c c'"
  proof cases
    case 1
    then have "y = Inr (Some dt, c)" using body by simp
    then show ?thesis using c by simp
  next
    case 2
    then have "y = Inr (None, c1)" using body mv(1) by simp
    then show ?thesis using mv(2,3) by simp
  next
    case 3
    then have "loop es d (Suc n) (dt - x) c1 = Some y" using body mv(1) by simp
    then obtain r' c' where "y = Inr (r', c')" "fine c'" "idx_frame c1 c'" using IH mv(2) by blast
    then show ?thesis using idx_frame_trans [OF mv(3)] by simp
  qed
qed

section \<open>The invariant of the page\<close>

definition sandbox_ok :: "sandbox \<Rightarrow> bool" where
  "sandbox_ok s \<longleftrightarrow> world_ok (sb_game s) \<and> (\<forall>i. sb_current s = Some i \<longrightarrow> i < length (g_bots (sb_game s)))
     \<and> (\<forall>b \<in> set (g_bots (sb_game s)). bot_id b \<le> sb_BotIDCounter s \<and> items_ok (inventory b))
     \<and> width (g_map (sb_game s)) * height (g_map (sb_game s)) \<le> 2 ^ 31"

text \<open>A handler either succeeds and keeps the invariant, or raises because there is no current bot.\<close>

definition orderly :: "sandbox \<Rightarrow> sandbox result \<Rightarrow> bool" where
  "orderly s r \<longleftrightarrow> (\<exists>s'. r = Inr s' \<and> sandbox_ok s') \<or> (sb_current s = None \<and> r = Inl TypeError)"

lemma orderly_Inr [simp]: "sandbox_ok s' \<Longrightarrow> orderly s (Inr s')"
  by (simp add: orderly_def)

lemma sandbox_ok_update [simp]:
  "sandbox_ok (s\<lparr>sb_keys := k\<rparr>) = sandbox_ok s" "sandbox_ok (s\<lparr>sb_options := o1\<rparr>) = sandbox_ok s"
  "sandbox_ok (s\<lparr>sb_camera := v\<rparr>) = sandbox_ok s" "sandbox_ok (s\<lparr>sb_inProcess := b\<rparr>) = sandbox_ok s"
  "sandbox_ok (s\<lparr>sb_iter := it\<rparr>) = sandbox_ok s"
  by (simp_all add: sandbox_ok_def)

lemma sandbox_ok_game:
  assumes "sandbox_ok s" "world_ok g" "same_shape (sb_game s) g"
  shows "sandbox_ok (s\<lparr>sb_game := g\<rparr>)"
proof -
  have ids: "bot_id ` set (g_bots g) = bot_id ` set (g_bots (sb_game s))"
    and items: "inventory ` set (g_bots g) = inventory ` set (g_bots (sb_game s))"
    using assms(3) unfolding same_shape_def by (metis set_map)+
  have "bot_id b \<le> sb_BotIDCounter s" if "b \<in> set (g_bots g)" for b
    using imageI [OF that, of bot_id] assms(1) unfolding ids by (auto simp: sandbox_ok_def)
  moreover have "items_ok (inventory b)" if "b \<in> set (g_bots g)" for b
    using imageI [OF that, of inventory] assms(1) unfolding items by (auto simp: sandbox_ok_def)
  ultimately show ?thesis
    using assms same_shape_length [OF assms(3)] by (simp add: sandbox_ok_def same_shape_def)
qed

lemma orderly_bind:
  "sandbox_ok s \<Longrightarrow> \<exists>g'. r = Inr g' \<and> world_ok g' \<and> same_shape (sb_game s) g' \<Longrightarrow>
    orderly s (ebind r (\<lambda>g. Inr (s\<lparr>sb_game := g\<rparr>)))"
  by (auto simp: orderly_def intro: sandbox_ok_game)

lemma with_current_orderly:
  assumes "sandbox_ok s" "safe_act f"
  shows "orderly s (with_current f s)"
proof (cases "sb_current s")
  case None
  then show ?thesis by (simp add: with_current_def orderly_def)
next
  case (Some i)
  then have "world_ok (sb_game s)" "i < length (g_bots (sb_game s))" using assms(1) by (simp_all add: sandbox_ok_def)
  then show ?thesis
    using Some orderly_bind [OF assms(1) on_bot_ok [OF _ _ assms(2)]] by (simp add: with_current_def)
qed

lemma orderly_if: "(b \<Longrightarrow> orderly s x) \<Longrightarrow> (\<not> b \<Longrightarrow> orderly s y) \<Longrightarrow> orderly s (if b then x else y)"
  by simp

lemma world_ok_map:
  assumes "world_ok g" "map_ok w" "width w = width (g_map g)" "height w = height (g_map g)"
  shows "world_ok (g\<lparr>g_map := w\<rparr>)" and "same_shape g (g\<lparr>g_map := w\<rparr>)"
  using assms by (simp_all add: world_ok_def same_shape_def game_ok_def fine_def ctx_ok_def ctx_pre_def filed_at_def bot_ctx_def)

lemma sandbox_ok_map:
  "sandbox_ok s \<Longrightarrow> map_ok w \<Longrightarrow> width w = width (g_map (sb_game s)) \<Longrightarrow> height w = height (g_map (sb_game s)) \<Longrightarrow>
    sandbox_ok (s\<lparr>sb_game := (sb_game s)\<lparr>g_map := w\<rparr>\<rparr>)"
  by (intro sandbox_ok_game world_ok_map) (simp_all add: sandbox_ok_def)

lemma sandbox_map_ok: "sandbox_ok s \<Longrightarrow> map_ok (g_map (sb_game s))"
  by (simp add: sandbox_ok_def world_ok_def)

section \<open>Every handler is orderly\<close>

lemma MouseSetBlock_ok:
  assumes "map_ok w"
  shows "map_ok (MouseSetBlock cam x y t r w)" "width (MouseSetBlock cam x y t r w) = width w"
    "height (MouseSetBlock cam x y t r w) = height w"
proof -
  let ?P = "\<lambda>v. map_ok v \<and> width v = width w \<and> height v = height w"
  have "?P (MouseSetBlock cam x y t r w)"
    unfolding MouseSetBlock_def
    by (rule foldl_invariant [where P = ?P]) (use assms in \<open>auto simp: wf_intros split: option.splits\<close>)
  then show "map_ok (MouseSetBlock cam x y t r w)" "width (MouseSetBlock cam x y t r w) = width w"
    "height (MouseSetBlock cam x y t r w) = height w" by simp_all
qed

lemma paint_ok: "sandbox_ok s \<Longrightarrow> sandbox_ok (paint x y t r s)"
  unfolding paint_def by (intro sandbox_ok_map MouseSetBlock_ok sandbox_map_ok)

lemma mouse_ok: "sandbox_ok s \<Longrightarrow> sandbox_ok (mousedown button x y s)" "sandbox_ok s \<Longrightarrow> sandbox_ok (mousemove x y s)"
  by (simp_all add: mousedown_def mousemove_def Let_def paint_ok)

lemma key_action_safe: "key_action e code = Some act \<Longrightarrow> safe_act (\<lambda>c. Inr (act c))"
  by (auto simp: key_action_def safe_actions safe_upd_mode split: if_splits)

lemma key_run_orderly: "sandbox_ok s \<Longrightarrow> orderly s (key_run clock s)"
  unfolding key_run_def
  by (auto intro!: orderly_bind for_bots_ok with_current_orderly safe_toggle simp: sandbox_ok_def)

lemma key_call_orderly:
  assumes "sandbox_ok s" "\<And>n. unit_draw (draws n)"
  shows "orderly s (key_call draws s)"
proof (cases "sb_current s")
  case None
  then show ?thesis using assms by (simp add: key_call_def Let_def orderly_def)
next
  case (Some cur)
  let ?g = "sb_game s"
  have "game_ok ?g" "cur < length (g_bots ?g)" using assms(1) Some by (simp_all add: sandbox_ok_def world_ok_def)
  then have "rotation_ok (g_bots ?g ! cur)"
    using ctx_okD [OF fine_ctx [OF game_ok_bot]] by (fastforce simp: bot_ctx_def)
  then have safe: "safe_act (call_bot ctrl shift pos (rotation (g_bots ?g ! cur)) (\<lambda>n. draws (3 * i + n)))" for ctrl shift pos i
    using assms(2) by (intro safe_call) (auto simp: rotation_ok_def)
  have "world_ok ?g" using assms(1) by (simp add: sandbox_ok_def)
  then show ?thesis
    unfolding key_call_def Let_def Some option.case
    by (intro orderly_if orderly_Inr assms(1) orderly_bind for_bots_ok safe) auto
qed

lemma key_space_ok: "sandbox_ok s \<Longrightarrow> sandbox_ok (key_space u s)"
  by (simp add: key_space_def sandbox_ok_def Let_def)

lemma keydown_orderly:
  assumes "sandbox_ok s" "\<And>n. unit_draw (draws n)"
  shows "orderly s (keydown clock draws in_text code s)"
proof -
  have "orderly s (with_current f (s\<lparr>sb_keys := k\<rparr>))" if "safe_act f" for f k
    using with_current_orderly [of "s\<lparr>sb_keys := k\<rparr>" f] assms(1) that by (simp add: orderly_def)
  note current = this
  have "orderly s (with_current (\<lambda>c. Inr (act c)) s)" if "key_action e code = Some act" for e act
    using with_current_orderly [OF assms(1) key_action_safe [OF that]] .
  moreover have "orderly s (keydown clock draws in_text code s)"
    if "key_action (env_at s (clock 0) (draws 0)) code = None" "key_dir code = None"
    unfolding keydown_def Let_def that option.case
    by (intro orderly_if key_run_orderly key_call_orderly current safe_upd_mode orderly_Inr assms key_space_ok)
      (simp_all add: assms)
  ultimately show ?thesis
    using assms(1) by (cases "key_dir code"; cases "key_action (env_at s (clock 0) (draws 0)) code") (simp_all add: keydown_def)
qed

lemma game_ok_world: "game_ok g \<Longrightarrow> g_bots g \<noteq> [] \<Longrightarrow> world_ok g"
  using fine_world [OF game_ok_bot [of g 0]] by (simp add: world_ok_def bot_ctx_def)

lemma Execute_ok:
  assumes "world_ok g"
  shows "\<exists>g'. Execute es g = Inr g' \<and> world_ok g' \<and> same_shape g g'"
proof (cases "g_bots g = []")
  case True
  then show ?thesis using assms by (simp add: Execute_def)
next
  case False
  have "game_ok g" using assms by (simp add: world_ok_def)
  then obtain g1 where g1: "Execute es g = Inr g1" "game_ok g1" "same_shape g g1"
    unfolding Execute_def using exec_from_ok [of g "[0..<length (g_bots g)]"] by (auto simp: same_shape_def)
  moreover have "g_bots g1 \<noteq> []" using same_shape_length [OF g1(3)] False by auto
  ultimately show ?thesis by (simp add: game_ok_world)
qed

lemma execute_times_ok:
  "world_ok g \<Longrightarrow> \<exists>g'. execute_times n es g = Inr g' \<and> world_ok g' \<and> same_shape g g'"
proof (induction n arbitrary: g)
  case (Suc n)
  obtain g1 where "Execute (es n) g = Inr g1" "world_ok g1" "same_shape g g1"
    using Execute_ok [OF Suc.prems] by blast
  then show ?case using Suc.IH [of g1] same_shape_trans by auto
qed simp

lemma ProgTicker_ok:
  assumes "sandbox_ok s"
  shows "\<exists>s'. ProgTicker clock draws s = Inr s' \<and> sandbox_ok s'"
proof -
  let ?p = "o_progTicks (sb_options s)"
  let ?n = "if ?p \<noteq> 0 \<and> 1000 / ?p < 30 then 51 else 1 :: nat"
  have "world_ok (sb_game s)" using assms by (simp add: sandbox_ok_def)
  then obtain g where "execute_times ?n (\<lambda>n i. env_at s (clock n i) (draws n i)) (sb_game s) = Inr g"
      "world_ok g" "same_shape (sb_game s) g"
    using execute_times_ok by blast
  then show ?thesis using sandbox_ok_game [OF assms] by (simp add: ProgTicker_def Let_def)
qed

lemma sprinkle_ok:
  "map_ok w \<Longrightarrow> map_ok (sprinkle us w)" "width (sprinkle us w) = width w" "height (sprinkle us w) = height w"
  by (simp_all add: sprinkle_def wf_intros)

lemma GotoCurrentBot_ok: "sandbox_ok s \<Longrightarrow> g_bots (sb_game s) \<noteq> [] \<Longrightarrow> sandbox_ok (GotoCurrentBot amt cw ch s)"
  by (auto simp: GotoCurrentBot_def Let_def sandbox_ok_def split: prod.splits)

lemma Update_ok:
  assumes "sandbox_ok s"
  shows "\<exists>s'. Update us amt cw ch s = Inr s' \<and> sandbox_ok s'"
proof -
  let ?g = "(sb_game s)\<lparr>g_map := sprinkle (\<lambda>n. us (4 + n)) (sprinkle us (g_map (sb_game s)))\<rparr>"
  let ?look = "\<lambda>i c. Inr (if RandInt (us (8 + i)) 0 10 = 0 then CheckBlockUnder c else c)"
  let ?r = "if \<not> o_ignoreBorders (sb_options s) then for_bots ?look [0..<length (g_bots ?g)] ?g else Inr ?g"
  have w: "world_ok (sb_game s)" using assms by (simp add: sandbox_ok_def)
  have g: "world_ok ?g" "same_shape (sb_game s) ?g"
    using world_ok_map [OF w] sandbox_map_ok [OF assms] by (simp_all add: sprinkle_ok)
  obtain g1 where g1: "for_bots ?look [0..<length (g_bots ?g)] ?g = Inr g1" "world_ok g1" "same_shape ?g g1"
    using for_bots_ok [OF g(1), of "[0..<length (g_bots ?g)]" ?look] safe_check_under by auto
  obtain g' where g': "?r = Inr g'" "world_ok g'" "same_shape (sb_game s) g'"
    using g g1 same_shape_trans [OF g(2) g1(3)] by (cases "o_ignoreBorders (sb_options s)") auto
  have ok: "sandbox_ok (s\<lparr>sb_game := g'\<rparr>)" using sandbox_ok_game [OF assms] g'(2,3) by blast
  have "Update us amt cw ch s = Inr (if g_bots g' \<noteq> [] then GotoCurrentBot amt cw ch (s\<lparr>sb_game := g'\<rparr>) else s\<lparr>sb_game := g'\<rparr>)"
    unfolding Update_def Let_def g'(1) by simp
  then show ?thesis using ok GotoCurrentBot_ok [OF ok] by simp
qed

lemma control_tick_ok:
  assumes "sandbox_ok s" "control_tick clock draws s = Some r"
  shows "orderly s r"
proof -
  let ?k = "(sb_keys s)\<lparr>delta := Some (clock 0 - timePrev (sb_keys s))\<rparr>"
  let ?s = "s\<lparr>sb_keys := ?k\<rparr>"
  have ok: "sandbox_ok ?s" using assms(1) by simp
  have cur: "orderly s (with_current f ?s)" if "safe_act f" for f
    using with_current_orderly [OF ok that] by (simp add: orderly_def)
  have loop: "orderly s (ebind y (\<lambda>(dl, c). Inr (?s\<lparr>sb_keys := ?k\<lparr>delta := dl\<rparr>, sb_game := put_bot i c (sb_game s)\<rparr>)))"
    if ml: "move_loop es d 0 dt (bot_ctx (sb_game s) i) = Some y" and cu: "sb_current s = Some i" for es d dt i y
  proof -
    have g: "game_ok (sb_game s)" "i < length (g_bots (sb_game s))"
      using assms(1) cu by (simp_all add: sandbox_ok_def world_ok_def)
    obtain dl c where y: "y = Inr (dl, c)" "fine c" "idx_frame (bot_ctx (sb_game s) i) c"
      using move_loop_fine [OF ml game_ok_bot [OF g]] by blast
    have "sandbox_ok (?s\<lparr>sb_keys := ?k\<lparr>delta := dl\<rparr>, sb_game := put_bot i c (sb_game s)\<rparr>)"
      using assms(1) put_bot_ok [OF g y(2,3)] by (intro sandbox_ok_game) simp_all
    then show ?thesis by (simp add: y(1))
  qed
  show ?thesis
  proof (cases "held_side ?k")
    case None
    then show ?thesis
      using assms(2) ok cur [OF safe_actions(2)] by (auto simp: control_tick_def Let_def split: if_splits)
  next
    case (Some d)
    then show ?thesis
    proof (cases "sb_current s")
      case None
      then have "orderly s (Inl TypeError)" by (simp add: orderly_def)
      then show ?thesis
        using Some None assms(2) ok cur [OF safe_actions(1)]
        by (auto simp: control_tick_def Let_def split: if_splits)
    next
      case (Some i)
      then show ?thesis
        using \<open>held_side ?k = Some d\<close> assms(2) ok cur [OF safe_actions(1)] loop
        by (auto simp: control_tick_def Let_def bind_eq_Some_conv split: if_splits)
    qed
  qed
qed

section \<open>Properties\<close>

text \<open>
  (C8) The movement loop of a held key ends: if the current bot has acted before, so that its cooldown is
  positive, and its speeds are positive, then a tick of the control timer with a movement key held
  returns, without an exception, however much time has passed; the game stays in order and the
  remaining time is not positive, or not a number when a program has taken the control away.
\<close>

theorem held_key_returns:
  assumes "sandbox_ok s" "sb_current s = Some i" "0 < cooldown (g_bots (sb_game s) ! i)"
    and "0 < moveSpeed (stats (g_bots (sb_game s) ! i))" "0 < moveRoadSpeedMul (stats (g_bots (sb_game s) ! i))"
    and "held_side (sb_keys s) = Some d" "\<not> k_shift (sb_keys s)"
  shows "\<exists>s'. control_tick clock draws s = Some (Inr s') \<and> sandbox_ok s'
    \<and> (case delta (sb_keys s') of
          Some x \<Rightarrow> x \<le> 0
        | None \<Rightarrow> \<not> isManualControlAlloved (programCondition (g_bots (sb_game s) ! i)))"
proof -
  let ?dt = "clock 0 - timePrev (sb_keys s)"
  let ?k = "(sb_keys s)\<lparr>delta := Some ?dt\<rparr>"
  let ?s = "s\<lparr>sb_keys := ?k\<rparr>"
  let ?es = "\<lambda>n. env_at ?s (clock (Suc n)) (draws n)"
  have k: "held_side ?k = Some d" "\<not> k_shift ?k"
    using assms(6,7) by simp_all
  have g: "game_ok (sb_game s)" "i < length (g_bots (sb_game s))"
    using assms(1,2) by (simp_all add: sandbox_ok_def world_ok_def)
  show ?thesis
  proof (cases "0 < ?dt")
    case False
    then have "control_tick clock draws s = Some (Inr ?s)" using k by (simp add: control_tick_def Let_def)
    then show ?thesis using False assms(1) by simp
  next
    case True
    obtain r c where rc: "move_loop ?es d 0 ?dt (bot_ctx (sb_game s) i) = Some (Inr (r, c))"
        "case r of Some x \<Rightarrow> x \<le> 0 | None \<Rightarrow> \<not> may_act True (bot_ctx (sb_game s) i)"
      using move_loop_returns [OF game_ok_bot [OF g], of ?es d 0 ?dt] assms(3,4,5) by (auto simp: bot_ctx_def)
    let ?t = "?s\<lparr>sb_keys := ?k\<lparr>delta := r\<rparr>, sb_game := put_bot i c (sb_game s)\<rparr>"
    have t: "control_tick clock draws s = Some (Inr ?t)"
      using True k assms(2) rc(1) by (simp add: control_tick_def Let_def)
    then have "sandbox_ok ?t" using control_tick_ok [OF assms(1) t] assms(2) by (simp add: orderly_def)
    then show ?thesis
      using t rc(2) by (auto simp: may_act_def bot_ctx_def split: option.splits)
  qed
qed

text \<open>
  (C32) It need not end for a bot that has never acted: before an obstacle, with automatic digging switched
  off, each move returns the cooldown 0, the elapsed time never runs out and the page hangs.
\<close>

theorem held_key_hangs:
  assumes "sb_current s = Some i" "held_side (sb_keys s) = Some d" "\<not> k_shift (sb_keys s)"
    and "timePrev (sb_keys s) < clock 0"
    and "cooldown (g_bots (sb_game s) ! i) = 0" "\<And>n. cdTime (g_bots (sb_game s) ! i) \<le> clock n"
    and "\<not> autodigg (bot_mode (g_bots (sb_game s) ! i))"
    and "isManualControlAlloved (programCondition (g_bots (sb_game s) ! i))"
    and "\<not> o_ignoreBorders (sb_options s)"
    and "solid (BlockStats (GetIDByCoord (g_map (sb_game s)) (fst (side_target d (g_bots (sb_game s) ! i)))
      (snd (side_target d (g_bots (sb_game s) ! i)))))"
  shows "control_tick clock draws s = None"
proof -
  let ?dt = "clock 0 - timePrev (sb_keys s)"
  let ?k = "(sb_keys s)\<lparr>delta := Some ?dt\<rparr>"
  let ?s = "s\<lparr>sb_keys := ?k\<rparr>"
  let ?es = "\<lambda>n. env_at ?s (clock (Suc n)) (draws n)"
  have k: "held_side ?k = Some d" "\<not> k_shift ?k" using assms(2,3) by simp_all
  have "stuck ?es d (bot_ctx (sb_game s) i)"
    using assms by (simp add: stuck_def bot_ctx_def may_act_def passable_def env_at_def)
  then have "move_loop ?es d 0 ?dt (bot_ctx (sb_game s) i) = None" using assms(4) by (simp add: move_loop_stuck)
  then show ?thesis using k assms(1,4) by (simp add: control_tick_def Let_def)
qed

section \<open>A small game\<close>

lemma fine_new_bot:
  assumes "map_ok w" "bc_ok ix"
  shows "fine \<lparr>cmap = w, cidx = ix, cbot = (new_Bot i t u us pos)\<lparr>rotation := r, cooldown := cd, bot_mode := m\<rparr>\<rparr>
    \<longleftrightarrow> r \<in> {0, 90, 180, 270}"
  using assms
  by (simp add: fine_def ctx_ok_def ctx_pre_def filed_at_def rotation_ok_def new_Bot_def geo_ok_new blank_prog_def
      ProgramCondition_def frames_ok_def cond_ok_def program_wf_def TESTPROGRAM_def)

definition demo_sandbox :: "rat \<Rightarrow> bool \<Rightarrow> sandbox" where
  "demo_sandbox cd dig =
     \<lparr>sb_keys = KeyFlags\<lparr>k_w := True\<rparr>, sb_options = WOptions\<lparr>o_ignoreBorders := False\<rparr>,
      sb_game = \<lparr>g_map = WorldMap 4 4, g_index = BotsContainer 4 4,
        g_bots = [(new_Bot 1 0 0 (\<lambda>_. 0) (0, 0))\<lparr>rotation := 0, cooldown := cd, bot_mode := new_BotMode\<lparr>autodigg := dig\<rparr>\<rparr>]\<rparr>,
      sb_current = Some 0, sb_camera = Vector2d 50 50, sb_BotIDCounter = 1, sb_inProcess = False, sb_iter = None\<rparr>"

lemma demo_sandbox_ok: "sandbox_ok (demo_sandbox cd dig)"
proof -
  have w: "map_ok (WorldMap 4 4)" unfolding WorldMap_def by (rule ok_Resyze) simp_all
  have "width (WorldMap 4 4) * height (WorldMap 4 4) \<le> 2 ^ 31" by (simp add: WorldMap_def Resyze_blank)
  moreover have "fine (bot_ctx (sb_game (demo_sandbox cd dig)) 0)"
    by (simp add: demo_sandbox_def bot_ctx_def fine_new_bot [OF w bc_ok_new])
  ultimately show ?thesis
    using w bc_ok_new
    by (simp add: sandbox_ok_def world_ok_def game_ok_def demo_sandbox_def) (simp add: new_Bot_def GenerateRandomItems_ok)
qed

theorem held_key_returns_witness:
  "\<exists>s'. control_tick (\<lambda>n. 1000) (\<lambda>_. 0) (demo_sandbox 50 True) = Some (Inr s') \<and> sandbox_ok s'"
proof -
  have "\<exists>s'. control_tick (\<lambda>n. 1000) (\<lambda>_. 0) (demo_sandbox 50 True) = Some (Inr s') \<and> sandbox_ok s'
    \<and> (case delta (sb_keys s') of Some x \<Rightarrow> x \<le> 0
       | None \<Rightarrow> \<not> isManualControlAlloved (programCondition (g_bots (sb_game (demo_sandbox 50 True)) ! 0)))"
    by (rule held_key_returns [OF demo_sandbox_ok, where i = 0 and d = Su])
      (simp_all add: demo_sandbox_def new_Bot_def BotSkillEffects_def held_side_def KeyFlags_def)
  then show ?thesis by blast
qed

theorem held_key_hangs_witness: "control_tick (\<lambda>n. 1000) (\<lambda>_. 0) (demo_sandbox 0 False) = None"
proof (rule held_key_hangs [where i = 0 and d = Su])
  have "solid (BlockStats 104)" by (simp add: BlockStats_def BlockStatsTable_def)
  moreover have "\<not> ValidCoords (WorldMap 4 4) 0 (-1)" by (simp add: ValidCoords_def)
  ultimately show "solid (BlockStats (GetIDByCoord (g_map (sb_game (demo_sandbox 0 False)))
      (fst (side_target Su (g_bots (sb_game (demo_sandbox 0 False)) ! 0)))
      (snd (side_target Su (g_bots (sb_game (demo_sandbox 0 False)) ! 0)))))"
    by (simp add: demo_sandbox_def new_Bot_def side_target_def turned_def bFrontX_def bFrontY_def GetIDByCoord_def)
qed (simp_all add: demo_sandbox_def new_Bot_def held_side_def KeyFlags_def WOptions_def
    ProgramCondition_def isManualControlAlloved_def)

end
