(* ===== verification/Sandbox.thy ===== *)
theory Sandbox
  imports Controls
begin

text \<open>
  The sandbox as a whole. This theory adds to the page the start of \<^verbatim>\<open>scripts/main.js\<close>, the messages of the
  program editor (\<open>window.onmessage\<close> of \<^verbatim>\<open>scripts/userGUI/guiControls.js\<close>), \<open>SpawnNewRandomBot\<close> and the
  two timers of the physics, and composes everything into one step relation: the events of the
  page in any order and number.
\<close>

section \<open>The program editor\<close>

datatype editor_message =
    SetProgram "prog_cell list" bool
  | StopProg
  | StartProg
  | OtherMessage

definition set_program :: "env \<Rightarrow> prog_cell list \<Rightarrow> ctx \<Rightarrow> ctx" where
  "set_program e prog c = reset_program e (upd_cond (\<lambda>p. p\<lparr>program := prog\<rparr>) c)"

definition set_running :: "env \<Rightarrow> bool \<Rightarrow> ctx \<Rightarrow> ctx" where
  "set_running e b c = upd_cond (\<lambda>p. p\<lparr>isExecute := b\<rparr>) (reset_program e c)"

fun onmessage :: "(nat \<Rightarrow> rat) \<Rightarrow> editor_message \<Rightarrow> sandbox \<Rightarrow> sandbox result" where
  "onmessage clock (SetProgram prog forAll) s =
     (if forAll
      then ebind (for_bots (\<lambda>i c. Inr (set_program (env_at s (clock i) 0) prog c)) [0..<length (g_bots (sb_game s))] (sb_game s))
             (\<lambda>g. Inr (s\<lparr>sb_game := g\<rparr>))
      else with_current (\<lambda>c. Inr (set_program (env_at s (clock 0) 0) prog c)) s)"
| "onmessage clock StopProg s = with_current (\<lambda>c. Inr (set_running (env_at s (clock 0) 0) False c)) s"
| "onmessage clock StartProg s = with_current (\<lambda>c. Inr (set_running (env_at s (clock 0) 0) True c)) s"
| "onmessage clock OtherMessage s = Inr s"

section \<open>New bots\<close>

definition spawn_one :: "rat \<Rightarrow> rat \<Rightarrow> (nat \<Rightarrow> rat) \<Rightarrow> sandbox \<Rightarrow> sandbox" where
  "spawn_one t u us s =
     (let g = sb_game s; i = sb_BotIDCounter s + 1;
          pos = (case sb_current s of Some k \<Rightarrow> position (g_bots g ! k) | None \<Rightarrow> (50, 50))
      in s\<lparr>sb_game := g\<lparr>g_bots := g_bots g @ [new_Bot i t u us pos]\<rparr>, sb_BotIDCounter := i\<rparr>)"

definition SpawnNewRandomBot :: "nat \<Rightarrow> (nat \<Rightarrow> rat) \<Rightarrow> (nat \<Rightarrow> rat) \<Rightarrow> (nat \<Rightarrow> nat \<Rightarrow> rat) \<Rightarrow> sandbox \<Rightarrow> sandbox" where
  "SpawnNewRandomBot n_bots clock speeds items s = foldl (\<lambda>s i. spawn_one (clock i) (speeds i) (items i) s) s [0..<n_bots]"

section \<open>The timers of the physics\<close>

definition physics_timer :: "(int \<Rightarrow> int \<Rightarrow> rat) \<Rightarrow> (nat \<Rightarrow> rat) \<Rightarrow> sandbox \<Rightarrow> sandbox" where
  "physics_timer us vs s =
     (let g = sb_game s;
          r = physics_tick us vs (map position (g_bots g)) (sb_current s) (sb_inProcess s, g_map g)
      in s\<lparr>sb_inProcess := fst r, sb_game := g\<lparr>g_map := snd r\<rparr>\<rparr>)"

definition growth_timer :: "rat \<Rightarrow> (nat \<Rightarrow> rat) \<Rightarrow> sandbox \<Rightarrow> sandbox" where
  "growth_timer coin us s =
     (let g = sb_game s; r = growth_tick coin us (sb_iter s, g_map g)
      in s\<lparr>sb_iter := fst r, sb_game := g\<lparr>g_map := snd r\<rparr>\<rparr>)"

section \<open>The start\<close>

text \<open>The world: the loaded map, cleared strips and a hundred random blocks, five draws each.\<close>

definition random_block :: "(nat \<Rightarrow> rat) \<Rightarrow> world_map \<Rightarrow> world_map" where
  "random_block us w =
     SetTileWithCoords w (RandInt (us 0) 0 100) (RandInt (us 1) 0 100)
       (if RandInt (us 2) 0 1 \<noteq> 0
        then (if RandInt (us 3) 0 5 = 0 then 116 else word_of_int (RandInt (us 4) 50 55))
        else Block_rock_hypno) 0"

definition start_world :: "int \<Rightarrow> int \<Rightarrow> string \<Rightarrow> (nat \<Rightarrow> rat) \<Rightarrow> (nat \<Rightarrow> nat \<Rightarrow> rat) \<Rightarrow> world_map" where
  "start_world w h data ds us =
     (let m = LoadWorld (WorldMap 2 2) w h data ds;
          m = ClearRect m 0 0 2000 20;
          m = ClearRect m 1000 0 10 1000;
          m = ClearRect m 200 0 10 1000;
          m = ClearRect m 0 0 100 100
      in foldl (\<lambda>m i. random_block (us i) m) m [0..<100])"

text \<open>The search for a free place may not end; \<open>n\<close> counts the draws.\<close>

partial_function (option) find_place :: "(nat \<Rightarrow> rat) \<Rightarrow> world_map \<Rightarrow> nat \<Rightarrow> ((int \<times> int) \<times> nat) option" where
  "find_place us w n =
     (let x = RandInt (us n) 0 (width w); y = RandInt (us (n + 1)) 0 (height w) in
      if hardness (BlockStats (GetIDByCoord w x y)) \<ge> 0 then Some ((x, y), n + 2) else find_place us w (n + 2))"

text \<open>The draws for the speed, the items and the direction of a bot come from sequences of their own.\<close>

record start_draws =
  d_places :: "nat \<Rightarrow> rat"
  d_speed :: "nat \<Rightarrow> rat"
  d_items :: "nat \<Rightarrow> nat \<Rightarrow> rat"
  d_rotation :: "nat \<Rightarrow> rat"

fun place_bots :: "start_draws \<Rightarrow> rat \<Rightarrow> world_map \<Rightarrow> nat list \<Rightarrow> nat \<Rightarrow> bot list option" where
  "place_bots d t w [] n = Some []"
| "place_bots d t w (i # ks) n =
     (case find_place (d_places d) w n of
        None \<Rightarrow> None
      | Some (pos, n) \<Rightarrow>
          Option.bind (place_bots d t w ks n) (\<lambda>bs.
            Some ((new_Bot i t (d_speed d i) (d_items d i) pos)\<lparr>rotation := RandInt (d_rotation d i) 0 3 * 90\<rparr> # bs)))"

definition start_sandbox ::
    "int \<Rightarrow> int \<Rightarrow> string \<Rightarrow> (nat \<Rightarrow> rat) \<Rightarrow> (nat \<Rightarrow> nat \<Rightarrow> rat) \<Rightarrow> start_draws \<Rightarrow> rat \<Rightarrow> sandbox option" where
  "start_sandbox w h data ds us d t =
     (let m = start_world w h data ds us in
      Option.bind (place_bots d t m [2..<52] 0) (\<lambda>bs. Some
        \<lparr>sb_keys = KeyFlags, sb_options = WOptions,
         sb_game = \<lparr>g_map = m, g_index = Bots_Set (BotsContainer (width m) (height m)) [],
           g_bots = new_Bot 1 t (d_speed d 1) (d_items d 1) (50, 50) # bs\<rparr>,
         sb_current = None, sb_camera = Vector2d 50 50, sb_BotIDCounter = 51, sb_inProcess = False, sb_iter = Some 0\<rparr>))"

section \<open>Steps\<close>

text \<open>
  A program the editor sends must be well formed, and long enough for the start index the bot keeps
  from its previous program.
\<close>

definition program_fits :: "editor_message \<Rightarrow> sandbox \<Rightarrow> bool" where
  "program_fits m s \<longleftrightarrow>
     (case m of
        SetProgram prog _ \<Rightarrow> program_wf prog
          \<and> (\<forall>b \<in> set (g_bots (sb_game s)). startIndex (programCondition b) < int (length prog))
      | _ \<Rightarrow> True)"

inductive sandbox_step :: "sandbox \<Rightarrow> sandbox \<Rightarrow> bool" where
  key_down: "\<lbrakk>\<And>n. unit_draw (draws n); keydown clock draws in_text code s = Inr s'\<rbrakk> \<Longrightarrow> sandbox_step s s'"
| key_up: "sandbox_step s (s\<lparr>sb_keys := keyup t code (sb_keys s)\<rparr>)"
| blur: "sandbox_step s (s\<lparr>sb_keys := KeyFlags_Reset (sb_keys s)\<rparr>)"
| mouse_down: "sandbox_step s (mousedown button x y s)"
| mouse_move: "sandbox_step s (mousemove x y s)"
| mouse_up: "sandbox_step s (s\<lparr>sb_keys := mouseup button (sb_keys s)\<rparr>)"
| mouse_leave: "sandbox_step s (s\<lparr>sb_keys := mouseleave (sb_keys s)\<rparr>)"
| options: "sandbox_step s (s\<lparr>sb_options := set_option ev (sb_options s)\<rparr>)"
| control: "control_tick clock draws s = Some (Inr s') \<Longrightarrow> sandbox_step s s'"
| programs: "ProgTicker clocks drawss s = Inr s' \<Longrightarrow> sandbox_step s s'"
| frame: "Update us amt canv_w canv_h s = Inr s' \<Longrightarrow> sandbox_step s s'"
| falling: "sandbox_step s (physics_timer fus vs s)"
| growing: "sandbox_step s (growth_timer coin us s)"
| message: "\<lbrakk>program_fits m s; onmessage clock m s = Inr s'\<rbrakk> \<Longrightarrow> sandbox_step s s'"
| spawn: "(\<And>i n. unit_draw (items i n)) \<Longrightarrow> sandbox_step s (SpawnNewRandomBot n_bots clock speeds items s)"

inductive_cases sandbox_stepE: "sandbox_step s s'"

definition sandbox_start :: "sandbox \<Rightarrow> bool" where
  "sandbox_start s \<longleftrightarrow> (\<exists>w h data ds us d t. 0 \<le> w \<and> 0 \<le> h \<and> w * h \<le> 2 ^ 31 \<and> (\<forall>i. unit_draw (d_rotation d i))
     \<and> (\<forall>i n. unit_draw (d_items d i n)) \<and> start_sandbox w h data ds us d t = Some s)"

section \<open>Every step keeps the invariant\<close>

lemma safe_set_running: "safe_act (\<lambda>c. Inr (set_running e b c))"
proof (rule safe_actI)
  fix c assume "fine c"
  have "keeps_world c (set_running e b c)"
    by (simp add: set_running_def reset_program_def set_hand_def)
  then show "fine (set_running e b c) \<and> idx_frame c (set_running e b c)"
    using \<open>fine c\<close> keeps_world_idx_frame
    by (auto simp: set_running_def fine_def reset_program_def set_hand_def
        intro!: ctx_ok_upd_cond ctx_ok_upd_mode cond_ok_Reset blank_Reset)
qed

lemma set_program_fine:
  assumes "fine c" "program_wf prog" "startIndex (cond c) < int (length prog)"
  shows "fine (set_program e prog c)" "idx_frame c (set_program e prog c)"
proof -
  have "0 \<le> startIndex (cond c)" "frames_ok (cond c)"
    using assms(1) by (auto simp: fine_def cond_ok_def idx_ok_def blank_prog_def)
  moreover have "prog \<noteq> []" using assms(2) by (simp add: program_wf_def)
  ultimately have "cond_ok (Reset (now e) ((cond c)\<lparr>program := prog\<rparr>))"
    using assms(2,3) by (auto simp: cond_ok_def idx_ok_def frames_ok_def Reset_def Let_def set_currIndex_def)
  then have "cond_ok (cond (set_program e prog c))"
    by (simp add: set_program_def reset_program_def set_hand_def cond_ok_def idx_ok_def frames_ok_def Reset_def Let_def set_currIndex_def)
  moreover have "ctx_ok (set_program e prog c)"
    using assms(1) by (simp add: set_program_def reset_program_def set_hand_def fine_ctx ctx_ok_upd_cond ctx_ok_upd_mode)
  ultimately show "fine (set_program e prog c)" by (simp add: fine_def)
  have "keeps_world c (set_program e prog c)" by (simp add: set_program_def reset_program_def set_hand_def)
  then show "idx_frame c (set_program e prog c)" by (rule keeps_world_idx_frame)
qed

lemma startIndex_set_program: "startIndex (cond (set_program e prog c)) = startIndex (cond c)"
  by (simp add: set_program_def reset_program_def set_hand_def Reset_def Let_def set_currIndex_def)

definition starts_below :: "int \<Rightarrow> game \<Rightarrow> bool" where
  "starts_below n g \<longleftrightarrow> (\<forall>b \<in> set (g_bots g). startIndex (programCondition b) < n)"

lemma on_bot_set_program:
  assumes "world_ok g" "i < length (g_bots g)" "program_wf prog" "starts_below (int (length prog)) g"
  shows "\<exists>g'. on_bot i (\<lambda>c. Inr (set_program e prog c)) g = Inr g' \<and> world_ok g' \<and> same_shape g g'
    \<and> starts_below (int (length prog)) g'"
proof -
  let ?c = "set_program e prog (bot_ctx g i)"
  have g: "game_ok g" using assms(1) by (simp add: world_ok_def)
  have st: "startIndex (cond (bot_ctx g i)) < int (length prog)"
    using assms(2,4) by (simp add: starts_below_def bot_ctx_def)
  note c = set_program_fine [OF game_ok_bot [OF g assms(2)] assms(3) st, of e]
  have "starts_below (int (length prog)) (put_bot i ?c g)"
    using assms(4) st startIndex_set_program [of e prog "bot_ctx g i"]
    by (auto simp: starts_below_def put_bot_def dest!: set_update_subset_insert [THEN subsetD])
  then show ?thesis using put_bot_ok [OF g assms(2) c] by (simp add: on_bot_def)
qed

lemma for_bots_set_program:
  assumes "program_wf prog"
  shows "world_ok g \<Longrightarrow> \<forall>i \<in> set ks. i < length (g_bots g) \<Longrightarrow> starts_below (int (length prog)) g \<Longrightarrow>
    \<exists>g'. for_bots (\<lambda>i c. Inr (set_program (e i) prog c)) ks g = Inr g' \<and> world_ok g' \<and> same_shape g g'"
proof (induction ks arbitrary: g)
  case (Cons i ks)
  obtain g1 where g1: "on_bot i (\<lambda>c. Inr (set_program (e i) prog c)) g = Inr g1" "world_ok g1" "same_shape g g1"
      "starts_below (int (length prog)) g1"
    using on_bot_set_program [OF Cons.prems(1) _ assms Cons.prems(3), of i "e i"] Cons.prems(2) by auto
  then have "\<forall>i \<in> set ks. i < length (g_bots g1)" using Cons.prems(2) by (simp add: same_shape_length)
  then show ?case using Cons.IH [OF g1(2) _ g1(4)] g1 same_shape_trans by auto
qed simp

lemma onmessage_orderly:
  assumes "sandbox_ok s" "program_fits m s"
  shows "orderly s (onmessage clock m s)"
proof (cases m)
  case (SetProgram prog forAll)
  have w: "world_ok (sb_game s)" using assms(1) by (simp add: sandbox_ok_def)
  have p: "program_wf prog" "starts_below (int (length prog)) (sb_game s)"
    using assms(2) by (simp_all add: SetProgram program_fits_def starts_below_def)
  show ?thesis
  proof (cases forAll)
    case True
    then show ?thesis
      using for_bots_set_program [OF p(1) w _ p(2)] by (simp add: SetProgram) (rule orderly_bind [OF assms(1)], simp)
  next
    case False
    show ?thesis
    proof (cases "sb_current s")
      case None
      then show ?thesis using False by (simp add: SetProgram with_current_def orderly_def)
    next
      case (Some i)
      then have "i < length (g_bots (sb_game s))" using assms(1) by (simp add: sandbox_ok_def)
      then show ?thesis
        using False Some orderly_bind [OF assms(1)] on_bot_set_program [OF w _ p, of i]
        by (simp add: SetProgram with_current_def) blast
    qed
  qed
qed (use assms(1) in \<open>simp_all add: with_current_orderly safe_set_running\<close>)

lemma fine_fresh_bot: "map_ok w \<Longrightarrow> bc_ok ix \<Longrightarrow> fine \<lparr>cmap = w, cidx = ix, cbot = new_Bot i t u us pos\<rparr>"
  using fine_new_bot [of w ix new_BotMode 0 0 i t u us pos] by (simp add: new_Bot_def)

lemma spawn_one_ok:
  assumes "sandbox_ok s" "\<And>n. unit_draw (us n)"
  shows "sandbox_ok (spawn_one t u us s)"
proof -
  let ?g = "sb_game s" and ?i = "sb_BotIDCounter s + 1"
  obtain pos where s': "spawn_one t u us s = s\<lparr>sb_game := ?g\<lparr>g_bots := g_bots ?g @ [new_Bot ?i t u us pos]\<rparr>, sb_BotIDCounter := ?i\<rparr>"
    by (simp add: spawn_one_def Let_def)
  have ids: "\<forall>b \<in> set (g_bots ?g). bot_id b \<le> sb_BotIDCounter s" and g: "game_ok ?g"
    and w: "map_ok (g_map ?g)" "bc_ok (g_index ?g)"
    using assms by (simp_all add: sandbox_ok_def world_ok_def)
  have "game_ok (?g\<lparr>g_bots := g_bots ?g @ [new_Bot ?i t u us pos]\<rparr>)"
    unfolding game_ok_def
  proof (intro conjI allI impI)
    show "distinct (map bot_id (g_bots (?g\<lparr>g_bots := g_bots ?g @ [new_Bot ?i t u us pos]\<rparr>)))"
      using ids assms by (auto simp: new_Bot_def sandbox_ok_def world_ok_def game_ok_def)
    show "fine (bot_ctx (?g\<lparr>g_bots := g_bots ?g @ [new_Bot ?i t u us pos]\<rparr>) j)"
      if "j < length (g_bots (?g\<lparr>g_bots := g_bots ?g @ [new_Bot ?i t u us pos]\<rparr>))" for j
      using that game_ok_bot [OF g, of j] fine_fresh_bot [OF w, of ?i t u us pos] by (auto simp: bot_ctx_def nth_append less_Suc_eq)
  qed
  then show ?thesis
    using assms(1) ids w GenerateRandomItems_ok [OF assms(2) items_ok_Nil]
    by (auto simp: s' sandbox_ok_def world_ok_def new_Bot_def less_Suc_eq)
qed

lemma SpawnNewRandomBot_ok:
  "sandbox_ok s \<Longrightarrow> (\<And>i n. unit_draw (items i n)) \<Longrightarrow> sandbox_ok (SpawnNewRandomBot n clock speeds items s)"
  unfolding SpawnNewRandomBot_def by (rule foldl_invariant) (simp_all add: spawn_one_ok)

lemma physics_timer_ok:
  assumes "sandbox_ok s"
  shows "sandbox_ok (physics_timer us vs s)"
proof -
  let ?g = "sb_game s"
  let ?w = "snd (physics_tick us vs (map position (g_bots ?g)) (sb_current s) (sb_inProcess s, g_map ?g))"
  have "map_ok (g_map ?g)" using sandbox_map_ok [OF assms] .
  then have "falls_to (g_map ?g) ?w" using physics_tick_steps fall_steps_falls_to by blast
  then have "sandbox_ok (s\<lparr>sb_game := ?g\<lparr>g_map := ?w\<rparr>\<rparr>)"
    by (intro sandbox_ok_map assms) (simp_all add: falls_to_def)
  then show ?thesis by (simp add: physics_timer_def Let_def sandbox_ok_def)
qed

lemma growth_timer_ok:
  assumes "sandbox_ok s"
  shows "sandbox_ok (growth_timer coin us s)"
proof -
  let ?g = "sb_game s"
  let ?w = "snd (growth_tick coin us (sb_iter s, g_map ?g))"
  let ?P = "\<lambda>r. map_ok (snd r) \<and> width (snd r) = width (g_map ?g) \<and> height (snd r) = height (g_map ?g)"
  have w: "map_ok (g_map ?g)" "width (g_map ?g) * height (g_map ?g) \<le> 2 ^ 31"
    using assms by (simp_all add: sandbox_ok_def world_ok_def)
  have "?P (foldl (\<lambda>s i. grow_next (us i) s) (sb_iter s, g_map ?g) [0..<10])"
    by (rule foldl_invariant [where P = ?P]) (use w grow_next_ok in auto)
  then have "?P (growth_tick coin us (sb_iter s, g_map ?g))" using w by (simp add: growth_tick_def)
  then have "sandbox_ok (s\<lparr>sb_game := ?g\<lparr>g_map := ?w\<rparr>\<rparr>)"
    by (intro sandbox_ok_map assms) simp_all
  then show ?thesis by (simp add: growth_timer_def Let_def sandbox_ok_def)
qed

lemma orderly_Inr_iff [simp]: "orderly s (Inr s') \<longleftrightarrow> sandbox_ok s'"
  by (simp add: orderly_def)

lemma sandbox_step_ok:
  assumes "sandbox_step s s'" "sandbox_ok s"
  shows "sandbox_ok s'"
  using assms
proof (cases rule: sandbox_step.cases)
  case (key_down draws clock in_text code)
  then show ?thesis using keydown_orderly [OF assms(2), of draws clock in_text code] by simp
next
  case (control clock draws)
  then show ?thesis using control_tick_ok [OF assms(2)] by fastforce
next
  case (programs clocks drawss)
  then show ?thesis using ProgTicker_ok [OF assms(2), of clocks drawss] by auto
next
  case (frame us amt canv_w canv_h)
  then show ?thesis using Update_ok [OF assms(2), of us amt canv_w canv_h] by auto
next
  case (message m clock)
  then show ?thesis using onmessage_orderly [OF assms(2) message(1), of clock] by simp
qed (simp_all add: mouse_ok physics_timer_ok growth_timer_ok SpawnNewRandomBot_ok)

section \<open>The start keeps it too\<close>

lemma dims_ClearRect [simp]:
  "width (ClearRect w x y rw rh) = width w" "height (ClearRect w x y rw rh) = height w"
proof -
  have "width (ClearRect w x y rw rh) = width w \<and> height (ClearRect w x y rw rh) = height w"
    unfolding ClearRect_def by (rule foldl_invariant) auto
  then show "width (ClearRect w x y rw rh) = width w" "height (ClearRect w x y rw rh) = height w" by simp_all
qed

lemma start_world_ok:
  assumes "0 \<le> w" "0 \<le> h"
  shows "map_ok (start_world w h data ds us) \<and> width (start_world w h data ds us) = w
    \<and> height (start_world w h data ds us) = h"
  unfolding start_world_def Let_def
proof (rule foldl_invariant [where P = "\<lambda>m. map_ok m \<and> width m = w \<and> height m = h"])
qed (use assms in \<open>auto simp: random_block_def LoadWorld_def Resyze_blank intro!: wf_intros\<close>)

lemma place_bots_ids: "place_bots d t w ks n = Some bs \<Longrightarrow> map bot_id bs = ks"
  by (induction d t w ks n arbitrary: bs rule: place_bots.induct)
    (auto simp: new_Bot_def bind_eq_Some_conv split: option.splits)

lemma place_bots_fine:
  assumes "map_ok w" "bc_ok ix" "\<forall>i. unit_draw (d_rotation d i)"
  shows "place_bots d t w' ks n = Some bs \<Longrightarrow> b \<in> set bs \<Longrightarrow> fine \<lparr>cmap = w, cidx = ix, cbot = b\<rparr>"
proof (induction ks arbitrary: n bs)
  case (Cons i ks)
  have "RandInt (d_rotation d i) 0 3 \<in> {0, 1, 2, 3}" using RandInt_range [of "d_rotation d i" 0 3] assms(3) by auto
  then have "fine \<lparr>cmap = w, cidx = ix, cbot = (new_Bot i t u us pos)\<lparr>rotation := RandInt (d_rotation d i) 0 3 * 90\<rparr>\<rparr>" for u us pos
    using fine_new_bot [OF assms(1,2), of new_BotMode 0 "RandInt (d_rotation d i) 0 3 * 90" i t u us pos]
    by (auto simp: new_Bot_def)
  then show ?case using Cons by (auto simp: bind_eq_Some_conv split: option.splits)
qed simp

lemma new_Bot_items: "(\<And>n. unit_draw (us n)) \<Longrightarrow> items_ok (inventory (new_Bot i t u us pos))"
  by (simp add: new_Bot_def GenerateRandomItems_ok)

lemma place_bots_items:
  "\<forall>i n. unit_draw (d_items d i n) \<Longrightarrow> place_bots d t w ks n = Some bs \<Longrightarrow> b \<in> set bs \<Longrightarrow> items_ok (inventory b)"
  by (induction ks arbitrary: n bs) (auto simp: bind_eq_Some_conv new_Bot_items split: option.splits)

lemma start_sandbox_ok:
  assumes "0 \<le> w" "0 \<le> h" "w * h \<le> 2 ^ 31" "\<forall>i. unit_draw (d_rotation d i)"
    and it: "\<forall>i n. unit_draw (d_items d i n)" and st: "start_sandbox w h data ds us d t = Some s"
  shows "sandbox_ok s"
proof -
  let ?m = "start_world w h data ds us"
  let ?ix = "Bots_Set (BotsContainer (width ?m) (height ?m)) []"
  obtain bs where bs: "place_bots d t ?m [2..<52] 0 = Some bs"
      and s: "g_map (sb_game s) = ?m" "g_index (sb_game s) = ?ix"
        "g_bots (sb_game s) = new_Bot 1 t (d_speed d 1) (d_items d 1) (50, 50) # bs"
        "sb_current s = None" "sb_BotIDCounter s = 51"
    using st by (auto simp: start_sandbox_def Let_def bind_eq_Some_conv)
  have m: "map_ok ?m" "width ?m = w" "height ?m = h" using start_world_ok [OF assms(1,2)] by auto
  have ix: "bc_ok ?ix" by (simp add: bc_ok_new)
  have ids: "map bot_id (g_bots (sb_game s)) = [1..<52]"
    using place_bots_ids [OF bs] by (subst upt_conv_Cons) (simp_all add: s new_Bot_def numeral_2_eq_2)
  have "fine \<lparr>cmap = ?m, cidx = ?ix, cbot = b\<rparr>" if "b \<in> set (g_bots (sb_game s))" for b
    using that place_bots_fine [OF m(1) ix assms(4) bs] fine_fresh_bot [OF m(1) ix] by (auto simp: s)
  then have "\<forall>i < length (g_bots (sb_game s)). fine (bot_ctx (sb_game s) i)"
    by (simp add: bot_ctx_def s(1,2) del: Bots_Set.simps)
  moreover have "distinct (map bot_id (g_bots (sb_game s)))" unfolding ids by simp
  moreover have "\<forall>b \<in> set (g_bots (sb_game s)). bot_id b \<le> 51"
  proof
    fix b assume "b \<in> set (g_bots (sb_game s))"
    then have "bot_id b \<in> set [1..<52]" unfolding ids [symmetric] by simp
    then show "bot_id b \<le> 51" by simp
  qed
  moreover have "\<forall>b \<in> set (g_bots (sb_game s)). items_ok (inventory b)"
    using place_bots_items [OF it bs] it by (simp add: s(3) new_Bot_items)
  ultimately show ?thesis
    using m ix assms(3) s(1,2,4,5) by (simp add: sandbox_ok_def world_ok_def game_ok_def)
qed

interpretation sandbox_sys: event_system sandbox_start sandbox_step sandbox_ok
proof
  show "sandbox_ok s" if "sandbox_start s" for s
    using that start_sandbox_ok by (auto simp: sandbox_start_def)
  show "sandbox_ok t" if "sandbox_step s t" "sandbox_ok s" for s t
    using that by (rule sandbox_step_ok)
qed

section \<open>Properties\<close>


text \<open>A world of one cell on which every random block lands, so that every bot can start there.\<close>

definition one_cell :: "world_map \<Rightarrow> bool" where
  "one_cell m \<longleftrightarrow> width m = 1 \<and> height m = 1 \<and> length (terrain m) = 1"

lemma one_cell_ClearRect: "one_cell m \<Longrightarrow> one_cell (ClearRect m x y w h)"
  unfolding ClearRect_def by (rule foldl_invariant) (auto simp: one_cell_def ClearTile_def Let_def)

definition same_spot :: "nat \<Rightarrow> rat" where
  "same_spot n = (if n = 2 then 1 / 2 else 0)"

lemma random_block_same_spot: "random_block same_spot m = SetTileWithCoords m 0 0 116 0"
  by (simp add: random_block_def same_spot_def RandInt_def)

lemma one_cell_random_block: "one_cell m \<Longrightarrow> one_cell (random_block same_spot m)"
  unfolding random_block_same_spot by (simp add: one_cell_def SetTileWithCoords_def SetTile_def)

lemma rich_start: "GetIDByCoord (start_world 1 1 [] ds (\<lambda>_. same_spot)) 0 0 = 116"
proof -
  let ?m = "ClearRect (ClearRect (ClearRect (ClearRect (LoadWorld (WorldMap 2 2) 1 1 [] ds) 0 0 2000 20)
    1000 0 10 1000) 200 0 10 1000) 0 0 100 100"
  let ?f = "\<lambda>m i. random_block same_spot m"
  have "one_cell (LoadWorld (WorldMap 2 2) 1 1 [] ds)"
    by (simp add: one_cell_def LoadWorld_def Resyze_def Fill_def Let_def)
  then have "one_cell ?m" by (intro one_cell_ClearRect)
  then have one: "one_cell (foldl ?f ?m [0..<99])"
    by (rule foldl_invariant) (rule one_cell_random_block)
  have "[0..<100] = [0..<99] @ [99]" using upt_Suc_append [of 0 99] by simp
  then have "start_world 1 1 [] ds (\<lambda>_. same_spot) = random_block same_spot (foldl ?f ?m [0..<99])"
    by (simp add: start_world_def Let_def)
  moreover have "solid (BlockStats 116)" by (simp add: BlockStats_def BlockStatsTable_def)
  ultimately show ?thesis
    using one by (simp add: random_block_same_spot one_cell_def SetTileWithCoords_def SetTile_def ValidCoords_def
        GetIDByCoord_def ta_byte_def ta_get_set)
qed

definition still_draws :: start_draws where
  "still_draws = \<lparr>d_places = (\<lambda>_. 0), d_speed = (\<lambda>_. 0), d_items = (\<lambda>_ _. 0), d_rotation = (\<lambda>_. 0)\<rparr>"

lemma find_place_rich:
  assumes "GetIDByCoord m 0 0 = 116"
  shows "find_place (\<lambda>_. 0) m n = Some ((0, 0), n + 2)"
proof -
  have "0 \<le> hardness (BlockStats 116)" by (simp add: BlockStats_def BlockStatsTable_def)
  then show ?thesis using assms by (subst find_place.simps) (simp add: RandInt_def)
qed

lemma place_bots_rich: "GetIDByCoord m 0 0 = 116 \<Longrightarrow> \<exists>bs. place_bots still_draws t m ks n = Some bs \<and> length bs = length ks"
proof (induction ks arbitrary: n)
  case (Cons i ks)
  obtain bs where "place_bots still_draws t m ks (n + 2) = Some bs" "length bs = length ks" using Cons by blast
  then show ?case using Cons.prems by (simp add: still_draws_def find_place_rich)
qed simp

lemma one_cell_start: "\<exists>s. start_sandbox 1 1 [] ds (\<lambda>_. same_spot) still_draws t = Some s"
proof -
  obtain bs where "place_bots still_draws t (start_world 1 1 [] ds (\<lambda>_. same_spot)) [2..<52] 0 = Some bs"
    using place_bots_rich [OF rich_start] by blast
  then show ?thesis unfolding start_sandbox_def Let_def by (simp only: bind.bind_lunit) blast
qed

lemma sandbox_startI:
  assumes "start_sandbox w h data ds us d t = Some s" "0 \<le> w" "0 \<le> h" "w * h \<le> 2 ^ 31"
    and "\<And>i. unit_draw (d_rotation d i)" "\<And>i n. unit_draw (d_items d i n)"
  shows "sandbox_start s"
  unfolding sandbox_start_def using assms by blast


lemma empty_scan_blank_line:
  assumes "length (program p) = 16" "\<forall>cell \<in> set (program p). cell_id cell = 0"
  shows "0 \<le> i \<Longrightarrow> i < 16 \<Longrightarrow> \<exists>p'. empty_scan p i = Inr p' \<and> currIndex p' = startIndex p \<and> program p' = program p
    \<and> isExecute p' = isExecute p"
proof (induction "nat (15 - i)" arbitrary: i)
  case 0
  then have "i = 15" by simp
  then show ?case using assms by (subst empty_scan.simps) (simp add: LineLength_def)
next
  case (Suc n)
  then have i: "i + 1 < 16" "i mod 16 \<noteq> 15" by simp_all
  moreover have "cell_id (program p ! nat i) = 0" using assms Suc.prems by simp
  moreover have "\<exists>p'. empty_scan p (i + 1) = Inr p' \<and> currIndex p' = startIndex p \<and> program p' = program p
      \<and> isExecute p' = isExecute p"
    using Suc.hyps(1) [of "i + 1"] Suc.hyps(2) Suc.prems i by simp
  ultimately show ?case using assms(1) Suc.prems by (subst empty_scan.simps) (simp add: LineLength_def)
qed



definition in_rock :: "world_map \<Rightarrow> int \<times> int \<Rightarrow> bool" where
  "in_rock w p \<longleftrightarrow> ValidCoords w (fst p) (snd p) \<and> solid (BlockStats (GetIDByCoord w (fst p) (snd p)))"

lemma hard_place: "0 \<le> hardness (BlockStats (GetIDByCoord w x y)) \<Longrightarrow> in_rock w (x, y)"
  using not_fed_valid [of w x y] hard_solid
  by (cases "GetIDByCoord w x y = 104") (auto simp: in_rock_def BlockStats_def BlockStatsTable_def basicBS_def)

lemma find_place_rock: "find_place us w n = Some r \<Longrightarrow> in_rock w (fst r)"
  by (erule find_place.raw_induct [rotated]) (auto simp: Let_def hard_place split: if_splits)

text \<open>
  (C34) The random bots start inside the rock. The start of the page accepts a place if the hardness of the
  block there is not negative, but the free ground has hardness -1: each of the bots is put on a cell
  of the map with a solid block, and if there is no such cell the search for a place does not end.
\<close>

theorem bots_start_in_rock:
  "(\<forall>bs. place_bots d t w ks n = Some bs \<longrightarrow> (\<forall>b \<in> set bs. in_rock w (position b)))
   \<and> ((\<forall>p. \<not> in_rock w p) \<longrightarrow> ks \<noteq> [] \<longrightarrow> place_bots d t w ks n = None)"
proof -
  have "in_rock w (position b)" if "place_bots d t w ks n = Some bs" "b \<in> set bs" for bs b
    using that
    by (induction ks arbitrary: n bs) (auto simp: new_Bot_def bind_eq_Some_conv dest!: find_place_rock split: option.splits)
  moreover have "place_bots d t w ks n = None" if "\<forall>p. \<not> in_rock w p" "ks \<noteq> []"
    using that find_place_rock [of "d_places d" w n] by (cases ks) (auto split: option.splits)
  ultimately show ?thesis by blast
qed

theorem bots_start_in_rock_witness:
  "(\<exists>bs. place_bots still_draws 0 (start_world 1 1 [] (\<lambda>_. 0) (\<lambda>_. same_spot)) [2, 3] 0 = Some bs \<and> length bs = 2
     \<and> (\<forall>b \<in> set bs. in_rock (start_world 1 1 [] (\<lambda>_. 0) (\<lambda>_. same_spot)) (position b)))
   \<and> place_bots still_draws 0 (WorldMap 1 1) [2] 0 = None"
proof
  let ?w = "start_world 1 1 [] (\<lambda>_. 0) (\<lambda>_. same_spot)"
  have "\<exists>bs. place_bots still_draws 0 ?w [2, 3] 0 = Some bs \<and> length bs = length [2 :: nat, 3]"
    by (rule place_bots_rich [OF rich_start])
  then obtain bs where "place_bots still_draws 0 ?w [2, 3] 0 = Some bs" "length bs = 2"
    by (auto simp del: place_bots.simps)
  then show "\<exists>bs. place_bots still_draws 0 ?w [2, 3] 0 = Some bs \<and> length bs = 2 \<and> (\<forall>b \<in> set bs. in_rock ?w (position b))"
    using bots_start_in_rock by blast
  have "\<not> in_rock (WorldMap 1 1) p" for p
    by (cases p) (auto simp: in_rock_def WorldMap_def Resyze_def Fill_def Let_def ValidCoords_def GetIDByCoord_def
        ta_byte_def ta_get_def BlockStats_def BlockStatsTable_def basicBS_def)
  then show "place_bots still_draws 0 (WorldMap 1 1) [2] 0 = None"
    using bots_start_in_rock [of still_draws 0 "WorldMap 1 1" "[2]" 0] by simp
qed

end
