(* ===== verification/Terrain_View.thy ===== *)
theory Terrain_View
  imports Controls
begin

text \<open>
  How the terrain gets to the screen: the tile set of \<^verbatim>\<open>scripts/tables/minestileset.js\<close> and \<open>DrawTerrain\<close>
  and \<open>SetTile\<close> of \<^verbatim>\<open>scripts/wrenderer.js\<close>. A call of the canvas is a value: a square of 16 pixels is copied
  from the tile set to the canvas.
\<close>

section \<open>The tile set\<close>

type_synonym rect = "int \<times> int \<times> int \<times> int"
type_synonym tile_row = "nat \<times> rect \<times> rect option"

text \<open>
  The rows of \<open>WorldTilesetRaw\<close>: the identifier of a block, the rectangle of its picture, and that of the
  picture it alternates with, if any.
\<close>

definition tiles_ground :: "tile_row list" where
  "tiles_ground = [
     (0, (0, 544, 480, 320), None), (30, (0, 160, 64, 128), None), (31, (0, 0, 16, 16), None),
     (32, (480, 544, 480, 320), None), (33, (0, 864, 480, 320), None), (34, (480, 864, 480, 320), None),
     (35, (0, 1184, 480, 320), None), (36, (480, 1184, 480, 320), None), (37, (16, 0, 16, 16), None),
     (38, (32, 0, 16, 16), None), (39, (48, 0, 16, 16), None)]"

definition tiles_bolders :: "tile_row list" where
  "tiles_bolders = [
     (40, (64, 0, 16, 16), None), (41, (80, 0, 16, 16), None), (42, (96, 0, 16, 16), None),
     (43, (112, 0, 16, 16), None), (44, (128, 0, 16, 16), None), (45, (144, 0, 16, 16), None),
     (48, (160, 0, 16, 16), None), (49, (176, 0, 16, 16), None)]"

definition tiles_alive :: "tile_row list" where
  "tiles_alive = [
     (50, (688, 0, 32, 32), Some (688, 32, 32, 32)), (51, (720, 0, 32, 32), Some (720, 32, 32, 32)),
     (52, (752, 0, 32, 32), Some (752, 32, 32, 32)), (53, (816, 0, 48, 48), Some (640, 16, 48, 48)),
     (54, (784, 0, 32, 32), Some (784, 32, 32, 32)), (55, (64, 160, 160, 128), None)]"

definition tiles_sand :: "tile_row list" where
  "tiles_sand = [
     (60, (192, 0, 16, 16), None), (61, (208, 0, 16, 16), None), (62, (224, 0, 16, 16), None),
     (63, (240, 0, 16, 16), None), (64, (256, 0, 16, 16), None), (65, (272, 0, 16, 16), None),
     (66, (288, 0, 16, 16), None), (67, (304, 0, 16, 16), None), (68, (864, 0, 96, 64), None),
     (69, (0, 64, 96, 64), None)]"

definition tiles_crystals :: "tile_row list" where
  "tiles_crystals = [
     (71, (96, 64, 80, 80), None), (72, (176, 64, 80, 80), None), (73, (256, 64, 80, 80), None),
     (74, (336, 64, 80, 80), None), (75, (416, 64, 80, 80), None)]"

definition tiles_blocks :: "tile_row list" where
  "tiles_blocks = [
     (80, (320, 0, 16, 16), None), (81, (336, 0, 16, 16), None), (82, (352, 0, 16, 16), None),
     (83, (368, 0, 16, 16), None), (86, (384, 0, 16, 16), None), (87, (400, 0, 16, 16), None),
     (88, (416, 0, 16, 16), None)]"

definition tiles_rocks :: "tile_row list" where
  "tiles_rocks = [
     (90, (432, 0, 16, 16), None), (91, (448, 0, 16, 16), None), (92, (464, 0, 16, 16), None),
     (93, (480, 0, 16, 16), None), (94, (496, 0, 16, 16), None), (95, (512, 0, 16, 16), None),
     (96, (528, 0, 16, 16), None), (97, (544, 0, 16, 16), None), (98, (560, 0, 16, 16), None),
     (99, (576, 0, 16, 16), None), (100, (592, 0, 16, 16), None), (101, (608, 0, 16, 16), None),
     (102, (624, 0, 16, 16), None), (103, (224, 160, 160, 128), None), (104, (640, 0, 16, 16), None)]"

definition tiles_minerals :: "tile_row list" where
  "tiles_minerals = [
     (105, (656, 0, 16, 16), None), (106, (672, 0, 16, 16), None), (107, (384, 160, 160, 128), None),
     (108, (544, 160, 160, 128), None), (109, (704, 160, 160, 128), None),
     (110, (656, 64, 128, 96), None), (111, (496, 64, 160, 80), None), (112, (784, 64, 160, 96), None),
     (113, (0, 288, 160, 128), None), (114, (160, 288, 160, 128), None),
     (115, (320, 288, 160, 128), None), (116, (480, 288, 160, 128), None),
     (117, (640, 288, 160, 128), None), (118, (800, 288, 160, 128), None),
     (119, (0, 416, 160, 128), None), (120, (160, 416, 160, 128), None),
     (121, (320, 416, 160, 128), None), (122, (480, 416, 160, 128), None)]"

definition TilesData :: "nat \<Rightarrow> (rect \<times> rect option) option" where
  "TilesData tid = map_of (tiles_ground @ tiles_bolders @ tiles_alive @ tiles_sand @ tiles_crystals @ tiles_blocks
     @ tiles_rocks @ tiles_minerals) tid"

definition sheet_size :: "int \<times> int" where
  "sheet_size = (960, 1504)"

section \<open>Drawing\<close>

record tile_draw =
  src_x :: int
  src_y :: int
  dst_x :: int
  dst_y :: int

definition view_SetTile :: "rat \<Rightarrow> int \<Rightarrow> int \<Rightarrow> nat \<Rightarrow> int \<times> int \<Rightarrow> tile_draw list" where
  "view_SetTile t tx ty tid worldPos =
     (let data = TilesData tid; syze = 16;
          (px, py, w, h) = (case data of None \<Rightarrow> fst (the (TilesData 0)) | Some r \<Rightarrow> fst r);
          dx = js_rem (fst worldPos * syze) w; dy = js_rem (snd worldPos * syze) h;
          pn = t / 1000 - of_int \<lfloor>t / 1000\<rfloor>
      in \<lparr>src_x = px + dx, src_y = py + dy, dst_x = tx, dst_y = ty\<rparr> #
         (case data of
            Some (_, Some (fx, fy, _, _)) \<Rightarrow>
              (if pn > 1 / 2 then [\<lparr>src_x = fx + dx, src_y = fy + dy, dst_x = tx, dst_y = ty\<rparr>] else [])
          | _ \<Rightarrow> []))"

text \<open>The cells of the map in the order they are drawn, each with its place on the canvas.\<close>

definition view_cells :: "vector2d \<Rightarrow> int \<Rightarrow> int \<Rightarrow> ((int \<times> int) \<times> (int \<times> int)) list" where
  "view_cells camera canv_w canv_h =
     (let xm = mantice (vx camera) * 16; ym = mantice (vy camera) * 16; cx = x_int camera; cy = y_int camera in
      concat (map (\<lambda>y. map (\<lambda>x. ((cx + x, cy + y), (\<lfloor>of_int (x * 16) - xm\<rfloor>, \<lfloor>of_int (y * 16) - ym\<rfloor>)))
          [0..\<lceil>of_int canv_w / (16 :: rat)\<rceil>]) [0..\<lceil>of_int canv_h / (16 :: rat)\<rceil>]))"

definition DrawTerrain :: "vector2d \<Rightarrow> int \<Rightarrow> int \<Rightarrow> rat \<Rightarrow> world_map \<Rightarrow> tile_draw list" where
  "DrawTerrain camera canv_w canv_h t w =
     concat (map (\<lambda>((mx, my), (tx, ty)). view_SetTile t tx ty (unat (GetIDByCoord w mx my)) (mx, my))
       (view_cells camera canv_w canv_h))"

section \<open>The tile set fits together\<close>

definition row_ok :: "tile_row \<Rightarrow> bool" where
  "row_ok r \<longleftrightarrow> (case r of (_, (x, y, w, h), fl) \<Rightarrow>
     0 \<le> x \<and> 0 \<le> y \<and> 0 < w \<and> 0 < h \<and> w mod 16 = 0 \<and> h mod 16 = 0 \<and> x + w \<le> 960 \<and> y + h \<le> 1504
     \<and> (case fl of None \<Rightarrow> True | Some (fx, fy, fw, fh) \<Rightarrow> fw = w \<and> fh = h \<and> 0 \<le> fx \<and> 0 \<le> fy \<and> fx + fw \<le> 960 \<and> fy + fh \<le> 1504))"

lemmas tile_groups = tiles_ground_def tiles_bolders_def tiles_alive_def tiles_sand_def tiles_crystals_def
  tiles_blocks_def tiles_rocks_def tiles_minerals_def

lemma tiles_ok:
  "list_all row_ok (tiles_ground @ tiles_bolders @ tiles_alive @ tiles_sand @ tiles_crystals @ tiles_blocks @ tiles_rocks @ tiles_minerals)"
  by (simp add: tile_groups row_ok_def)

lemma TilesData_ok: "TilesData tid = Some r \<Longrightarrow> row_ok (tid, r)"
  using tiles_ok unfolding TilesData_def list_all_iff by (blast dest: map_of_SomeD)

lemma TilesData_0: "TilesData 0 = Some ((0, 544, 480, 320), None)"
  by (simp add: TilesData_def tiles_ground_def)

lemma TilesData_104: "TilesData 104 = Some ((640, 0, 16, 16), None)"
  by (simp add: TilesData_def tile_groups)

text \<open>A square of 16 pixels inside a rectangle.\<close>

definition square_in :: "int \<Rightarrow> int \<Rightarrow> rect \<Rightarrow> bool" where
  "square_in sx sy r \<longleftrightarrow> (case r of (x, y, w, h) \<Rightarrow> x \<le> sx \<and> sx + 16 \<le> x + w \<and> y \<le> sy \<and> sy + 16 \<le> y + h)"

lemma rem16_fits:
  fixes w k :: int
  assumes "0 < w" "w mod 16 = 0" "0 \<le> k \<or> w = 16"
  shows "0 \<le> js_rem (k * 16) w \<and> js_rem (k * 16) w + 16 \<le> w"
proof (cases "w = 16")
  case True
  then show ?thesis by (simp add: js_rem_def abs_mult)
next
  case False
  then have k: "0 \<le> k" using assms(3) by blast
  from assms(2) have "16 dvd w" by (rule mod_0_imp_dvd)
  then obtain m where m: "w = 16 * m" by (rule dvdE)
  have pm: "0 < m" using assms(1) m by simp
  have "js_rem (k * 16) w = (16 * k) mod (16 * m)" using k assms(1) js_rem_nonneg [of "k * 16" w] by (simp add: m mult.commute)
  also have "\<dots> = 16 * (k mod m)" by (rule mult_mod_right [symmetric])
  finally have r: "js_rem (k * 16) w = 16 * (k mod m)" .
  show ?thesis using r m pos_mod_bound [OF pm, of k] pos_mod_sign [OF pm, of k] by linarith
qed

section \<open>What a cell shows\<close>

definition pictures :: "nat \<Rightarrow> rect list" where
  "pictures tid =
     (case TilesData tid of
        None \<Rightarrow> [fst (the (TilesData 0))]
      | Some (r, None) \<Rightarrow> [r]
      | Some (r, Some f) \<Rightarrow> [r, f])"

lemma pictures_104: "pictures 104 = [(640, 0, 16, 16)]"
  by (simp add: pictures_def TilesData_104)

lemma pictures_on_sheet: "(x, y, w, h) \<in> set (pictures tid) \<Longrightarrow> 0 \<le> x \<and> 0 \<le> y \<and> x + w \<le> 960 \<and> y + h \<le> 1504"
  using TilesData_ok [of tid]
  by (cases "TilesData tid") (auto simp: pictures_def TilesData_0 row_ok_def split: option.splits prod.splits)

definition tile_row_of :: "nat \<Rightarrow> rect \<times> rect option" where
  "tile_row_of tid = (case TilesData tid of None \<Rightarrow> (fst (the (TilesData 0)), None) | Some r \<Rightarrow> r)"

lemma tile_row_of_ok: "row_ok (tid, tile_row_of tid)"
  using TilesData_ok [of tid] by (cases "TilesData tid") (simp_all add: tile_row_of_def TilesData_0 row_ok_def)

lemma pictures_row: "pictures tid = fst (tile_row_of tid) # (case snd (tile_row_of tid) of None \<Rightarrow> [] | Some f \<Rightarrow> [f])"
  by (cases "TilesData tid") (auto simp: pictures_def tile_row_of_def split: option.splits)

lemma view_SetTile_row:
  assumes "tile_row_of tid = ((px, py, w, h), fl)"
  shows "set (view_SetTile t tx ty tid p) \<subseteq>
    {\<lparr>src_x = x + js_rem (fst p * 16) w, src_y = y + js_rem (snd p * 16) h, dst_x = tx, dst_y = ty\<rparr> | x y.
       (x, y) = (px, py) \<or> (\<exists>fw fh. fl = Some (x, y, fw, fh))}"
  using assms by (cases "TilesData tid") (auto simp: view_SetTile_def tile_row_of_def Let_def split: option.splits prod.splits if_splits)

lemma view_SetTile_inside:
  assumes "tid = 104 \<or> 0 \<le> fst p \<and> 0 \<le> snd p" "d \<in> set (view_SetTile t tx ty tid p)"
  shows "\<exists>r \<in> set (pictures tid). square_in (src_x d) (src_y d) r" and "dst_x d = tx" and "dst_y d = ty"
proof -
  obtain px py w h fl where row: "tile_row_of tid = ((px, py, w, h), fl)" by (metis prod_cases5 surj_pair)
  obtain x y where d: "d = \<lparr>src_x = x + js_rem (fst p * 16) w, src_y = y + js_rem (snd p * 16) h, dst_x = tx, dst_y = ty\<rparr>"
      and xy: "(x, y) = (px, py) \<or> (\<exists>fw fh. fl = Some (x, y, fw, fh))"
    using view_SetTile_row [OF row] assms(2) by blast
  show "dst_x d = tx" "dst_y d = ty" by (simp_all add: d)
  have ok: "row_ok (tid, (px, py, w, h), fl)" using tile_row_of_ok [of tid] by (simp add: row)
  have "tid = 104 \<Longrightarrow> w = 16 \<and> h = 16" using row by (simp add: tile_row_of_def TilesData_104)
  then have "0 \<le> js_rem (fst p * 16) w \<and> js_rem (fst p * 16) w + 16 \<le> w" "0 \<le> js_rem (snd p * 16) h \<and> js_rem (snd p * 16) h + 16 \<le> h"
    using assms(1) ok rem16_fits [of w "fst p"] rem16_fits [of h "snd p"] by (auto simp: row_ok_def)
  then have "square_in (src_x d) (src_y d) (x, y, w, h)" by (simp add: d square_in_def)
  moreover have "(x, y, w, h) \<in> set (pictures tid)"
    using xy ok by (auto simp: pictures_row row row_ok_def)
  ultimately show "\<exists>r \<in> set (pictures tid). square_in (src_x d) (src_y d) r" by blast
qed

lemma cell_drawable: "unat (GetIDByCoord w x y) = 104 \<or> 0 \<le> x \<and> 0 \<le> y"
  by (auto simp: GetIDByCoord_def ValidCoords_def)

section \<open>Cells and pixels\<close>

definition shown_cell :: "rat \<Rightarrow> int \<Rightarrow> int" where
  "shown_cell c px = \<lfloor>c\<rfloor> + (px + \<lceil>mantice c * 16\<rceil>) div 16"

definition covers :: "tile_draw \<Rightarrow> int \<Rightarrow> int \<Rightarrow> bool" where
  "covers d px py \<longleftrightarrow> dst_x d \<le> px \<and> px < dst_x d + 16 \<and> dst_y d \<le> py \<and> py < dst_y d + 16"

lemma tile_place: "\<lfloor>of_int (x * 16) - z\<rfloor> = x * 16 - \<lceil>z :: rat\<rceil>"
  by (simp add: ceiling_def floor_diff_of_int [symmetric] flip: floor_add_int) linarith

lemma floor_div16: "\<lfloor>(z :: rat) / 16\<rfloor> = \<lfloor>z\<rfloor> div 16"
proof (rule floor_unique)
  have "\<lfloor>z\<rfloor> div 16 * 16 \<le> \<lfloor>z\<rfloor>" "\<lfloor>z\<rfloor> < (\<lfloor>z\<rfloor> div 16 + 1) * 16" by presburger+
  then have "of_int (\<lfloor>z\<rfloor> div 16 * 16) \<le> z" "z < of_int ((\<lfloor>z\<rfloor> div 16 + 1) * 16)" unfolding le_floor_iff floor_less_iff by blast+
  then show "of_int (\<lfloor>z\<rfloor> div 16) \<le> z / 16" "z / 16 < of_int (\<lfloor>z\<rfloor> div 16) + 1" by simp_all
qed

lemma div16_step: "(n :: int) div 16 = (n + 1) div 16 \<longleftrightarrow> (n + 1) mod 16 \<noteq> 0"
proof -
  have n: "n = 16 * (n div 16) + n mod 16" "0 \<le> n mod 16" "n mod 16 < 16" by simp_all
  show ?thesis
  proof (cases "n mod 16 = 15")
    case True
    then have "n + 1 = 16 * (n div 16 + 1)" using n(1) by (simp add: algebra_simps)
    then have "(n + 1) div 16 = n div 16 + 1" "(n + 1) mod 16 = 0"
      using int_div_pos_eq [of "n + 1" 16 "n div 16 + 1" 0] int_mod_pos_eq [of "n + 1" 16 "n div 16 + 1" 0] by simp_all
    then show ?thesis by simp
  next
    case False
    then have m: "0 \<le> n mod 16 + 1" "n mod 16 + 1 < 16" using n by linarith+
    have e: "n + 1 = 16 * (n div 16) + (n mod 16 + 1)" using n by linarith
    have "(n + 1) div 16 = n div 16" "(n + 1) mod 16 = n mod 16 + 1"
      using int_div_pos_eq [OF e m] int_mod_pos_eq [OF e m] by simp_all
    then show ?thesis using n(2) by simp
  qed
qed

lemma covered_column:
  assumes "x * 16 - e \<le> px" "px < x * 16 - e + 16"
  shows "x = (px + e :: int) div 16"
  using assms by linarith

lemma column_drawn:
  fixes px e canv :: int
  assumes "0 \<le> px" "px < canv" "0 \<le> e" "e \<le> 16"
  shows "0 \<le> (px + e) div 16 \<and> (px + e) div 16 \<le> \<lceil>of_int canv / (16 :: rat)\<rceil>"
proof -
  have "\<lceil>of_int canv / (16 :: rat)\<rceil> = - ((- canv) div 16)"
    using floor_divide_of_int_eq [where ?'a = rat, of "- canv" 16] by (simp add: ceiling_def)
  then show ?thesis using assms by linarith
qed

lemma mantice_offset: "0 \<le> \<lceil>mantice c * 16\<rceil> \<and> \<lceil>mantice c * 16\<rceil> \<le> 16"
  using mantice_range [of c] by (auto simp: ceiling_le_iff)

lemma DrawTerrain_iff:
  "d \<in> set (DrawTerrain camera cw ch t w) \<longleftrightarrow>
    (\<exists>x y. 0 \<le> x \<and> x \<le> \<lceil>of_int cw / (16 :: rat)\<rceil> \<and> 0 \<le> y \<and> y \<le> \<lceil>of_int ch / (16 :: rat)\<rceil> \<and>
      d \<in> set (view_SetTile t (x * 16 - \<lceil>mantice (vx camera) * 16\<rceil>) (y * 16 - \<lceil>mantice (vy camera) * 16\<rceil>)
        (unat (GetIDByCoord w (\<lfloor>vx camera\<rfloor> + x) (\<lfloor>vy camera\<rfloor> + y))) (\<lfloor>vx camera\<rfloor> + x, \<lfloor>vy camera\<rfloor> + y)))"
  unfolding DrawTerrain_def view_cells_def Let_def tile_place x_int_def y_int_def
  by (simp add: Bex_def) blast

lemma view_SetTile_draws: "view_SetTile t tx ty tid p \<noteq> []"
  by (auto simp: view_SetTile_def Let_def split: prod.splits)

section \<open>Properties\<close>

text \<open>
  (C15) The canvas shows the map. Every pixel of the canvas is covered by a drawn square, and every drawn
  square over it is cut from a picture of the block at the one cell of the map that belongs to the
  pixel, wholly inside that picture; a cell beyond the edge of the map, where remainders are negative,
  included.
\<close>

theorem terrain_shown:
  assumes "0 \<le> px" "px < canv_w" "0 \<le> py" "py < canv_h"
  shows "(\<exists>d \<in> set (DrawTerrain camera canv_w canv_h t w). covers d px py) \<and>
    (\<forall>d \<in> set (DrawTerrain camera canv_w canv_h t w). covers d px py \<longrightarrow>
      (\<exists>r \<in> set (pictures (unat (GetIDByCoord w (shown_cell (vx camera) px) (shown_cell (vy camera) py)))).
         square_in (src_x d) (src_y d) r))"
proof
  let ?ex = "\<lceil>mantice (vx camera) * 16\<rceil>" and ?ey = "\<lceil>mantice (vy camera) * 16\<rceil>"
  let ?x = "(px + ?ex) div 16" and ?y = "(py + ?ey) div 16"
  let ?id = "unat (GetIDByCoord w (\<lfloor>vx camera\<rfloor> + ?x) (\<lfloor>vy camera\<rfloor> + ?y))"
  have range: "0 \<le> ?x" "?x \<le> \<lceil>of_int canv_w / (16 :: rat)\<rceil>" "0 \<le> ?y" "?y \<le> \<lceil>of_int canv_h / (16 :: rat)\<rceil>"
    using column_drawn [OF assms(1,2)] column_drawn [OF assms(3,4)] mantice_offset by blast+
  obtain d where d: "d \<in> set (view_SetTile t (?x * 16 - ?ex) (?y * 16 - ?ey) ?id (\<lfloor>vx camera\<rfloor> + ?x, \<lfloor>vy camera\<rfloor> + ?y))"
    using view_SetTile_draws by (meson last_in_set)
  have "covers d px py"
    using view_SetTile_inside(2,3) [OF _ d] cell_drawable by (simp add: covers_def) linarith
  then show "\<exists>d \<in> set (DrawTerrain camera canv_w canv_h t w). covers d px py"
    using d range unfolding Bex_def DrawTerrain_iff by blast
  show "\<forall>d \<in> set (DrawTerrain camera canv_w canv_h t w). covers d px py \<longrightarrow>
      (\<exists>r \<in> set (pictures (unat (GetIDByCoord w (shown_cell (vx camera) px) (shown_cell (vy camera) py)))).
         square_in (src_x d) (src_y d) r)"
  proof (intro ballI impI)
    fix d assume "d \<in> set (DrawTerrain camera canv_w canv_h t w)" and cov: "covers d px py"
    then obtain x y where d: "d \<in> set (view_SetTile t (x * 16 - ?ex) (y * 16 - ?ey)
        (unat (GetIDByCoord w (\<lfloor>vx camera\<rfloor> + x) (\<lfloor>vy camera\<rfloor> + y))) (\<lfloor>vx camera\<rfloor> + x, \<lfloor>vy camera\<rfloor> + y))"
      unfolding DrawTerrain_iff by blast
    note inside = view_SetTile_inside [OF _ d]
    have "x = ?x" "y = ?y"
      using cov inside(2,3) cell_drawable covered_column by (simp_all add: covers_def)
    then show "\<exists>r \<in> set (pictures (unat (GetIDByCoord w (shown_cell (vx camera) px) (shown_cell (vy camera) py)))).
         square_in (src_x d) (src_y d) r"
      using inside(1) cell_drawable by (simp add: shown_cell_def)
  qed
qed

theorem terrain_shown_witness:
  "\<exists>d \<in> set (DrawTerrain (Vector2d (5 / 2) (- 1 / 3)) 640 480 0 (WorldMap 4 4)). covers d 639 0"
  using terrain_shown [of 639 640 0 480 "Vector2d (5 / 2) (- 1 / 3)" 0 "WorldMap 4 4"] by simp

text \<open>The cell computed for a pixel of the mouse is the one shown there, except on a seam.\<close>

definition off_seam :: "rat \<Rightarrow> int \<Rightarrow> bool" where
  "off_seam c px \<longleftrightarrow> c * 16 \<in> \<int> \<or> (px + \<lceil>mantice c * 16\<rceil>) mod 16 \<noteq> 0"

lemma mouse_hits_shown_cell: "\<lfloor>of_int px / 16 + c\<rfloor> = shown_cell c px \<longleftrightarrow> off_seam c px"
proof -
  let ?z = "mantice c * 16"
  have c: "c * 16 = of_int (\<lfloor>c\<rfloor> * 16) + ?z" using mantice_range [of c] by (metis distrib_right of_int_mult of_int_numeral)
  have "\<lfloor>of_int px / 16 + c\<rfloor> = \<lfloor>(of_int (px + \<lfloor>c\<rfloor> * 16) + ?z) / 16\<rfloor>"
    using c by (intro arg_cong [where f = floor]) (simp add: field_simps)
  also have "\<dots> = (px + \<lfloor>c\<rfloor> * 16 + \<lfloor>?z\<rfloor>) div 16" unfolding floor_div16 floor_add_int [symmetric] add.commute [of "of_int (px + \<lfloor>c\<rfloor> * 16)"] by (simp only: floor_add_int add.commute)
  also have "\<dots> = \<lfloor>c\<rfloor> + (px + \<lfloor>?z\<rfloor>) div 16" by linarith
  finally have mouse: "\<lfloor>of_int px / 16 + c\<rfloor> = \<lfloor>c\<rfloor> + (px + \<lfloor>?z\<rfloor>) div 16" .
  have whole: "c * 16 \<in> \<int> \<longleftrightarrow> ?z = of_int \<lfloor>?z\<rfloor>"
  proof
    assume "c * 16 \<in> \<int>"
    then obtain k where "c * 16 = of_int k" by (rule Ints_cases)
    then have "?z = of_int (k - \<lfloor>c\<rfloor> * 16)" using c by simp
    then show "?z = of_int \<lfloor>?z\<rfloor>" by (metis floor_of_int)
  next
    assume "?z = of_int \<lfloor>?z\<rfloor>"
    then have "c * 16 = of_int (\<lfloor>c\<rfloor> * 16 + \<lfloor>?z\<rfloor>)" using c by simp
    then show "c * 16 \<in> \<int>" by (metis Ints_of_int)
  qed
  show ?thesis
  proof (cases "?z = of_int \<lfloor>?z\<rfloor>")
    case True
    then have "\<lceil>?z\<rceil> = \<lfloor>?z\<rfloor>" by (simp add: ceiling_altdef)
    then show ?thesis using True mouse whole by (simp only: shown_cell_def off_seam_def) blast
  next
    case False
    then have "\<lceil>?z\<rceil> = \<lfloor>?z\<rfloor> + 1" by (simp add: ceiling_altdef)
    then show ?thesis
      using False mouse whole div16_step [of "px + \<lfloor>?z\<rfloor>"] by (simp add: shown_cell_def off_seam_def add.assoc)
  qed
qed

text \<open>
  The left button paints the cell that is shown under the pointer, unless the pointer is on the first
  pixel of a cell while the camera stands between two pixels.
\<close>

theorem mouse_paints_shown_cell:
  assumes "off_seam (vx camera) px" "off_seam (vy camera) py" "b \<noteq> 0"
  shows "MouseSetBlock camera (of_int px) (of_int py) (Some b) 0 w =
    SetTileWithCoords w (shown_cell (vx camera) px) (shown_cell (vy camera) py) b 0"
  using assms by (simp add: MouseSetBlock_def mouse_cells_def mouse_hits_shown_cell [THEN iffD2])

theorem mouse_paints_shown_cell_witness:
  "MouseSetBlock (Vector2d (1 / 3) 5) (of_int 40) (of_int 7) (Some 48) 0 (WorldMap 4 4) = SetTileWithCoords (WorldMap 4 4) 2 5 48 0"
proof -
  have third: "\<lfloor>(1 :: rat) / 3\<rfloor> = 0" by (rule floor_unique) simp_all
  have m: "mantice (1 / 3) = 1 / 3" "\<lceil>(16 :: rat) / 3\<rceil> = 6" "mantice 5 = 0"
    by (simp_all add: mantice_def rem1_def js_trunc_def Let_def ceiling_eq_iff third)
  have "off_seam (vx (Vector2d (1 / 3) 5)) 40" "off_seam (vy (Vector2d (1 / 3) 5)) 7"
    by (simp_all add: off_seam_def Vector2d_def m)
  then have "MouseSetBlock (Vector2d (1 / 3) 5) (of_int 40) (of_int 7) (Some 48) 0 (WorldMap 4 4) =
      SetTileWithCoords (WorldMap 4 4) (shown_cell (vx (Vector2d (1 / 3) 5)) 40) (shown_cell (vy (Vector2d (1 / 3) 5)) 7) 48 0"
    by (rule mouse_paints_shown_cell) simp
  then show ?thesis by (simp add: shown_cell_def Vector2d_def m third)
qed

end
