(* ===== verification/Animations.thy ===== *)
theory Animations
  imports Vectors
begin

text \<open>
  The short animations of the canvas: the classes \<open>Anim\<close> and \<open>DropAnim\<close> of \<^verbatim>\<open>scripts/tables/minestileset.js\<close>
  with their pools of finished objects, and the functions of \<^verbatim>\<open>scripts/wrenderer.js\<close> that play them,
  \<open>DrawFiniteAnims\<close> and \<open>DrawDropsAnim\<close>. Objects live in a store and are named by addresses; a
  \<open>Set\<close> of objects is a list of addresses in insertion order. What is drawn is returned as a list.
\<close>

section \<open>The table of animations\<close>

type_synonym rect = "int \<times> int \<times> int \<times> int"

record animation =
  an_name :: string
  an_size :: "nat \<times> nat"
  an_src :: string
  an_frames :: "rect list"
  an_speed :: rat

definition AnimID_digg :: nat where "AnimID_digg = 0"
definition AnimID_heal :: nat where "AnimID_heal = 1"
definition AnimID_geo :: nat where "AnimID_geo = 2"

definition Animations :: "animation list" where
  "Animations = [
    \<lparr>an_name = ''digg'', an_size = (1, 2), an_src = ''DiggingSpurk.png'', an_frames =
      [(0, 0, 16, 32), (16, 0, 16, 32), (32, 0, 16, 32), (48, 0, 16, 32), (64, 0, 16, 32),
       (0, 32, 16, 32), (16, 32, 16, 32), (32, 32, 16, 32), (48, 32, 16, 32),
       (64, 32, 16, 32), (0, 64, 16, 32), (16, 64, 16, 32), (32, 64, 16, 32),
       (48, 64, 16, 32), (64, 64, 16, 32)],
     an_speed = 20\<rparr>,
    \<lparr>an_name = ''heal'', an_size = (1, 1), an_src = ''RoboHeal.png'', an_frames =
      [(0, 0, 16, 16), (16, 0, 16, 16), (32, 0, 16, 16), (48, 0, 16, 16), (64, 0, 16, 16)],
     an_speed = 15\<rparr>,
    \<lparr>an_name = ''geo'', an_size = (1, 1), an_src = ''GeoEffect.png'', an_frames =
      [(0, 0, 32, 32), (32, 0, 32, 32), (64, 0, 32, 32), (96, 0, 32, 32), (128, 0, 32, 32),
       (160, 0, 32, 32), (192, 0, 32, 32), (224, 0, 32, 32)],
     an_speed = 50\<rparr>]"

section \<open>Animations of a fixed length\<close>

record anim =
  anim_id :: nat
  anim_position :: vector2d
  anim_rotation :: int
  anim_timestamp :: rat
  anim_isFinished :: bool

text \<open>\<open>FinishedAnims\<close> is the static pool of the class, \<open>finiteAnims\<close> the set of the renderer.\<close>

record anim_store =
  anim_objs :: "nat \<Rightarrow> anim"
  anim_fresh :: nat
  FinishedAnims :: "nat list"
  finiteAnims :: "nat list"

definition Anim_Init :: "rat \<Rightarrow> nat \<Rightarrow> vector2d \<Rightarrow> int \<Rightarrow> anim" where
  "Anim_Init t k pos rot =
     \<lparr>anim_id = k, anim_position = pos, anim_rotation = rot, anim_timestamp = t, anim_isFinished = False\<rparr>"

definition Anim_GetExemplar :: "rat \<Rightarrow> nat \<Rightarrow> vector2d \<Rightarrow> int \<Rightarrow> anim_store \<Rightarrow> nat \<times> anim_store" where
  "Anim_GetExemplar t k pos rot s =
     (case FinishedAnims s of
        i # rest \<Rightarrow> (i, s\<lparr>FinishedAnims := rest, anim_objs := (anim_objs s)(i := Anim_Init t k pos rot)\<rparr>)
      | [] \<Rightarrow> (anim_fresh s, s\<lparr>anim_fresh := Suc (anim_fresh s), anim_objs := (anim_objs s)(anim_fresh s := Anim_Init t k pos rot)\<rparr>))"

definition anim_clock :: "rat \<Rightarrow> anim \<Rightarrow> int" where
  "anim_clock t a = \<lfloor>(t - anim_timestamp a) * an_speed (Animations ! anim_id a) / 1000\<rfloor>"

text \<open>The getter \<open>IsEnded\<close> changes the object and the pool.\<close>

definition IsEnded :: "rat \<Rightarrow> nat \<Rightarrow> anim_store \<Rightarrow> bool \<times> anim_store" where
  "IsEnded t i s =
     (let a = anim_objs s i in
      if anim_isFinished a then (True, s)
      else (let over = anim_clock t a \<ge> int (length (an_frames (Animations ! anim_id a)))
            in (over, s\<lparr>FinishedAnims := set_add i (FinishedAnims s),
                         anim_objs := (anim_objs s)(i := a\<lparr>anim_isFinished := over\<rparr>)\<rparr>)))"

definition GetCurrentFrame :: "rat \<Rightarrow> anim \<Rightarrow> rect option option" where
  "GetCurrentFrame t a =
     (if anim_clock t a < int (length (an_frames (Animations ! anim_id a)))
      then Some (ta_get (an_frames (Animations ! anim_id a)) (anim_clock t a)) else None)"

text \<open>What is drawn: the animation, the frame, the place in pixels and the angle.\<close>

type_synonym drawn_frame = "nat \<times> rect option \<times> int \<times> int \<times> int"

definition draw_anim :: "vector2d \<Rightarrow> rat \<Rightarrow> nat \<Rightarrow> drawn_frame list \<times> anim_store \<Rightarrow> drawn_frame list \<times> anim_store" where
  "draw_anim camera t i r =
     (case r of (out, s) \<Rightarrow>
        let a = anim_objs s i; curframe = GetCurrentFrame t a; (ended, s1) = IsEnded t i s in
        case curframe of
          Some fr \<Rightarrow>
            (if \<not> ended
             then (out @ [(anim_id a, fr, \<lfloor>(vx (anim_position a) - vx camera) * 16 + 8\<rfloor>, \<lfloor>(vy (anim_position a) - vy camera) * 16 + 8\<rfloor>,
                     anim_rotation a)], s1)
             else (out, s1\<lparr>finiteAnims := removeAll i (finiteAnims s1)\<rparr>))
        | None \<Rightarrow> (out, s1\<lparr>finiteAnims := removeAll i (finiteAnims s1)\<rparr>))"

definition DrawFiniteAnims :: "vector2d \<Rightarrow> rat \<Rightarrow> anim_store \<Rightarrow> drawn_frame list \<times> anim_store" where
  "DrawFiniteAnims camera t s = foldl (\<lambda>r i. draw_anim camera t i r) ([], s) (finiteAnims s)"

text \<open>The call by which an action of a bot starts an animation.\<close>

definition play_anim :: "rat \<Rightarrow> nat \<Rightarrow> vector2d \<Rightarrow> int \<Rightarrow> anim_store \<Rightarrow> anim_store" where
  "play_anim t k pos rot s =
     (case Anim_GetExemplar t k pos rot s of (i, s1) \<Rightarrow> s1\<lparr>finiteAnims := set_add i (finiteAnims s1)\<rparr>)"

section \<open>Drops\<close>

text \<open>
  \<open>endPos\<close> is the vector of the bot itself, which goes on moving: it is kept as the number of the
  bot. The square root of \<open>Distance\<close> is avoided by comparing squares.
\<close>

record drop_anim =
  drop_position :: vector2d
  drop_text :: string
  firstGoTo :: vector2d
  firstTarget :: bool
  endPos :: nat
  drop_color :: string
  drop_isFinished :: bool

record drop_store =
  drop_objs :: "nat \<Rightarrow> drop_anim"
  drop_fresh :: nat
  FinishedDrops :: "nat list"
  dropAnims :: "nat list"

definition CryColors :: "(string \<times> string) list" where
  "CryColors = [(''b'', ''#66e''), (''c'', ''#0ff''), (''g'', ''#0e0''), (''r'', ''#e00''), (''v'', ''#e0e''), (''w'', ''#fff'')]"

definition Drop_Init :: "rat \<Rightarrow> rat \<Rightarrow> nat \<Rightarrow> string \<Rightarrow> int \<Rightarrow> drop_anim" where
  "Drop_Init x y owner cryType v =
     \<lparr>drop_position = Vector2d x y, drop_text = ''+'' @ show_int v, firstGoTo = Vector2d x (y - 1), firstTarget = True,
      endPos = owner, drop_color = (case map_of CryColors cryType of Some c \<Rightarrow> c | None \<Rightarrow> ''undefined''), drop_isFinished = False\<rparr>"

definition Drop_GetExemplar :: "rat \<Rightarrow> rat \<Rightarrow> nat \<Rightarrow> string \<Rightarrow> int \<Rightarrow> drop_store \<Rightarrow> nat \<times> drop_store" where
  "Drop_GetExemplar x y owner cryType v s =
     (case FinishedDrops s of
        i # rest \<Rightarrow> (i, s\<lparr>FinishedDrops := rest, drop_objs := (drop_objs s)(i := Drop_Init x y owner cryType v)\<rparr>)
      | [] \<Rightarrow> (drop_fresh s, s\<lparr>drop_fresh := Suc (drop_fresh s),
                drop_objs := (drop_objs s)(drop_fresh s := Drop_Init x y owner cryType v)\<rparr>))"

definition distance2 :: "vector2d \<Rightarrow> vector2d \<Rightarrow> rat" where
  "distance2 v u = (vx u - vx v) ^ 2 + (vy u - vy v) ^ 2"

text \<open>\<open>Update\<close> of one drop, given the place of its bot on the screen.\<close>

definition drop_Update :: "vector2d \<Rightarrow> drop_anim \<Rightarrow> drop_anim" where
  "drop_Update goal d =
     (if firstTarget d then
        (let p = Lerp2d (firstGoTo d) (18 / 100) None (5 / 10000) (drop_position d)
         in d\<lparr>drop_position := p, firstTarget := \<not> distance2 p (firstGoTo d) < (1 / 10) ^ 2\<rparr>)
      else
        (let far = distance2 (drop_position d) goal; over = far < (1 / 10) ^ 2 \<or> far > 3 ^ 2
         in d\<lparr>drop_isFinished := drop_isFinished d \<or> over,
              drop_position := Lerp2d goal (66 / 100) None (5 / 10000) (drop_position d)\<rparr>))"

definition drop_finishes :: "vector2d \<Rightarrow> drop_anim \<Rightarrow> bool" where
  "drop_finishes goal d \<longleftrightarrow> \<not> firstTarget d
     \<and> (distance2 (drop_position d) goal < (1 / 10) ^ 2 \<or> distance2 (drop_position d) goal > 3 ^ 2)"

type_synonym drawn_text = "string \<times> string \<times> int \<times> int"

definition draw_drop :: "vector2d \<Rightarrow> (nat \<Rightarrow> vector2d) \<Rightarrow> nat \<Rightarrow> drawn_text list \<times> drop_store \<Rightarrow> drawn_text list \<times> drop_store" where
  "draw_drop camera vis i r =
     (case r of (out, s) \<Rightarrow>
        let d = drop_objs s i; goal = vis (endPos d) in
        if \<not> drop_isFinished d then
          (out @ [(drop_text d, drop_color d, \<lfloor>(vx (drop_position d) - vx camera) * 16 + 17 / 2\<rfloor>,
              \<lfloor>(vy (drop_position d) - vy camera) * 16 + 17 / 2\<rfloor>)],
           s\<lparr>drop_objs := (drop_objs s)(i := drop_Update goal d),
             FinishedDrops := (if drop_finishes goal d then set_add i (FinishedDrops s) else FinishedDrops s)\<rparr>)
        else (out, s\<lparr>dropAnims := removeAll i (dropAnims s)\<rparr>))"

definition DrawDropsAnim :: "vector2d \<Rightarrow> (nat \<Rightarrow> vector2d) \<Rightarrow> drop_store \<Rightarrow> drawn_text list \<times> drop_store" where
  "DrawDropsAnim camera vis s = foldl (\<lambda>r i. draw_drop camera vis i r) ([], s) (dropAnims s)"

definition play_drop :: "rat \<Rightarrow> rat \<Rightarrow> nat \<Rightarrow> string \<Rightarrow> int \<Rightarrow> drop_store \<Rightarrow> drop_store" where
  "play_drop x y owner cryType v s =
     (case Drop_GetExemplar x y owner cryType v s of (i, s1) \<Rightarrow> s1\<lparr>dropAnims := set_add i (dropAnims s1)\<rparr>)"

definition no_drops :: drop_store where
  "no_drops = \<lparr>drop_objs = (\<lambda>_. Drop_Init 0 0 0 [] 0), drop_fresh = 0, FinishedDrops = [], dropAnims = []\<rparr>"

section \<open>The pool of drops\<close>

text \<open>
  Every object is in the pool or on the screen; those in the pool have finished, those on the
  screen that have finished are in the pool.
\<close>

definition drop_ok :: "drop_store \<Rightarrow> bool" where
  "drop_ok s \<longleftrightarrow> distinct (FinishedDrops s) \<and> distinct (dropAnims s)
     \<and> (\<forall>i \<in> set (FinishedDrops s). drop_isFinished (drop_objs s i))
     \<and> (\<forall>i \<in> set (dropAnims s). drop_isFinished (drop_objs s i) \<longrightarrow> i \<in> set (FinishedDrops s))
     \<and> set (FinishedDrops s) \<union> set (dropAnims s) = {..<drop_fresh s}"

inductive drop_step :: "drop_store \<Rightarrow> drop_store \<Rightarrow> bool" where
  drop_starts: "drop_step s (play_drop x y owner cryType v s)"
| drop_frame: "drop_step s (snd (DrawDropsAnim camera vis s))"

inductive_cases drop_stepE: "drop_step s t"

lemma drop_Init_unfinished [simp]: "\<not> drop_isFinished (Drop_Init x y owner c v)"
  by (simp add: Drop_Init_def)

lemma drop_Update_finished: "drop_isFinished (drop_Update goal d) \<longleftrightarrow> drop_isFinished d \<or> drop_finishes goal d"
  by (auto simp: drop_Update_def drop_finishes_def Let_def)

lemma play_drop_ok:
  assumes "drop_ok s"
  shows "drop_ok (play_drop x y owner c v s)"
proof (cases "FinishedDrops s")
  case Nil
  then have "set (dropAnims s) = {..<drop_fresh s}" using assms by (simp add: drop_ok_def)
  then show ?thesis
    using assms Nil by (auto simp: drop_ok_def play_drop_def Drop_GetExemplar_def lessThan_Suc)
next
  case (Cons i rest)
  then have "i \<notin> set rest" "insert i (set rest \<union> set (dropAnims s)) = {..<drop_fresh s}"
    using assms by (auto simp: drop_ok_def)
  then show ?thesis
    using assms Cons by (auto simp: drop_ok_def play_drop_def Drop_GetExemplar_def)
qed

lemma draw_drop_ok:
  assumes "drop_ok s" "i < drop_fresh s"
  shows "drop_ok (snd (draw_drop camera vis i (out, s))) \<and> drop_fresh (snd (draw_drop camera vis i (out, s))) = drop_fresh s"
proof (cases "drop_isFinished (drop_objs s i)")
  case True
  have "i \<in> set (FinishedDrops s) \<union> set (dropAnims s)" using assms by (auto simp: drop_ok_def)
  then have "i \<in> set (FinishedDrops s)" using True assms(1) by (auto simp: drop_ok_def)
  then have "set (FinishedDrops s) \<union> (set (dropAnims s) - {i}) = {..<drop_fresh s}"
    using assms(1) unfolding drop_ok_def by blast
  then show ?thesis
    using True assms(1) by (auto simp: draw_drop_def Let_def drop_ok_def distinct_removeAll)
next
  case False
  then have "i \<notin> set (FinishedDrops s)" using assms(1) by (auto simp: drop_ok_def)
  moreover have "insert i (set (FinishedDrops s) \<union> set (dropAnims s)) = {..<drop_fresh s}"
    using assms unfolding drop_ok_def by blast
  ultimately show ?thesis
    using False assms(1) by (auto simp: draw_drop_def Let_def drop_ok_def drop_Update_finished)
qed

lemma DrawDropsAnim_ok:
  assumes "drop_ok s"
  shows "drop_ok (snd (DrawDropsAnim camera vis s))"
proof -
  let ?P = "\<lambda>r. drop_ok (snd r) \<and> drop_fresh (snd r) = drop_fresh s"
  have "\<forall>i \<in> set (dropAnims s). i < drop_fresh s" using assms by (auto simp: drop_ok_def)
  then have "?P (DrawDropsAnim camera vis s)"
    unfolding DrawDropsAnim_def
    by (intro foldl_invariant [where P = ?P]) (use assms draw_drop_ok in \<open>auto simp: split_paired_all\<close>)
  then show ?thesis by simp
qed

lemma drop_step_ok: "drop_step s t \<Longrightarrow> drop_ok s \<Longrightarrow> drop_ok t"
  by (auto elim!: drop_stepE intro: play_drop_ok DrawDropsAnim_ok)

lemma no_drops_ok: "drop_ok no_drops"
  by (simp add: drop_ok_def no_drops_def)

interpretation drops: event_system "\<lambda>s. s = no_drops" drop_step drop_ok
  by unfold_locales (auto simp: no_drops_ok intro: drop_step_ok)

definition on_screen :: "drop_store \<Rightarrow> nat \<Rightarrow> bool" where
  "on_screen s i \<longleftrightarrow> i \<in> set (dropAnims s) \<and> \<not> drop_isFinished (drop_objs s i)"

text \<open>
  (C35) The pool of drops is sound and complete. Whatever drops are started and whatever frames are drawn,
  the object handed out for a new drop is never one that is still moving on the screen, and a new
  object is created only when every existing one is.
\<close>

theorem drop_pool_safe:
  assumes "drop_step\<^sup>*\<^sup>* no_drops s" "Drop_GetExemplar x y owner cryType v s = (i, s')"
  shows "\<not> on_screen s i \<and> (drop_fresh s' = drop_fresh s \<or> (\<forall>j < drop_fresh s. on_screen s j))"
proof -
  have ok: "drop_ok s" using drops.reachable_inv [OF refl assms(1)] .
  show ?thesis
  proof (cases "FinishedDrops s")
    case Nil
    then have "\<forall>j < drop_fresh s. on_screen s j" using ok by (auto simp: drop_ok_def on_screen_def)
    moreover have "i = drop_fresh s" "drop_fresh s \<notin> set (dropAnims s)"
      using assms(2) Nil ok by (auto simp: Drop_GetExemplar_def drop_ok_def)
    ultimately show ?thesis by (simp add: on_screen_def)
  next
    case (Cons j rest)
    then show ?thesis using assms(2) ok by (auto simp: Drop_GetExemplar_def drop_ok_def on_screen_def)
  qed
qed

theorem drop_pool_safe_witness:
  "drop_fresh (play_drop 1 2 0 ''g'' 5 no_drops) = 1
   \<and> \<not> on_screen (play_drop 1 2 0 ''g'' 5 no_drops) (fst (Drop_GetExemplar 3 4 0 ''b'' 7 (play_drop 1 2 0 ''g'' 5 no_drops)))"
proof
  let ?s = "play_drop 1 2 0 ''g'' 5 no_drops"
  show "drop_fresh ?s = 1" by (simp add: play_drop_def Drop_GetExemplar_def no_drops_def)
  have "drop_step\<^sup>*\<^sup>* no_drops ?s" by (rule r_into_rtranclp) (rule drop_starts)
  then show "\<not> on_screen ?s (fst (Drop_GetExemplar 3 4 0 ''b'' 7 ?s))"
    using drop_pool_safe [of ?s 3 4 0 "''b''" 7 "fst (Drop_GetExemplar 3 4 0 ''b'' 7 ?s)" "snd (Drop_GetExemplar 3 4 0 ''b'' 7 ?s)"]
    by simp
qed

section \<open>Drops end\<close>

lemma Lerp2d_reaches:
  assumes "0 < acc" "0 < amt" "amt < 2"
  shows "\<exists>k. (Lerp2d target amt None acc ^^ k) v = target"
proof -
  obtain k1 where k1: "\<forall>n \<ge> k1. (lerp_coord acc amt (vx target) ^^ n) (vx v) = vx target" using lerp_settles [OF assms] by blast
  obtain k2 where k2: "\<forall>n \<ge> k2. (lerp_coord acc amt (vy target) ^^ n) (vy v) = vy target" using lerp_settles [OF assms] by blast
  have "vx ((Lerp2d target amt None acc ^^ max k1 k2) v) = vx target" "vy ((Lerp2d target amt None acc ^^ max k1 k2) v) = vy target"
    using k1 k2 by (simp_all add: Lerp2d_iterate)
  then have "(Lerp2d target amt None acc ^^ max k1 k2) v = target" by simp
  then show ?thesis by blast
qed

lemma Lerp2d_goal [simp]: "0 \<le> acc \<Longrightarrow> Lerp2d target amt None acc target = target"
  by (simp add: Lerp2d_def)

lemma distance2_same [simp]: "distance2 v v = 0"
  by (simp add: distance2_def)

lemma drop_Update_fields [simp]:
  "firstGoTo (drop_Update goal d) = firstGoTo d" "\<not> firstTarget d \<Longrightarrow> \<not> firstTarget (drop_Update goal d)"
  "firstTarget d \<Longrightarrow> drop_position (drop_Update goal d) = Lerp2d (firstGoTo d) (18 / 100) None (5 / 10000) (drop_position d)"
  "\<not> firstTarget d \<Longrightarrow> drop_position (drop_Update goal d) = Lerp2d goal (66 / 100) None (5 / 10000) (drop_position d)"
  by (simp_all add: drop_Update_def Let_def)

lemma drop_rises: "\<exists>n. \<not> firstTarget ((drop_Update goal ^^ n) d)"
proof (rule ccontr)
  assume "\<nexists>n. \<not> firstTarget ((drop_Update goal ^^ n) d)"
  then have up: "firstTarget ((drop_Update goal ^^ n) d)" for n by simp
  have goto: "firstGoTo ((drop_Update goal ^^ n) d) = firstGoTo d" for n by (induction n) simp_all
  have pos: "drop_position ((drop_Update goal ^^ n) d) = (Lerp2d (firstGoTo d) (18 / 100) None (5 / 10000) ^^ n) (drop_position d)" for n
    by (induction n) (simp_all add: up goto)
  obtain k where "(Lerp2d (firstGoTo d) (18 / 100) None (5 / 10000) ^^ k) (drop_position d) = firstGoTo d"
    using Lerp2d_reaches [of "5 / 10000" "18 / 100"] by auto
  then have "drop_position ((drop_Update goal ^^ k) d) = firstGoTo d" using pos by simp
  then have "\<not> firstTarget (drop_Update goal ((drop_Update goal ^^ k) d))"
    using up [of k] goto [of k] by (subst drop_Update_def) (simp add: Let_def)
  then show False using up [of "Suc k"] by simp
qed

lemma drop_arrives:
  assumes "\<not> firstTarget d"
  shows "\<exists>n. drop_isFinished ((drop_Update goal ^^ n) d)"
proof -
  have down: "\<not> firstTarget ((drop_Update goal ^^ n) d)" for n by (induction n) (simp_all add: assms)
  have pos: "drop_position ((drop_Update goal ^^ n) d) = (Lerp2d goal (66 / 100) None (5 / 10000) ^^ n) (drop_position d)" for n
    by (induction n) (simp_all add: down)
  obtain k where "(Lerp2d goal (66 / 100) None (5 / 10000) ^^ k) (drop_position d) = goal"
    using Lerp2d_reaches [of "5 / 10000" "66 / 100"] by auto
  then have "drop_finishes goal ((drop_Update goal ^^ k) d)" using pos down by (simp add: drop_finishes_def)
  then have "drop_isFinished ((drop_Update goal ^^ Suc k) d)" by (simp add: drop_Update_finished)
  then show ?thesis by blast
qed

text \<open>
  (C37) Every drop ends: if the bot it flies to stands still on the screen, the animation is finished after
  finitely many frames, from any place.
\<close>

theorem drop_ends: "\<exists>n. drop_isFinished ((drop_Update goal ^^ n) d)"
proof -
  obtain m where "\<not> firstTarget ((drop_Update goal ^^ m) d)" using drop_rises by blast
  then obtain n where "drop_isFinished ((drop_Update goal ^^ n) ((drop_Update goal ^^ m) d))" using drop_arrives by blast
  then have "drop_isFinished ((drop_Update goal ^^ (n + m)) d)" by (simp add: funpow_add)
  then show ?thesis by blast
qed

section \<open>The pool of animations\<close>

definition running :: "rat \<Rightarrow> anim_store \<Rightarrow> nat \<Rightarrow> bool" where
  "running t s i \<longleftrightarrow> i \<in> set (finiteAnims s) \<and> \<not> anim_isFinished (anim_objs s i)
     \<and> anim_clock t (anim_objs s i) < int (length (an_frames (Animations ! anim_id (anim_objs s i))))"

lemma draw_anim_running:
  assumes "running t s i"
  shows "snd (draw_anim camera t i (out, s)) =
    s\<lparr>FinishedAnims := set_add i (FinishedAnims s), anim_objs := (anim_objs s)(i := (anim_objs s i)\<lparr>anim_isFinished := False\<rparr>)\<rparr>"
  using assms by (simp add: running_def draw_anim_def IsEnded_def GetCurrentFrame_def Let_def)

lemma draw_anim_over:
  assumes "\<not> running t s i" "i \<in> set (finiteAnims s)"
  shows "finiteAnims (snd (draw_anim camera t i (out, s))) = removeAll i (finiteAnims s)"
  using assms by (auto simp: running_def draw_anim_def IsEnded_def GetCurrentFrame_def Let_def split: option.splits)

text \<open>
  (C36) The pool of the timed animations hands out animations that still run. \<open>IsEnded\<close> adds the object to
  the pool whenever it is asked of an object that has not finished: if the pool is empty and one
  animation runs, then after a frame the next animation that is started gets the very same object, so
  the first one stops and the renderer still plays only one.
\<close>

theorem running_anim_recycled:
  assumes "finiteAnims s = [i]" "FinishedAnims s = []" "running t s i"
  shows "finiteAnims (play_anim t' k pos rot (snd (DrawFiniteAnims camera t s))) = [i]
    \<and> anim_objs (play_anim t' k pos rot (snd (DrawFiniteAnims camera t s))) i = Anim_Init t' k pos rot
    \<and> anim_fresh (play_anim t' k pos rot (snd (DrawFiniteAnims camera t s))) = anim_fresh s"
  using assms draw_anim_running [OF assms(3), of camera "[]"]
  by (simp add: DrawFiniteAnims_def play_anim_def Anim_GetExemplar_def set_add_def)

theorem running_anim_recycled_witness:
  "finiteAnims (play_anim 20 AnimID_heal (Vector2d 7 7) 0 (snd (DrawFiniteAnims (Vector2d 0 0) 10
     (play_anim 0 AnimID_digg (Vector2d 1 1) 90 \<lparr>anim_objs = (\<lambda>_. Anim_Init 0 0 (Vector2d 0 0) 0), anim_fresh = 0,
        FinishedAnims = [], finiteAnims = []\<rparr>)))) = [0]"
  by (rule running_anim_recycled [THEN conjunct1])
    (simp_all add: play_anim_def Anim_GetExemplar_def running_def Anim_Init_def anim_clock_def AnimID_digg_def Animations_def set_add_def)

end
