(* ===== verification/Canvas_Lines.thy ===== *)
theory Canvas_Lines
  imports Vectors
begin

text \<open>
  The lines the renderer draws: \<open>line\<close>, \<open>Rey\<close>, \<open>Rey2\<close> and \<open>Box\<close> of \<^verbatim>\<open>scripts/wrenderer.js\<close>. A stroke is the
  path given to the canvas with its colour. \<open>Rey\<close> remembers its last colour only to skip an assignment
  which it then makes anyway; that field is left out.
\<close>

record stroke =
  st_color :: string
  st_points :: "(rat \<times> rat) list"

definition line :: "vector2d \<Rightarrow> vector2d \<Rightarrow> string \<Rightarrow> stroke" where
  "line v1 v2 color = \<lparr>st_color = color, st_points = [(vx v1, vy v1), (vx v2, vy v2)]\<rparr>"

text \<open>A point of the world on the canvas; blocks have 16 pixels.\<close>

definition canvas_point :: "vector2d \<Rightarrow> rat \<Rightarrow> vector2d \<Rightarrow> rat \<times> rat" where
  "canvas_point camera off v = ((vx v - vx camera) * 16 + off, (vy v - vy camera) * 16 + off)"

definition Rey :: "vector2d \<Rightarrow> vector2d \<Rightarrow> vector2d \<Rightarrow> string \<Rightarrow> stroke" where
  "Rey camera v1 v2 color =
     (let halfBS = 16 / 2 + 1 / 2
      in \<lparr>st_color = color, st_points = [canvas_point camera halfBS v1, canvas_point camera halfBS v2]\<rparr>)"

definition Rey2 :: "vector2d \<Rightarrow> vector2d \<Rightarrow> rat \<Rightarrow> rat \<Rightarrow> string \<Rightarrow> stroke" where
  "Rey2 camera start dx dy color = Rey camera start (Vector2d (vx start + dx) (vy start + dy)) color"

definition Box :: "vector2d \<Rightarrow> vector2d \<Rightarrow> string \<Rightarrow> stroke" where
  "Box camera v color =
     (let (dx1, dy1) = canvas_point camera (1 / 2) v; dx2 = dx1 + 16; dy2 = dy1 + 16
      in \<lparr>st_color = color, st_points = [(dx1, dy1), (dx1, dy2), (dx2, dy2), (dx2, dy1), (dx1, dy1)]\<rparr>)"

text \<open>Strokes that join: each begins where the one before it ends.\<close>

fun joined :: "rat \<times> rat \<Rightarrow> stroke list \<Rightarrow> rat \<times> rat \<Rightarrow> bool" where
  "joined p [] q \<longleftrightarrow> p = q"
| "joined p (s # ss) q \<longleftrightarrow> st_points s \<noteq> [] \<and> hd (st_points s) = p \<and> joined (last (st_points s)) ss q"

text \<open>The rays between successive points; the colours are those of a second list.\<close>

fun polyline :: "vector2d \<Rightarrow> vector2d list \<Rightarrow> string list \<Rightarrow> stroke list" where
  "polyline camera (v # w # vs) (c # cs) = Rey camera v w c # polyline camera (w # vs) cs"
| "polyline camera _ _ = []"

lemma Rey_points [simp]:
  "hd (st_points (Rey camera v w c)) = canvas_point camera (17 / 2) v"
  "last (st_points (Rey camera v w c)) = canvas_point camera (17 / 2) w"
  "st_points (Rey camera v w c) \<noteq> []"
  by (simp_all add: Rey_def Let_def)

lemma polyline_joined:
  "length cs = length vs \<Longrightarrow> joined (canvas_point camera (17 / 2) v) (polyline camera (v # vs) cs)
    (canvas_point camera (17 / 2) (last (v # vs)))"
proof (induction vs arbitrary: v cs)
  case (Cons w vs)
  then show ?case by (cases cs) simp_all
qed simp

lemma length_polyline: "length cs = length vs \<Longrightarrow> length (polyline camera (v # vs) cs) = length vs"
proof (induction vs arbitrary: v cs)
  case (Cons w vs)
  then show ?case by (cases cs) simp_all
qed simp

end
