(* ===== verification/Bot_View.thy ===== *)
theory Bot_View
  imports Controls Animations Canvas_Lines
begin

text \<open>
  How the bots are shown: the class \<open>Tails\<close> of \<^verbatim>\<open>scripts/bot.js\<close> and \<open>DrawBots\<close> of \<^verbatim>\<open>scripts/wrenderer.js\<close>. The
  place and the angle shown follow those of the bot; a bot near the edge of the canvas or inside it is
  drawn: the rays of its tail, two rays for its direction and its name if the options ask for them, its
  picture, and a box around the cell its program looks at. The width of a text is an argument.
\<close>

section \<open>Tails\<close>

record tail_style =
  ts_colors :: "string list"
  ts_links :: nat

text \<open>The last style has five random colours, given as an argument.\<close>

definition TailStyles :: "string list \<Rightarrow> tail_style list" where
  "TailStyles random_colors =
     map (\<lambda>cs. \<lparr>ts_colors = cs, ts_links = 5\<rparr>)
       [[''#ff0d'', ''#f0fd'', ''#0ffd'', ''#fffd''], [''#f0fd'', ''#0ffd'', ''#fffd''], [''#f0f'', ''#ff0'', ''#f0f'', ''#ff0''],
        [''#fffd'', ''#fffd'', ''#fffd'', ''#fffd''], [''#000d'', ''#000d'', ''#000d'', ''#000d''], [''#fffd'', ''#000d'', ''#fffd'', ''#000d''],
        [''#7f0f'', ''#7f0f'', ''#7f0f'', ''#7f0f''], [''#d13f'', ''#d13f'', ''#d13f'', ''#d13f''], [''#fd0f'', ''#fd0f'', ''#fd0f'', ''#fd0f''],
        [''#0fff'', ''#0fff'', ''#0fff'', ''#0fff''], random_colors]"

type_synonym tail = "(string \<times> vector2d list) list"

definition SetTail :: "tail_style \<Rightarrow> vector2d \<Rightarrow> tail" where
  "SetTail style vis = map (\<lambda>c. (c, replicate (ts_links style) vis)) (ts_colors style)"

definition Tails :: "tail_style list \<Rightarrow> nat \<Rightarrow> vector2d \<Rightarrow> tail" where
  "Tails styles k vis = SetTail (styles ! (k mod length styles)) vis"

text \<open>A link is shaken a little and drawn towards the one before it, which has already moved.\<close>

definition tail_link :: "(nat \<Rightarrow> nat \<Rightarrow> rat) \<Rightarrow> nat \<Rightarrow> vector2d \<Rightarrow> vector2d \<Rightarrow> vector2d" where
  "tail_link us i prev p =
     Lerp2d prev (55 / 100) None 0 (Vec_Add p (of_int (RandInt (us i 0) (- 3) 3) / 16) (of_int (RandInt (us i 1) (- 3) 3) / 16))"

fun tail_links :: "(nat \<Rightarrow> nat \<Rightarrow> rat) \<Rightarrow> nat \<Rightarrow> vector2d \<Rightarrow> vector2d list \<Rightarrow> vector2d list" where
  "tail_links us i prev [] = []"
| "tail_links us i prev (p # ps) = (let q = tail_link us i prev p in q # tail_links us (Suc i) q ps)"

text \<open>
  One strand: its first link is put on the bot; if the second is more than five cells away every link
  is copied from the one before it, in order, so that all come to the bot.
\<close>

definition strand_Update :: "(nat \<Rightarrow> nat \<Rightarrow> rat) \<Rightarrow> vector2d \<Rightarrow> vector2d list \<Rightarrow> vector2d list result" where
  "strand_Update us vis pos =
     (case pos of
        a # b # ps \<Rightarrow>
          (let ps = (if distance2 vis b > 5 ^ 2 then replicate (Suc (length ps)) vis else b # ps)
           in Inr (vis # tail_links us 1 vis ps))
      | _ \<Rightarrow> Inl TypeError)"

fun Tails_Update :: "(nat \<Rightarrow> nat \<Rightarrow> nat \<Rightarrow> rat) \<Rightarrow> vector2d \<Rightarrow> tail \<Rightarrow> tail result" where
  "Tails_Update us vis [] = Inr []"
| "Tails_Update us vis ((c, pos) # t) =
     ebind (strand_Update (us 0) vis pos) (\<lambda>pos. ebind (Tails_Update (\<lambda>j. us (Suc j)) vis t) (\<lambda>t. Inr ((c, pos) # t)))"

section \<open>Bots on the screen\<close>

record bot_view =
  vis_position :: vector2d
  vis_rotation :: rat
  isVisible :: bool
  bot_tail :: tail
  bot_skin :: nat

text \<open>The places of the five skins on their sheet.\<close>

definition skins :: "(int \<times> int) list" where
  "skins = [(0, 0), (96, 0), (128, 0), (0, 32), (32, 32)]"

text \<open>What is drawn for one bot, in this order.\<close>

record bot_sprite =
  spr_x :: int
  spr_y :: int
  spr_angle :: rat
  spr_skin :: "int \<times> int"

record bot_picture =
  bp_tail :: "stroke list"
  bp_vectors :: "stroke list"
  bp_sprite :: bot_sprite
  bp_name :: "(string \<times> string \<times> int \<times> int) option"
  bp_box :: "stroke option"

definition in_window :: "int \<times> int \<Rightarrow> rat \<Rightarrow> rat \<Rightarrow> bool" where
  "in_window canv dx dy \<longleftrightarrow> dx > - 4 \<and> dy > - 4 \<and> dx \<le> of_int (fst canv) / 16 + 4 \<and> dy \<le> of_int (snd canv) / 16 + 4"

text \<open>The rays of a tail join every link with the one before it.\<close>

definition tail_rays :: "vector2d \<Rightarrow> tail \<Rightarrow> stroke list" where
  "tail_rays camera t = concat (map (\<lambda>(c, pos). map (\<lambda>(prev, p). Rey camera p prev c) (zip pos (tl pos))) t)"

definition bot_place :: "bot \<Rightarrow> vector2d" where
  "bot_place b = Vector2d (of_int (fst (position b))) (of_int (snd (position b)))"

definition vector_rays :: "vector2d \<Rightarrow> bot \<Rightarrow> vector2d \<Rightarrow> stroke list" where
  "vector_rays camera b vis =
     [Rey camera (bot_place b) vis ''#0f04'',
      Rey2 camera (bot_place b)
        (if rotation b = 90 then 3 / 10 else if rotation b = 270 then - (3 / 10) else 0)
        (if rotation b = 0 then - (3 / 10) else if rotation b = 180 then 3 / 10 else 0) ''#0f36'']"

definition nickid :: "bot \<Rightarrow> string \<Rightarrow> string" where
  "nickid b nick = ''['' @ show_int (int (bot_id b)) @ '']'' @ nick"

definition name_tag :: "(string \<Rightarrow> rat) \<Rightarrow> bot \<Rightarrow> string \<Rightarrow> rat \<Rightarrow> rat \<Rightarrow> string \<times> string \<times> int \<times> int" where
  "name_tag measureText b nick dx dy =
     (let p = programCondition b; nlength = measureText (nickid b nick) in
      (nickid b nick, if isExecute p then if isHandModeActive p then ''#0d2'' else ''#dd4'' else ''#fff'',
       \<lfloor>dx * 16 - nlength / 2 + 8 + 1 / 2\<rfloor>, \<lfloor>dy * 16 - 8 + 1 / 2\<rfloor>))"

definition view_box :: "vector2d \<Rightarrow> bot \<Rightarrow> stroke result" where
  "view_box camera b =
     (let p = programCondition b in
      case ta_get (stack p) (int (stackDepth p)) of
        None \<Rightarrow> Inl TypeError
      | Some f \<Rightarrow>
          Inr (Box camera (Vector2d (of_int (fst (position b) + fst (viewOffset f))) (of_int (snd (position b) + snd (viewOffset f)))) ''#1ffa''))"

definition draw_bot :: "woptions \<Rightarrow> (string \<Rightarrow> rat) \<Rightarrow> (nat \<Rightarrow> nat \<Rightarrow> nat \<Rightarrow> rat) \<Rightarrow> vector2d \<Rightarrow> int \<times> int \<Rightarrow> bot \<Rightarrow> string \<Rightarrow> bot_view \<Rightarrow>
    (bot_picture option \<times> bot_view) result" where
  "draw_bot opts measureText us camera canv b nick v =
     (let v = v\<lparr>isVisible := False, vis_position := Lerp2d (bot_place b) (18 / 100) None (5 / 10000) (vis_position v),
                vis_rotation := Lerp (vis_rotation v) (of_int (rotation b)) (1 / 10)\<rparr>;
          dx = vx (vis_position v) - vx camera; dy = vy (vis_position v) - vy camera
      in if in_window canv dx dy then
           ebind (Tails_Update us (vis_position v) (bot_tail v)) (\<lambda>t.
             case ta_get skins (int (bot_skin v)) of
               None \<Rightarrow> Inl TypeError
             | Some sk \<Rightarrow>
                 ebind (if o_viewBox opts then ebind (view_box camera b) (\<lambda>s. Inr (Some s)) else Inr None) (\<lambda>bx.
                   Inr (Some \<lparr>bp_tail = tail_rays camera t,
                          bp_vectors = (if o_vectors opts then vector_rays camera b (vis_position v) else []),
                          bp_sprite = \<lparr>spr_x = \<lfloor>dx * 16 + 8\<rfloor>, spr_y = \<lfloor>dy * 16 + 8\<rfloor>, spr_angle = vis_rotation v, spr_skin = sk\<rparr>,
                          bp_name = (if o_nicknames opts then Some (name_tag measureText b nick dx dy) else None), bp_box = bx\<rparr>,
                        v\<lparr>isVisible := True, bot_tail := t\<rparr>)))
         else Inr (None, v))"

fun DrawBots :: "woptions \<Rightarrow> (string \<Rightarrow> rat) \<Rightarrow> (nat \<Rightarrow> nat \<Rightarrow> nat \<Rightarrow> nat \<Rightarrow> rat) \<Rightarrow> vector2d \<Rightarrow> int \<times> int \<Rightarrow>
    (bot \<times> string \<times> bot_view) list \<Rightarrow> (bot_picture option \<times> bot_view) list result" where
  "DrawBots opts measureText us camera canv [] = Inr []"
| "DrawBots opts measureText us camera canv ((b, nick, v) # bots) =
     ebind (draw_bot opts measureText (us 0) camera canv b nick v) (\<lambda>r.
       ebind (DrawBots opts measureText (\<lambda>i. us (Suc i)) camera canv bots) (\<lambda>rs. Inr (r # rs)))"

section \<open>Drawing never fails\<close>

definition view_ok :: "bot_view \<Rightarrow> bool" where
  "view_ok v \<longleftrightarrow> (\<forall>(c, pos) \<in> set (bot_tail v). length pos = 5) \<and> bot_skin v < 5"

lemma length_tail_links [simp]: "length (tail_links us i prev ps) = length ps"
  by (induction us i prev ps rule: tail_links.induct) (simp_all add: Let_def)

lemma strand_Update_ok:
  assumes "length pos = 5"
  obtains pos' where "strand_Update us vis pos = Inr pos'" "length pos' = 5" "hd pos' = vis"
proof -
  obtain a b ps where "pos = a # b # ps" using assms by (cases pos; cases "tl pos") auto
  then show thesis using that assms by (simp add: strand_Update_def Let_def)
qed

lemma Tails_Update_ok:
  "\<forall>(c, pos) \<in> set t. length pos = 5 \<Longrightarrow>
    \<exists>t'. Tails_Update us vis t = Inr t' \<and> map fst t' = map fst t \<and> (\<forall>(c, pos) \<in> set t'. length pos = 5 \<and> hd pos = vis)"
proof (induction us vis t rule: Tails_Update.induct)
  case (2 us vis c pos t)
  obtain pos' where p: "strand_Update (us 0) vis pos = Inr pos'" "length pos' = 5" "hd pos' = vis"
    using strand_Update_ok [of pos "us 0" vis] 2(2) by auto
  then obtain t' where "Tails_Update (\<lambda>j. us (Suc j)) vis t = Inr t'" "map fst t' = map fst t"
      "\<forall>(c, pos) \<in> set t'. length pos = 5 \<and> hd pos = vis"
    using 2 by auto
  then show ?case using p by simp
qed simp

text \<open>A bot as it is shown: followed by its tail, drawn exactly when it is near the window.\<close>

definition shown_well :: "vector2d \<Rightarrow> int \<times> int \<Rightarrow> bot_picture option \<times> bot_view \<Rightarrow> bool" where
  "shown_well camera canv r \<longleftrightarrow> view_ok (snd r) \<and> (fst r \<noteq> None \<longleftrightarrow> isVisible (snd r))
     \<and> (isVisible (snd r) \<longleftrightarrow> in_window canv (vx (vis_position (snd r)) - vx camera) (vy (vis_position (snd r)) - vy camera))
     \<and> (isVisible (snd r) \<longrightarrow> (\<forall>(c, pos) \<in> set (bot_tail (snd r)). hd pos = vis_position (snd r)))"

lemma view_box_ok: "frames_ok (programCondition b) \<Longrightarrow> \<exists>s. view_box camera b = Inr s"
  by (simp add: view_box_def Let_def frames_ok_def ta_get_def)

lemma draw_bot_ok:
  assumes "view_ok v" "frames_ok (programCondition b)"
  shows "\<exists>r. draw_bot opts measureText us camera canv b nick v = Inr r \<and> shown_well camera canv r"
proof -
  let ?p = "Lerp2d (bot_place b) (18 / 100) None (5 / 10000) (vis_position v)"
  obtain t where t: "Tails_Update us ?p (bot_tail v) = Inr t" "\<forall>(c, pos) \<in> set t. length pos = 5 \<and> hd pos = ?p"
    using Tails_Update_ok [of "bot_tail v" us ?p] assms(1) by (auto simp: view_ok_def)
  have "bot_skin v < 5" using assms(1) by (simp add: view_ok_def)
  then obtain sk where sk: "ta_get skins (int (bot_skin v)) = Some sk" by (simp add: ta_get_def skins_def)
  obtain s where s: "view_box camera b = Inr s" using view_box_ok [OF assms(2)] by blast
  show ?thesis
    using t sk s assms(1) by (cases "in_window canv (vx ?p - vx camera) (vy ?p - vy camera)")
      (auto simp: draw_bot_def Let_def shown_well_def view_ok_def)
qed

text \<open>
  Drawing the bots never raises if every tail has five links per strand, every skin exists, as the
  constructors make them, and every program has a frame. A bot gets a picture exactly when the place it
  is shown at is at most four cells outside the window.
\<close>

lemma DrawBots_ok:
  assumes "\<forall>(b, nick, v) \<in> set bots. view_ok v \<and> frames_ok (programCondition b)"
  shows "\<exists>rs. DrawBots opts measureText us camera canv bots = Inr rs \<and> length rs = length bots
    \<and> (\<forall>r \<in> set rs. shown_well camera canv r)"
  using assms
proof (induction opts measureText us camera canv bots rule: DrawBots.induct)
  case (2 opts measureText us camera canv b nick v bots)
  obtain r where r: "draw_bot opts measureText (us 0) camera canv b nick v = Inr r" "shown_well camera canv r"
    using draw_bot_ok [of v b opts measureText "us 0" camera canv nick] 2(2) by (auto simp del: split_paired_Ex)
  then obtain rs where "DrawBots opts measureText (\<lambda>i. us (Suc i)) camera canv bots = Inr rs" "length rs = length bots"
      "\<forall>r \<in> set rs. shown_well camera canv r"
    using 2 by auto
  then show ?case using r by simp
qed simp

section \<open>New bots\<close>

text \<open>
  What the constructor sets; the tail is made before the position is copied, at the origin. \<open>k\<close> is the
  style drawn for the tail.
\<close>

definition new_view :: "string list \<Rightarrow> nat \<Rightarrow> nat \<Rightarrow> int \<times> int \<Rightarrow> bot_view" where
  "new_view random_colors k skin pos =
     \<lparr>vis_position = Vector2d (of_int (fst pos)) (of_int (snd pos)), vis_rotation = 0, isVisible = False,
      bot_tail = Tails (TailStyles random_colors) k (Vector2d 0 0), bot_skin = skin\<rparr>"

lemma Tails_links: "(c, pos) \<in> set (Tails (TailStyles cs) k vis) \<Longrightarrow> length pos = 5"
proof -
  assume m: "(c, pos) \<in> set (Tails (TailStyles cs) k vis)"
  have "\<forall>s \<in> set (TailStyles cs). ts_links s = 5" by (simp add: TailStyles_def)
  moreover have "TailStyles cs ! (k mod length (TailStyles cs)) \<in> set (TailStyles cs)"
    by (rule nth_mem) (simp add: TailStyles_def)
  ultimately show ?thesis using m by (auto simp: Tails_def SetTail_def)
qed

lemma new_view_ok: "skin < 5 \<Longrightarrow> view_ok (new_view cs k skin pos)"
  using Tails_links by (fastforce simp: view_ok_def new_view_def)

end
