(* ===== verification/Panels.thy ===== *)
theory Panels
  imports Controls
begin

text \<open>
  The panels of the page: the items of \<^verbatim>\<open>scripts/tables/items.js\<close>, the inventory of
  \<^verbatim>\<open>scripts/userGUI/Inventory.js\<close>, and the windows, tabs, bars and the information panel of
  \<^verbatim>\<open>scripts/userGUI/guiControls.js\<close>. The elements of the page are fields of records: what a place of the
  inventory contains, whether an element is hidden, what text it has. An element has one parent:
  putting it into a place takes it out of the place it was in.
\<close>

section \<open>Items\<close>

definition ItemCodes :: "(string \<times> int) list" where
  "ItemCodes = [
     (''tp'', 0), (''resp'', 1), (''up'', 2), (''market'', 3), (''clan'', 4), (''boom'', 5),
     (''proto'', 6), (''razr'', 7), (''cred'', 8), (''rem'', 9), (''geo_0'', 10), (''geo_c'', 11),
     (''geo_r'', 12), (''geo_v'', 13), (''geo_ba'', 14), (''geo_w'', 15), (''geo_b'', 16),
     (''radar_vul'', 17), (''radar_alive'', 18), (''radar_bobot'', 19), (''tpr'', 20),
     (''constrbot'', 21), (''bg'', 22), (''zz'', 23), (''craft'', 24), (''booms'', 25), (''gun'', 26),
     (''gate'', 27), (''dizz'', 28), (''stock'', 29), (''scaner'', 30), (''scills'', 31),
     (''freeup'', 32), (''mine4'', 33), (''geo_h'', 34), (''poly'', 35), (''nanobot'', 36),
     (''accu'', 37), (''trans'', 38), (''compr'', 39), (''c190'', 40), (''fed'', 41), (''geo_br'', 42),
     (''geo_rr'', 43), (''auto'', 44), (''emi'', 45), (''geo_rain'', 46), (''spot'', 47), (''nc'', 48),
     (''dollar'', 49), (''opp'', 50)]"

text \<open>The loop that inverts the table; the array has 51 places.\<close>

definition ItemNameByCode :: "string option list" where
  "ItemNameByCode = foldl (\<lambda>names (key, code). ta_set names code (Some key)) (replicate 51 None) ItemCodes"

record item_data =
  itemcode :: string
  item_src :: string

definition item_picture :: "int \<Rightarrow> string" where
  "item_picture code = ''graphics/inventory/icons/'' @ show_int code @ ''.png''"

definition ItemData :: "item_data option list" where
  "ItemData = foldl (\<lambda>d (key, code). ta_set d code (Some \<lparr>itemcode = key, item_src = item_picture code\<rparr>)) (replicate 51 None) ItemCodes"

section \<open>The inventory\<close>

text \<open>
  \<open>inv_cells\<close> are the items with a cell of their own, \<open>inv_text\<close> their texts; \<open>places\<close> tells which cell
  each place contains, \<open>place_hidden\<close> whether its style is \<open>none\<close>.
\<close>

record gui_inventory =
  isMinimized :: bool
  size_button :: string
  inv_cells :: "int list"
  inv_text :: "int \<Rightarrow> int"
  places :: "int option list"
  place_hidden :: "bool list"

definition GUIInventory :: gui_inventory where
  "GUIInventory =
     \<lparr>isMinimized = True, size_button = ''<'',
      inv_cells = map int (filter (\<lambda>i. ItemData ! i \<noteq> None) [0..<length ItemData]), inv_text = id,
      places = replicate (10 * ((length ItemData + 9) div 10)) None,
      place_hidden = replicate (10 * ((length ItemData + 9) div 10)) False\<rparr>"

definition SwitchMinimizing :: "gui_inventory \<Rightarrow> gui_inventory" where
  "SwitchMinimizing g =
     (if isMinimized g then g\<lparr>isMinimized := False, size_button := ''>''\<rparr> else g\<lparr>isMinimized := True, size_button := ''<''\<rparr>)"

text \<open>
  \<open>hasChildNodes\<close> is not called in the code, so the branch is always taken. The first child decides;
  a place never contains more than one.
\<close>

definition SetItemInPlace :: "int option \<Rightarrow> nat \<Rightarrow> gui_inventory \<Rightarrow> gui_inventory result" where
  "SetItemInPlace itemID k g =
     (if k \<ge> length (places g) then Inl TypeError
      else case itemID of
        None \<Rightarrow> Inr (g\<lparr>places := (places g)[k := None]\<rparr>)
      | Some i \<Rightarrow>
          (if i \<notin> set (inv_cells g) then Inl TypeError
           else if places g ! k = Some i then Inr g
           else Inr (g\<lparr>places := (map (\<lambda>c. if c = Some i then None else c) (places g))[k := Some i]\<rparr>)))"

text \<open>The body of the loop over the items; the counter is the number of places filled.\<close>

definition show_item :: "int \<times> int \<Rightarrow> nat \<times> gui_inventory \<Rightarrow> (nat \<times> gui_inventory) result" where
  "show_item item r =
     (case r of (k, g) \<Rightarrow>
        if isMinimized g \<and> k > 9 then Inr (k, g)
        else ebind (SetItemInPlace (Some (fst item)) k g) (\<lambda>g.
          Inr (Suc k, g\<lparr>inv_text := (inv_text g)(fst item := snd item), place_hidden := (place_hidden g)[k := False]\<rparr>)))"

fun show_items :: "(int \<times> int) list \<Rightarrow> nat \<times> gui_inventory \<Rightarrow> (nat \<times> gui_inventory) result" where
  "show_items [] r = Inr r"
| "show_items (item # items) r = ebind (show_item item r) (show_items items)"

definition clear_places :: "nat \<Rightarrow> gui_inventory \<Rightarrow> gui_inventory" where
  "clear_places k g =
     g\<lparr>places := take k (places g) @ replicate (length (places g) - k) None,
       place_hidden := take k (place_hidden g) @ replicate (length (place_hidden g) - k) True\<rparr>"

definition Inventory_Update :: "inventory option \<Rightarrow> gui_inventory \<Rightarrow> gui_inventory result" where
  "Inventory_Update items g =
     (case items of
        Some iv \<Rightarrow> ebind (show_items iv (0, g)) (\<lambda>(k, g). Inr (clear_places k g))
      | None \<Rightarrow> Inr (clear_places 0 g))"

section \<open>The inventory shows what the bot has\<close>

definition gui_ok :: "gui_inventory \<Rightarrow> bool" where
  "gui_ok g \<longleftrightarrow> set (inv_cells g) = {0..50} \<and> length (places g) = 60 \<and> length (place_hidden g) = 60
     \<and> size_button g = (if isMinimized g then ''<'' else ''>'')"

lemma length_ItemData: "length ItemData = 51"
  by (simp add: ItemData_def ItemCodes_def)

lemma ItemData_named: "list_all (\<lambda>d. d \<noteq> None) ItemData"
  by code_simp

lemma ItemData_full: "i < 51 \<Longrightarrow> ItemData ! i \<noteq> None"
  using ItemData_named by (simp add: list_all_length length_ItemData)

lemma GUIInventory_ok: "gui_ok GUIInventory"
proof -
  have "filter (\<lambda>i. ItemData ! i \<noteq> None) [0..<51] = [0..<51]" using ItemData_full by (simp add: filter_id_conv)
  then have "set (inv_cells GUIInventory) = int ` {0..<51}" by (simp add: GUIInventory_def length_ItemData)
  also have "\<dots> = {0..50}" by (auto simp: image_int_atLeastLessThan)
  finally show ?thesis by (simp add: gui_ok_def GUIInventory_def length_ItemData)
qed

lemma SwitchMinimizing_ok: "gui_ok g \<Longrightarrow> gui_ok (SwitchMinimizing g)"
  by (simp add: gui_ok_def SwitchMinimizing_def)

text \<open>What has been shown after the first items: the places in order, the texts, nothing hidden.\<close>

definition displayed :: "(int \<times> int) list \<Rightarrow> gui_inventory \<Rightarrow> bool" where
  "displayed items g \<longleftrightarrow> (\<forall>j < length items. places g ! j = Some (fst (items ! j)) \<and> \<not> place_hidden g ! j
     \<and> inv_text g (fst (items ! j)) = snd (items ! j))"

lemma SetItemInPlace_keeps:
  assumes "gui_ok g" "k < 60" "i \<in> {0..50}" "\<forall>j < k. places g ! j \<noteq> Some i"
  shows "\<exists>g'. SetItemInPlace (Some i) k g = Inr g' \<and> gui_ok g' \<and> places g' ! k = Some i
    \<and> (\<forall>j < k. places g' ! j = places g ! j) \<and> place_hidden g' = place_hidden g \<and> inv_text g' = inv_text g
    \<and> isMinimized g' = isMinimized g"
  using assms by (auto simp: SetItemInPlace_def gui_ok_def nth_list_update)

lemma show_item_adds:
  assumes "gui_ok g" "displayed items g" "length items < 60" "\<not> (isMinimized g \<and> length items > 9)"
    and "fst item \<in> {0..50}" "fst item \<notin> fst ` set items"
  shows "\<exists>g'. show_item item (length items, g) = Inr (Suc (length items), g') \<and> gui_ok g' \<and> displayed (items @ [item]) g'
    \<and> isMinimized g' = isMinimized g"
proof -
  have "\<forall>j < length items. places g ! j \<noteq> Some (fst item)"
    using assms(2,6) by (auto simp: displayed_def) (metis image_eqI nth_mem)
  then obtain g1 where g1: "SetItemInPlace (Some (fst item)) (length items) g = Inr g1" "gui_ok g1"
      "places g1 ! length items = Some (fst item)" "\<forall>j < length items. places g1 ! j = places g ! j"
      "place_hidden g1 = place_hidden g" "inv_text g1 = inv_text g" "isMinimized g1 = isMinimized g"
    using SetItemInPlace_keeps [OF assms(1,3,5)] by blast
  let ?g = "g1\<lparr>inv_text := (inv_text g1)(fst item := snd item), place_hidden := (place_hidden g1)[length items := False]\<rparr>"
  have "fst (items ! j) \<noteq> fst item" if "j < length items" for j using assms(6) that by (metis image_eqI nth_mem)
  then have "displayed (items @ [item]) ?g"
    using assms(1-3) g1 by (auto simp: displayed_def nth_append less_Suc_eq nth_list_update gui_ok_def)
  moreover have "gui_ok ?g" using g1(2) by (simp add: gui_ok_def)
  ultimately show ?thesis using g1 assms(4) by (intro exI [of _ ?g]) (auto simp: show_item_def)
qed

lemma show_items_full:
  "isMinimized g \<Longrightarrow> 9 < k \<Longrightarrow> show_items items (k, g) = Inr (k, g)"
  by (induction items) (simp_all add: show_item_def)

definition room :: "gui_inventory \<Rightarrow> nat" where
  "room g = (if isMinimized g then 10 else 60)"

lemma show_items_displays:
  assumes "gui_ok g" "displayed items g" "length items \<le> room g"
    and "fst ` set rest \<subseteq> {0..50}" "distinct (map fst (items @ rest))" "length (items @ rest) \<le> 60"
  shows "\<exists>g'. show_items rest (length items, g) = Inr (min (room g) (length (items @ rest)), g') \<and> gui_ok g'
    \<and> displayed (take (room g) (items @ rest)) g' \<and> isMinimized g' = isMinimized g"
  using assms
proof (induction rest arbitrary: items g)
  case Nil
  then show ?case by (simp add: min_def)
next
  case (Cons item rest)
  show ?case
  proof (cases "isMinimized g \<and> length items > 9")
    case True
    then have "length items = 10" "room g = 10" using Cons.prems(3) by (simp_all add: room_def)
    then show ?thesis using True Cons.prems(1,2) by (simp add: show_items_full show_item_def)
  next
    case False
    have new: "fst item \<in> {0..50}" "fst item \<notin> fst ` set items" "length items < 60" using Cons.prems(4-6) by auto
    obtain g1 where g1: "show_item item (length items, g) = Inr (Suc (length items), g1)" "gui_ok g1"
        "displayed (items @ [item]) g1" "isMinimized g1 = isMinimized g"
      using show_item_adds [OF Cons.prems(1,2) new(3) False new(1,2)] by blast
    have "room g1 = room g" using g1(4) by (simp add: room_def)
    moreover have "length (items @ [item]) \<le> room g1" using False new(3) g1(4) by (auto simp: room_def)
    ultimately show ?thesis using Cons.IH [OF g1(2,3)] Cons.prems(4-6) g1(1,4) by auto
  qed
qed

lemma Inventory_Update_shows:
  assumes "gui_ok g" "items_ok iv"
  shows "\<exists>g'. Inventory_Update (Some iv) g = Inr g' \<and> gui_ok g' \<and> displayed (take (room g) iv) g'
    \<and> (\<forall>j. min (room g) (length iv) \<le> j \<longrightarrow> j < 60 \<longrightarrow> places g' ! j = None \<and> place_hidden g' ! j)"
proof -
  have iv: "distinct (map fst iv)" "fst ` set iv \<subseteq> {0..50}" using assms(2) by (simp_all add: items_ok_def)
  have "length iv = card (fst ` set iv)" using iv(1) distinct_card by fastforce
  also have "\<dots> \<le> card {0..50 :: int}" using iv(2) by (intro card_mono) simp_all
  finally have len: "length iv \<le> 60" by simp
  obtain g1 where g1: "show_items iv (0, g) = Inr (min (room g) (length iv), g1)" "gui_ok g1" "displayed (take (room g) iv) g1"
    using show_items_displays [of g "[]" iv] assms(1) iv len by (auto simp: displayed_def)
  let ?k = "min (room g) (length iv)"
  have "?k \<le> 60" using len by simp
  then show ?thesis
    using g1 by (intro exI [of _ "clear_places ?k g1"])
      (auto simp: Inventory_Update_def clear_places_def gui_ok_def displayed_def nth_append)
qed

text \<open>
  (C14) The inventory panel shows the inventory. For an inventory with at most one entry per item and known
  items only, an update of the panel does not raise; its places contain, in order and each once, the
  cells of the first ten items when it is minimized and of all items otherwise, with their counts, and
  every other place is empty and hidden.
\<close>

theorem inventory_displayed:
  assumes "gui_ok g" "distinct (map fst iv)" "fst ` set iv \<subseteq> {0..50}"
  shows "\<exists>g'. Inventory_Update (Some iv) g = Inr g' \<and> gui_ok g' \<and> displayed (take (room g) iv) g'
    \<and> (\<forall>j. min (room g) (length iv) \<le> j \<longrightarrow> j < 60 \<longrightarrow> places g' ! j = None \<and> place_hidden g' ! j)"
  using assms by (intro Inventory_Update_shows) (simp_all add: items_ok_def)

theorem inventory_displayed_witness:
  "\<exists>g'. Inventory_Update (Some [(3, 7), (12, 1)]) GUIInventory = Inr g' \<and> places g' ! 1 = Some 12 \<and> places g' ! 2 = None"
proof -
  obtain g' where "Inventory_Update (Some [(3, 7), (12, 1)]) GUIInventory = Inr g'"
      "displayed (take (room GUIInventory) [(3, 7), (12, 1)]) g'"
      "\<forall>j. min (room GUIInventory) (length [(3 :: int, 7 :: int), (12, 1)]) \<le> j \<longrightarrow> j < 60 \<longrightarrow> places g' ! j = None \<and> place_hidden g' ! j"
    using inventory_displayed [OF GUIInventory_ok, of "[(3, 7), (12, 1)]"] by auto
  moreover have "room GUIInventory = 10" by (simp add: room_def GUIInventory_def)
  ultimately show ?thesis by (intro exI [of _ g']) (auto simp: displayed_def)
qed

section \<open>Windows and tabs\<close>

record windows =
  win_programmator :: bool
  win_map :: bool
  map_hidden :: bool
  prog_block :: bool
  prog_loaded :: bool

definition windows0 :: windows where
  "windows0 = \<lparr>win_programmator = False, win_map = False, map_hidden = True, prog_block = False, prog_loaded = False\<rparr>"

definition OpenMap :: "windows \<Rightarrow> windows" where
  "OpenMap w = (let w = w\<lparr>map_hidden := \<not> map_hidden w\<rparr> in w\<lparr>win_map := \<not> map_hidden w\<rparr>)"

definition OpenProgrammator :: "windows \<Rightarrow> windows" where
  "OpenProgrammator w =
     (let w = w\<lparr>prog_loaded := True, prog_block := \<not> prog_block w\<rparr> in w\<lparr>win_programmator := prog_block w\<rparr>)"

text \<open>A message is posted to the editor only while its window is open.\<close>

definition SendBotProgramStatus :: "'d \<Rightarrow> windows \<Rightarrow> 'd option" where
  "SendBotProgramStatus data w = (if win_programmator w then Some data else None)"

text \<open>
  \<open>GetState\<close> of a program, for the editor: the frame is absent if there is none at the depth, the last two
  variables are kept as values. The timer of the programs reports it for the current bot.
\<close>

record program_status =
  st_handMode :: bool
  st_nowExecute :: bool
  st_prevIndex :: int
  st_index :: int
  st_stack :: "ProgramStack option"
  st_stackDepth :: nat
  st_botPosition :: "int \<times> int"
  st_mode_flip :: bool
  st_lastVariables :: "operand option \<times> operand option"
  st_uservariables :: "operand \<Rightarrow> jsval option"
  st_startIndex :: int
  st_Timer :: int

definition GetState :: "rat \<Rightarrow> bot \<Rightarrow> program_status" where
  "GetState t b =
     (let p = programCondition b in
      \<lparr>st_handMode = isHandModeActive p, st_nowExecute = isExecute p, st_prevIndex = prevIndex p, st_index = currIndex p,
       st_stack = ta_get (stack p) (int (stackDepth p)), st_stackDepth = stackDepth p, st_botPosition = position b,
       st_mode_flip = mode_flip p, st_lastVariables = (Younger (lastVariables p), Older (lastVariables p)),
       st_uservariables = uservariables p, st_startIndex = startIndex p,
       st_Timer = (if isExecute p then tilde2 t - timeStart p else 0)\<rparr>)"

definition report_program :: "rat \<Rightarrow> windows \<Rightarrow> sandbox \<Rightarrow> program_status option" where
  "report_program t w s =
     (case sb_current s of
        Some k \<Rightarrow> SendBotProgramStatus (GetState t (g_bots (sb_game s) ! k)) w
      | None \<Rightarrow> None)"

text \<open>A report is sent exactly while there is a current bot and the editor is open, and names a live frame.\<close>

lemma report_program_sent:
  assumes "sandbox_ok s"
  shows "(report_program t w s \<noteq> None \<longleftrightarrow> sb_current s \<noteq> None \<and> win_programmator w)
    \<and> (\<forall>r. report_program t w s = Some r \<longrightarrow> st_stack r \<noteq> None)"
proof (cases "sb_current s")
  case (Some k)
  have "world_ok (sb_game s)" "k < length (g_bots (sb_game s))" using assms Some by (auto simp: sandbox_ok_def)
  then have "fine (bot_ctx (sb_game s) k)" by (auto simp: world_ok_def intro: game_ok_bot)
  then have "frames_ok (programCondition (g_bots (sb_game s) ! k))"
    by (auto simp: fine_def cond_ok_def blank_prog_def bot_ctx_def)
  then show ?thesis
    using Some by (simp add: report_program_def SendBotProgramStatus_def GetState_def Let_def frames_ok_def ta_get_def)
qed (simp add: report_program_def)

definition windows_ok :: "windows \<Rightarrow> bool" where
  "windows_ok w \<longleftrightarrow> win_map w = (\<not> map_hidden w) \<and> win_programmator w = prog_block w \<and> (prog_block w \<longrightarrow> prog_loaded w)"

lemma windows_kept: "windows_ok windows0" "windows_ok w \<Longrightarrow> windows_ok (OpenMap w)" "windows_ok w \<Longrightarrow> windows_ok (OpenProgrammator w)"
  by (simp_all add: windows_ok_def windows0_def OpenMap_def OpenProgrammator_def Let_def)

text \<open>
  A tab panel: the identifiers of its tabs with their \<open>hidden\<close> attributes, and the classes of its
  switches. The loop runs over the tabs and reads the switch with the same number.
\<close>

fun TabSwitch :: "string \<Rightarrow> (string \<times> bool) list \<Rightarrow> string list \<Rightarrow> ((string \<times> bool) list \<times> string list) result" where
  "TabSwitch tabId [] switches = Inr ([], switches)"
| "TabSwitch tabId (tab # tabs) [] = Inl TypeError"
| "TabSwitch tabId ((i, hid) # tabs) (sw # switches) =
     ebind (TabSwitch tabId tabs switches) (\<lambda>(tabs, switches).
       Inr ((i, i \<noteq> tabId) # tabs, (if i = tabId then ''switch active'' else ''switch'') # switches))"

lemma TabSwitch_shows:
  assumes "length tabs \<le> length switches"
  shows "TabSwitch tabId tabs switches = Inr (map (\<lambda>(i, _). (i, i \<noteq> tabId)) tabs,
    map (\<lambda>(i, _). if i = tabId then ''switch active'' else ''switch'') tabs @ drop (length tabs) switches)"
  using assms by (induction tabId tabs switches rule: TabSwitch.induct) auto

section \<open>The status lamps\<close>

text \<open>Each lamp of the status panel is hidden unless the mode of the bot is on.\<close>

definition BotstatusPanel_SetValues :: "BotMode \<Rightarrow> (string \<times> bool) list" where
  "BotstatusPanel_SetValues m =
     [(''autodigg'', \<not> autodigg m), (''roadignore'', \<not> roadignore m), (''agr'', \<not> agr m), (''debug'', \<not> debug m),
      (''hand'', \<not> hand m), (''accuaccelerate'', accuaccelerate m = 0), (''overweight'', \<not> overweight m)]"

section \<open>Progress bars\<close>

text \<open>
  \<open>bar_cut\<close> is \<open>persentsCut\<close>, \<open>bar_kkk\<close> tells whether the label is abbreviated. The width of the line is
  a number of per cent.
\<close>

record progress_bar =
  bar_value :: rat
  bar_width :: rat
  bar_persent :: string
  bar_label :: string
  bar_title :: string
  bar_cut :: bool
  bar_kkk :: bool

definition persent_text :: "bool \<Rightarrow> rat \<Rightarrow> string" where
  "persent_text short v = (if short then toKKKformat (tilde2 v) 1000 else show_int (tilde2 v)) @ ''%''"

definition CastomProgressBar :: "int \<Rightarrow> bool \<Rightarrow> bool \<Rightarrow> progress_bar" where
  "CastomProgressBar v short kkk =
     \<lparr>bar_value = of_int v, bar_width = (if v > 100 then 100 else of_int v), bar_persent = show_int v @ ''%'',
      bar_label = show_int v, bar_title = [], bar_cut = short, bar_kkk = kkk\<rparr>"

definition set_bar_value :: "rat \<Rightarrow> progress_bar \<Rightarrow> progress_bar" where
  "set_bar_value v b =
     (if v \<noteq> bar_value b
      then b\<lparr>bar_value := v, bar_width := (if v > 100 then 100 else v), bar_persent := persent_text (bar_cut b) v\<rparr>
      else b)"

definition label_text :: "bool \<Rightarrow> int \<Rightarrow> string" where
  "label_text kkk v = (if kkk then toKKKformat v 100000 else show_int v)"

definition set_bar_label :: "int \<Rightarrow> progress_bar \<Rightarrow> progress_bar" where
  "set_bar_label v b =
     (if bar_label b \<noteq> show_int v
      then b\<lparr>bar_label := label_text (bar_kkk b) v, bar_title := (if bar_kkk b then show_int v else [])\<rparr>
      else b)"

section \<open>The information panel\<close>

record info_panel =
  info_nick :: string
  info_coords :: string
  info_prev :: "int \<times> int"
  bar_hp :: progress_bar
  bar_all :: progress_bar
  bar_cry :: "cry \<Rightarrow> progress_bar"

definition coords_text :: "int \<times> int \<Rightarrow> string" where
  "coords_text p = ''X:'' @ show_int (fst p) @ '' Y:'' @ show_int (snd p)"

definition set_coords :: "int \<times> int \<Rightarrow> info_panel \<Rightarrow> info_panel" where
  "set_coords p i = (if info_prev i \<noteq> p then i\<lparr>info_coords := coords_text p, info_prev := p\<rparr> else i)"

text \<open>\<open>Update\<close> of the panel for the current bot, if there is one; its nickname is an argument.\<close>

definition InfoPanel_Update :: "(string \<times> bot) option \<Rightarrow> info_panel \<Rightarrow> info_panel" where
  "InfoPanel_Update cur i =
     (case cur of
        None \<Rightarrow> i
      | Some (nick, b) \<Rightarrow>
          (let i = set_coords (position b) (i\<lparr>info_nick := nick\<rparr>); st = stats b
           in i\<lparr>bar_hp := set_bar_value (of_int (hpNow st) / of_int (hpMax st) * 100) (set_bar_label (hpNow st) (bar_hp i)),
                bar_all := set_bar_value (GetVolume_max st (cargo b) * 100) (bar_all i),
                bar_cry := (\<lambda>k. set_bar_value (GetVolume st (cargo b) k * 100)
                   (set_bar_label (int (unat (get_cry (cargo b) k))) (bar_cry i k)))\<rparr>))"

text \<open>The constructor; the first two texts are whatever the page has, the third is the caption of the common bar.\<close>

definition BotBasicInfoPanel :: "string \<Rightarrow> string \<Rightarrow> string \<Rightarrow> info_panel" where
  "BotBasicInfoPanel nick coords caption =
     \<lparr>info_nick = nick, info_coords = coords, info_prev = (0, 0), bar_hp = CastomProgressBar 15 False False,
      bar_all = (CastomProgressBar 0 True False)\<lparr>bar_label := caption\<rparr>,
      bar_cry = (\<lambda>k. CastomProgressBar (case k of CryW \<Rightarrow> 25 | CryC \<Rightarrow> 66 | _ \<Rightarrow> 15) True True)\<rparr>"

section \<open>The panel shows the bot\<close>

lemma show_int_last_digit: "is_digit (last (show_int v))"
proof -
  have "is_digit (last (show_nat n))" for n using show_nat_digits [of n] by (simp add: list_all_iff)
  then show ?thesis by (simp add: show_int_def)
qed

lemma kkk_loop_T: "r = [] \<and> 10 ^ 9 < n \<or> r \<noteq> [] \<and> last r = CHR ''T'' \<Longrightarrow> snd (kkk_loop n r) \<noteq> [] \<and> last (snd (kkk_loop n r)) = CHR ''T''"
proof (induction n r rule: kkk_loop.induct)
  case (1 n r)
  show ?case
  proof (cases "n > 10 ^ 9")
    case True
    then show ?thesis using 1(1) [OF True] by (subst (1 2) kkk_loop.simps) simp
  next
    case False
    then show ?thesis using 1(2) by (subst (1 2) kkk_loop.simps) auto
  qed
qed

lemma toKKK_suffix:
  assumes "100000 \<le> n"
  shows "last (toKKKformat n 100000) \<in> {CHR ''K'', CHR ''M'', CHR ''B'', CHR ''T'', CHR ''Q''}"
proof (cases "n \<le> 10 ^ 21")
  case True
  then show ?thesis using assms by (auto simp: toKKKformat_def)
next
  case False
  then have "snd (kkk_loop n []) \<noteq> [] \<and> last (snd (kkk_loop n [])) = CHR ''T''" by (intro kkk_loop_T) simp
  then show ?thesis using False assms by (auto simp: toKKKformat_def split: prod.splits)
qed

lemma label_stable: "label_text kkk v0 = show_int v \<Longrightarrow> label_text kkk v = label_text kkk v0"
proof (cases "kkk \<and> 100000 \<le> v0")
  case True
  moreover assume "label_text kkk v0 = show_int v"
  ultimately have "last (show_int v) \<in> {CHR ''K'', CHR ''M'', CHR ''B'', CHR ''T'', CHR ''Q''}"
    using toKKK_suffix [of v0] by (simp add: label_text_def)
  then show ?thesis using show_int_last_digit [of v] by (auto simp: is_digit_def)
next
  case False
  moreover assume "label_text kkk v0 = show_int v"
  ultimately have "show_int v0 = show_int v" by (auto simp: label_text_def toKKKformat_def split: if_splits)
  then have "v0 = v" by (rule show_int_inj)
  then show ?thesis by simp
qed

definition bar_ok :: "progress_bar \<Rightarrow> bool" where
  "bar_ok b \<longleftrightarrow> bar_width b = min (bar_value b) 100 \<and> bar_persent b = persent_text (bar_cut b) (bar_value b)
     \<and> (\<forall>v. bar_label b = show_int v \<longrightarrow> label_text (bar_kkk b) v = bar_label b)"

lemma bar_ok_new:
  assumes "0 \<le> v" "v < 1000"
  shows "bar_ok (CastomProgressBar v short kkk)"
proof -
  have "tilde2 (of_int v) = v" using assms by (simp add: tilde2_def to_int32_id)
  moreover have "v' = v \<Longrightarrow> label_text kkk v' = show_int v" for v' using assms by (simp add: label_text_def toKKKformat_def)
  ultimately show ?thesis
    using assms by (auto simp: bar_ok_def CastomProgressBar_def persent_text_def toKKKformat_def dest: show_int_inj)
qed

lemma set_bar_value_shows:
  "bar_ok b \<Longrightarrow> bar_ok (set_bar_value v b) \<and> bar_value (set_bar_value v b) = v \<and> bar_label (set_bar_value v b) = bar_label b
    \<and> bar_kkk (set_bar_value v b) = bar_kkk b \<and> bar_cut (set_bar_value v b) = bar_cut b"
  by (auto simp: bar_ok_def set_bar_value_def min_def)

lemma set_bar_label_shows:
  "bar_ok b \<Longrightarrow> bar_ok (set_bar_label v b) \<and> bar_label (set_bar_label v b) = label_text (bar_kkk b) v
    \<and> bar_value (set_bar_label v b) = bar_value b \<and> bar_kkk (set_bar_label v b) = bar_kkk b \<and> bar_cut (set_bar_label v b) = bar_cut b"
  using label_stable [of "bar_kkk b" v] by (auto simp: bar_ok_def set_bar_label_def)

definition info_ok :: "info_panel \<Rightarrow> bool" where
  "info_ok i \<longleftrightarrow> bar_ok (bar_hp i) \<and> \<not> bar_kkk (bar_hp i) \<and> bar_ok (bar_all i) \<and> (\<forall>k. bar_ok (bar_cry i k) \<and> bar_kkk (bar_cry i k))
     \<and> (info_prev i \<noteq> (0, 0) \<longrightarrow> info_coords i = coords_text (info_prev i))"

lemma info_ok_new: "(\<And>v. caption \<noteq> show_int v) \<Longrightarrow> info_ok (BotBasicInfoPanel nick coords caption)"
  using bar_ok_new [of 15] bar_ok_new [of 25] bar_ok_new [of 66] bar_ok_new [of 0 True False]
  by (auto simp: info_ok_def BotBasicInfoPanel_def bar_ok_def CastomProgressBar_def split: cry.splits)

text \<open>
  (C39) The information panel shows the current bot: after an update, whatever it showed before, the name,
  the coordinates, the health, and for every crystal the count, abbreviated, and the load of the hold are
  those of the bot, the lines of the bars are cut off at 100 per cent; only at the origin of the map may
  the coordinates be stale.
\<close>

theorem info_panel_shows:
  assumes "info_ok i"
  shows "info_ok (InfoPanel_Update (Some (nick, b)) i)
    \<and> info_nick (InfoPanel_Update (Some (nick, b)) i) = nick
    \<and> (position b = (0, 0) \<or> info_coords (InfoPanel_Update (Some (nick, b)) i) = coords_text (position b))
    \<and> bar_label (bar_hp (InfoPanel_Update (Some (nick, b)) i)) = show_int (hpNow (stats b))
    \<and> bar_width (bar_hp (InfoPanel_Update (Some (nick, b)) i)) = min (of_int (hpNow (stats b)) / of_int (hpMax (stats b)) * 100) 100
    \<and> bar_width (bar_all (InfoPanel_Update (Some (nick, b)) i)) = min (GetVolume_max (stats b) (cargo b) * 100) 100
    \<and> (\<forall>k. bar_label (bar_cry (InfoPanel_Update (Some (nick, b)) i) k) = toKKKformat (int (unat (get_cry (cargo b) k))) 100000
        \<and> bar_width (bar_cry (InfoPanel_Update (Some (nick, b)) i) k) = min (GetVolume (stats b) (cargo b) k * 100) 100)"
proof -
  have hp: "bar_ok (bar_hp i)" "\<not> bar_kkk (bar_hp i)" and all: "bar_ok (bar_all i)"
    and cry: "bar_ok (bar_cry i k)" "bar_kkk (bar_cry i k)" for k
    using assms by (simp_all add: info_ok_def)
  have width: "bar_ok b \<Longrightarrow> bar_width b = min (bar_value b) 100" for b by (simp add: bar_ok_def)
  have coords: "info_prev i = position b \<Longrightarrow> position b = (0, 0) \<or> info_coords i = coords_text (position b)"
    using assms by (auto simp: info_ok_def)
  note shows_hp = set_bar_label_shows [OF hp(1), of "hpNow (stats b)"]
  note shows_cry = set_bar_label_shows [OF cry(1), of "int (unat (get_cry (cargo b) k))" k for k]
  show ?thesis
    using assms hp(2) cry(2) shows_hp shows_cry set_bar_value_shows [OF all]
      set_bar_value_shows [OF shows_hp [THEN conjunct1]] set_bar_value_shows [OF shows_cry [THEN conjunct1]]
    by (simp add: InfoPanel_Update_def Let_def set_coords_def info_ok_def label_text_def width) (use coords in blast)
qed

theorem info_panel_shows_witness:
  "info_coords (InfoPanel_Update (Some (''bot'', new_Bot 1 0 0 (\<lambda>_. 0) (3, 4))) (BotBasicInfoPanel ''?'' ''?'' ''all:'')) = ''X:3 Y:4''"
proof -
  have "''all:'' \<noteq> show_int v" for v
  proof
    assume "''all:'' = show_int v"
    then have "last (show_int v) = CHR '':''" by (metis last.simps list.distinct(1))
    then show False using show_int_last_digit [of v] by (simp add: is_digit_def)
  qed
  then have ok: "info_ok (BotBasicInfoPanel ''?'' ''?'' ''all:'')" by (rule info_ok_new)
  have "coords_text (3, 4) = ''X:3 Y:4''" by code_simp
  then show ?thesis using info_panel_shows [OF ok, of "''bot''" "new_Bot 1 0 0 (\<lambda>_. 0) (3, 4)"] by (simp add: new_Bot_def)
qed

end
