(* ===== verification/Frames.thy ===== *)
theory Frames
  imports Sandbox Terrain_View Bot_View Panels
begin

text \<open>
  A frame of the page as a whole: \<open>Update\<close>, \<open>BotInfo\<close> and \<open>StartRenderCycle\<close> of \<^verbatim>\<open>scripts/wrenderer.js\<close>. The
  state is the one of the sandbox together with what only the screen has: the views of the bots, the
  pools of animations, the panels and the counters of the render cycle. A frame changes the world,
  follows the current bot, draws terrain, bots, animations and drops in this order and then feeds the
  panels. The readings of the clock in one frame are the sequence \<open>clock\<close>; text widths and the formatting
  of fractions are those of the browser, the arguments \<open>measureText\<close> and \<open>toFixed\<close>.
\<close>

section \<open>State\<close>

text \<open>
  Views and names belong to the bots by their place in the list. \<open>scr_time\<close> is the last reading of the
  clock by a frame or by the start of an animation; the code has no such field.
\<close>

record screen =
  scr_sandbox :: sandbox
  scr_views :: "nat \<Rightarrow> bot_view"
  scr_nicks :: "nat \<Rightarrow> string"
  scr_anims :: anim_store
  scr_drops :: drop_store
  scr_inventory :: gui_inventory
  scr_info :: info_panel
  scr_lamps :: "(string \<times> bool) list"
  scr_time :: rat
  elapsed :: rat
  elapsedPrev :: rat
  deltatime :: rat
  renderTime :: rat
  frameCount :: nat

abbreviation scr_game :: "screen \<Rightarrow> game" where
  "scr_game s \<equiv> sb_game (scr_sandbox s)"

abbreviation scr_bots :: "screen \<Rightarrow> bot list" where
  "scr_bots s \<equiv> g_bots (scr_game s)"

section \<open>The information on the current bot\<close>

text \<open>The last five blocks of the geology hold, the newest first.\<close>

definition geo_text :: "bot_cargo \<Rightarrow> string" where
  "geo_text c = ''-'' @ concat (map (\<lambda>i. (case ta_get (geo c) i of
     Some b \<Rightarrow> show_int (int (unat b)) | None \<Rightarrow> ''undefined'') @ ''-'') (take 5 (rev [0..geoFilledValue c - 1])))"

record bot_info =
  bi_geo :: string
  bi_cells :: "(byte \<times> byte \<times> int \<times> int) list"
  bi_times :: string

definition bot_info_texts :: "(nat \<Rightarrow> rat \<Rightarrow> string) \<Rightarrow> world_map \<Rightarrow> bot \<Rightarrow> rat \<Rightarrow> rat \<Rightarrow> bot_info" where
  "bot_info_texts toFixed w b dt rt =
     (let c = cargo b; (x, y) = position b in
      \<lparr>bi_geo = ''Geo:['' @ geo_text c @ '']'' @ show_int (geoFilledValue c) @ ''/'' @ show_int (int (length (geo c))),
       bi_cells = concat (map (\<lambda>dy. map (\<lambda>dx. (GetIDByCoord w (x + dx) (y + dy), GetMetaByCoord w (x + dx) (y + dy),
          50 + 20 * dx, 320 + 20 * dy)) [- 1..1]) [- 1..1]),
       bi_times = ''delta'' @ toFixed 0 dt @ '' render:'' @ toFixed 1 rt\<rparr>)"

text \<open>\<open>BotInfo\<close> writes these texts and updates the inventory, the information panel and the lamps by the number of the frame.\<close>

definition BotInfo :: "(nat \<Rightarrow> rat \<Rightarrow> string) \<Rightarrow> screen \<Rightarrow> (bot_info \<times> screen) result" where
  "BotInfo toFixed s =
     (case sb_current (scr_sandbox s) of
        None \<Rightarrow> Inl TypeError
      | Some k \<Rightarrow>
          (let b = scr_bots s ! k; n = frameCount s;
               texts = bot_info_texts toFixed (g_map (scr_game s)) b (deltatime s) (renderTime s)
           in ebind (if n mod 15 = 0 then Inventory_Update (Some (inventory b)) (scr_inventory s) else Inr (scr_inventory s)) (\<lambda>g.
             Inr (texts,
               s\<lparr>scr_inventory := g,
                 scr_info := (if n mod 5 = 3 then InfoPanel_Update (Some (scr_nicks s k, b)) (scr_info s) else scr_info s),
                 scr_lamps := (if n mod 5 = 0 then BotstatusPanel_SetValues (bot_mode b) else scr_lamps s)\<rparr>))))"

section \<open>A frame\<close>

record picture =
  pic_terrain :: "tile_draw list"
  pic_bots :: "bot_picture option list"
  pic_frames :: "drawn_frame list"
  pic_drops :: "drawn_text list"
  pic_info :: "bot_info option"

text \<open>The random draws of a frame and what the browser contributes.\<close>

record frame_env =
  fe_world :: "nat \<Rightarrow> rat"
  fe_tails :: "nat \<Rightarrow> nat \<Rightarrow> nat \<Rightarrow> nat \<Rightarrow> rat"
  fe_clock :: "nat \<Rightarrow> rat"
  fe_canvas :: "int \<times> int"
  measureText :: "string \<Rightarrow> rat"
  toFixed :: "nat \<Rightarrow> rat \<Rightarrow> string"

definition shown_bots :: "screen \<Rightarrow> (bot \<times> string \<times> bot_view) list" where
  "shown_bots s = map (\<lambda>i. (scr_bots s ! i, scr_nicks s i, scr_views s i)) [0..<length (scr_bots s)]"

definition put_views :: "bot_view list \<Rightarrow> screen \<Rightarrow> screen" where
  "put_views vs s = s\<lparr>scr_views := (\<lambda>i. if i < length vs then vs ! i else scr_views s i)\<rparr>"

text \<open>
  The part of \<open>Update\<close> that needs bots. An animation without a frame would raise: \<open>curframe.frame\<close> is
  then \<open>undefined\<close>. A drop flies to the place its bot is shown at.
\<close>

definition draw_actors :: "frame_env \<Rightarrow> screen \<Rightarrow>
    ((bot_picture option list \<times> drawn_frame list \<times> drawn_text list \<times> bot_info) \<times> screen) result" where
  "draw_actors e s =
     (let camera = sb_camera (scr_sandbox s) in
      ebind (DrawBots (sb_options (scr_sandbox s)) (measureText e) (fe_tails e) camera (fe_canvas e) (shown_bots s)) (\<lambda>rs.
        let s = put_views (map snd rs) s;
            (frames, anims) = DrawFiniteAnims camera (fe_clock e 2) (scr_anims s);
            (texts, drops) = DrawDropsAnim camera (\<lambda>i. vis_position (scr_views s i)) (scr_drops s)
        in if \<exists>f \<in> set frames. fst (snd f) = None then Inl TypeError
           else ebind (BotInfo (toFixed e) (s\<lparr>scr_anims := anims, scr_drops := drops\<rparr>)) (\<lambda>(info, s).
             Inr ((map fst rs, frames, texts, info), s))))"

text \<open>
  \<open>Update\<close> of the renderer. If there are bots and the clock has not advanced since the last frame the
  camera is moved by an infinite amount; that case is not modelled (\<open>None\<close>).
\<close>

definition RUpdate :: "frame_env \<Rightarrow> screen \<Rightarrow> (picture \<times> screen) result option" where
  "RUpdate e s =
     (let t = fe_clock e 0;
          s = s\<lparr>elapsedPrev := elapsed s, elapsed := t, deltatime := t - elapsed s, scr_time := t\<rparr>
      in if deltatime s = 0 \<and> scr_bots s \<noteq> [] then None
         else Some
           (ebind (Update (fe_world e) (9 / 10 / deltatime s) (of_int (fst (fe_canvas e))) (of_int (snd (fe_canvas e))) (scr_sandbox s)) (\<lambda>sb.
              let s = s\<lparr>scr_sandbox := sb\<rparr>;
                  terrain = DrawTerrain (sb_camera sb) (fst (fe_canvas e)) (snd (fe_canvas e)) (fe_clock e 1) (g_map (scr_game s))
              in ebind (if scr_bots s \<noteq> []
                    then ebind (draw_actors e s) (\<lambda>((bots, frames, texts, info), s). Inr (bots, frames, texts, Some info, s))
                    else Inr ([], [], [], None, s)) (\<lambda>(bots, frames, texts, info, s).
                Inr (\<lparr>pic_terrain = terrain, pic_bots = bots, pic_frames = frames, pic_drops = texts, pic_info = info\<rparr>,
                     s\<lparr>renderTime := fe_clock e 3 - elapsed s, scr_time := fe_clock e 3\<rparr>)))))"

text \<open>
  \<open>StartRenderCycle\<close>: one frame, then the delay until the next one; \<open>None\<close> is the infinite quotient for
  the option 0.
\<close>

definition StartRenderCycle :: "frame_env \<Rightarrow> screen \<Rightarrow> (picture \<times> rat option \<times> screen) result option" where
  "StartRenderCycle e s =
     Option.bind (RUpdate e s) (\<lambda>r. Some (ebind r (\<lambda>(pic, s).
       let fps = o_fps (sb_options (scr_sandbox s)) in
       Inr (pic, if fps = 0 then None else Some (1000 / fps - renderTime s), s\<lparr>frameCount := Suc (frameCount s)\<rparr>))))"

section \<open>The events of the screen\<close>

text \<open>
  The start: the sandbox, the views the constructors give the bots (the first has skin 2, the skins of
  the others are drawn), empty pools and the panels of the page.
\<close>

definition new_anims :: anim_store where
  "new_anims = \<lparr>anim_objs = (\<lambda>_. Anim_Init 0 0 (Vector2d 0 0) 0), anim_fresh = 0, FinishedAnims = [], finiteAnims = []\<rparr>"

definition start_screen :: "sandbox \<Rightarrow> (nat \<Rightarrow> rat) \<Rightarrow> (nat \<Rightarrow> nat) \<Rightarrow> string list \<Rightarrow> (nat \<Rightarrow> string) \<Rightarrow> info_panel \<Rightarrow>
    (string \<times> bool) list \<Rightarrow> screen" where
  "start_screen sb us tails random_colors nicks info lamps =
     \<lparr>scr_sandbox = sb,
      scr_views = (\<lambda>i. new_view random_colors (tails i) (if i = 0 then 2 else nat (RandInt (us i) 0 4)) (position (g_bots (sb_game sb) ! i))),
      scr_nicks = nicks, scr_anims = new_anims, scr_drops = no_drops, scr_inventory = GUIInventory, scr_info = info,
      scr_lamps = lamps, scr_time = 0, elapsed = 0, elapsedPrev = 0, deltatime = 0, renderTime = 0, frameCount = 0\<rparr>"

inductive screen_start :: "screen \<Rightarrow> bool" where
  "\<lbrakk>sandbox_start sb; \<And>i. unit_draw (us i)\<rbrakk> \<Longrightarrow> screen_start (start_screen sb us tails random_colors nicks info lamps)"

text \<open>New bots come with their views; their skin is 2.\<close>

definition show_new_bots :: "nat \<Rightarrow> (nat \<Rightarrow> nat) \<Rightarrow> string list \<Rightarrow> (nat \<Rightarrow> string) \<Rightarrow> sandbox \<Rightarrow> screen \<Rightarrow> screen" where
  "show_new_bots n tails random_colors nicks sb s =
     s\<lparr>scr_sandbox := sb,
       scr_views := (\<lambda>i. if i < n then scr_views s i else new_view random_colors (tails i) 2 (position (g_bots (sb_game sb) ! i))),
       scr_nicks := (\<lambda>i. if i < n then scr_nicks s i else nicks i)\<rparr>"

text \<open>
  Besides the frames: any event of the page that makes no bots, new bots, the start of a timed animation or
  of a drop by an action of some bot at some time, and the button of the inventory.
\<close>

inductive screen_step :: "screen \<Rightarrow> screen \<Rightarrow> bool" where
  page_event: "\<lbrakk>sandbox_step (scr_sandbox s) sb; length (g_bots (sb_game sb)) = length (scr_bots s)\<rbrakk>
    \<Longrightarrow> screen_step s (s\<lparr>scr_sandbox := sb\<rparr>)"
| new_bots: "\<lbrakk>\<And>i n. unit_draw (items i n); sb = SpawnNewRandomBot n clock speeds items (scr_sandbox s)\<rbrakk>
    \<Longrightarrow> screen_step s (show_new_bots (length (scr_bots s)) tails random_colors nicks sb s)"
| next_frame: "\<lbrakk>scr_time s \<le> fe_clock e 0; mono (fe_clock e); StartRenderCycle e s = Some (Inr (pic, delay, s'))\<rbrakk>
    \<Longrightarrow> screen_step s s'"
| anim_starts: "\<lbrakk>scr_time s \<le> t; k < length Animations\<rbrakk>
    \<Longrightarrow> screen_step s (s\<lparr>scr_anims := play_anim t k pos rot (scr_anims s), scr_time := t\<rparr>)"
| drop_flies: "screen_step s (s\<lparr>scr_drops := play_drop x y owner cryType v (scr_drops s)\<rparr>)"
| minimizing: "screen_step s (s\<lparr>scr_inventory := SwitchMinimizing (scr_inventory s)\<rparr>)"

section \<open>Animations always have a frame\<close>

text \<open>Every animation on the screen has one of the three kinds and started in the past.\<close>

definition anims_ok :: "rat \<Rightarrow> anim_store \<Rightarrow> bool" where
  "anims_ok t s \<longleftrightarrow> (\<forall>i \<in> set (finiteAnims s). anim_timestamp (anim_objs s i) \<le> t \<and> anim_id (anim_objs s i) < length Animations)"

lemma anims_ok_later: "anims_ok t s \<Longrightarrow> t \<le> t' \<Longrightarrow> anims_ok t' s"
  by (auto simp: anims_ok_def)

lemma anims_ok_new [simp]: "anims_ok t new_anims"
  by (simp add: anims_ok_def new_anims_def)

lemma anims_ok_play: "anims_ok t s \<Longrightarrow> k < length Animations \<Longrightarrow> anims_ok t (play_anim t k pos rot s)"
  by (auto simp: anims_ok_def play_anim_def Anim_GetExemplar_def Anim_Init_def split: list.splits)

lemma speeds_positive: "k < length Animations \<Longrightarrow> 0 < an_speed (Animations ! k)"
  by (auto simp: Animations_def less_Suc_eq)

lemma GetCurrentFrame_defined:
  assumes "anim_timestamp a \<le> t" "anim_id a < length Animations"
  shows "GetCurrentFrame t a \<noteq> Some None"
proof -
  have "0 \<le> anim_clock t a" using assms speeds_positive [OF assms(2)] by (simp add: anim_clock_def)
  then show ?thesis by (simp add: GetCurrentFrame_def ta_get_def)
qed

definition frames_drawn :: "rat \<Rightarrow> nat set \<Rightarrow> drawn_frame list \<times> anim_store \<Rightarrow> bool" where
  "frames_drawn t K r \<longleftrightarrow> set (finiteAnims (snd r)) \<subseteq> K \<and> (\<forall>f \<in> set (fst r). fst (snd f) \<noteq> None)
     \<and> (\<forall>i \<in> K. anim_timestamp (anim_objs (snd r) i) \<le> t \<and> anim_id (anim_objs (snd r) i) < length Animations)"

lemma draw_anim_frames:
  assumes "frames_drawn t K r" "i \<in> K"
  shows "frames_drawn t K (draw_anim camera t i r)"
  using assms GetCurrentFrame_defined [of "anim_objs (snd r) i" t]
  by (auto simp: frames_drawn_def draw_anim_def IsEnded_def Let_def split: option.splits prod.splits if_splits)

lemma DrawFiniteAnims_ok:
  assumes "anims_ok t s"
  shows "anims_ok t (snd (DrawFiniteAnims camera t s)) \<and> (\<forall>f \<in> set (fst (DrawFiniteAnims camera t s)). fst (snd f) \<noteq> None)"
proof -
  have "frames_drawn t (set (finiteAnims s)) (DrawFiniteAnims camera t s)"
    unfolding DrawFiniteAnims_def
    by (rule foldl_invariant) (use assms draw_anim_frames in \<open>auto simp: frames_drawn_def anims_ok_def\<close>)
  then show ?thesis by (auto simp: frames_drawn_def anims_ok_def)
qed

section \<open>A frame never fails\<close>

definition screen_ok :: "screen \<Rightarrow> bool" where
  "screen_ok s \<longleftrightarrow> sandbox_ok (scr_sandbox s) \<and> (\<forall>i < length (scr_bots s). view_ok (scr_views s i)) \<and> gui_ok (scr_inventory s)
     \<and> drop_ok (scr_drops s) \<and> anims_ok (scr_time s) (scr_anims s) \<and> elapsed s \<le> scr_time s"

lemma sandbox_ok_bot:
  assumes "sandbox_ok sb" "b \<in> set (g_bots (sb_game sb))"
  shows "frames_ok (programCondition b)" "items_ok (inventory b)"
proof -
  obtain i where i: "b = g_bots (sb_game sb) ! i" "i < length (g_bots (sb_game sb))"
    using assms(2) by (metis in_set_conv_nth)
  have "fine (bot_ctx (sb_game sb) i)"
    using assms(1) i(2) by (auto simp: sandbox_ok_def world_ok_def intro: game_ok_bot)
  then show "frames_ok (programCondition b)"
    using i(1) by (auto simp: fine_def cond_ok_def blank_prog_def bot_ctx_def)
  show "items_ok (inventory b)" using assms by (auto simp: sandbox_ok_def)
qed

lemma BotInfo_ok:
  assumes "sandbox_ok (scr_sandbox s)" "sb_current (scr_sandbox s) = Some k" "gui_ok (scr_inventory s)"
  shows "\<exists>g info lamps. BotInfo fmt s = Inr (bot_info_texts fmt (g_map (scr_game s)) (scr_bots s ! k) (deltatime s) (renderTime s),
      s\<lparr>scr_inventory := g, scr_info := info, scr_lamps := lamps\<rparr>) \<and> gui_ok g"
proof -
  have "k < length (scr_bots s)" using assms(1,2) by (simp add: sandbox_ok_def)
  then have "items_ok (inventory (scr_bots s ! k))" using sandbox_ok_bot(2) [OF assms(1)] by simp
  then obtain g where "Inventory_Update (Some (inventory (scr_bots s ! k))) (scr_inventory s) = Inr g" "gui_ok g"
    using Inventory_Update_shows [OF assms(3)] by blast
  moreover define g' where "g' = (if frameCount s mod 15 = 0 then g else scr_inventory s)"
  ultimately have "BotInfo fmt s = Inr (bot_info_texts fmt (g_map (scr_game s)) (scr_bots s ! k) (deltatime s) (renderTime s),
      s\<lparr>scr_inventory := g',
        scr_info := (if frameCount s mod 5 = 3 then InfoPanel_Update (Some (scr_nicks s k, scr_bots s ! k)) (scr_info s) else scr_info s),
        scr_lamps := (if frameCount s mod 5 = 0 then BotstatusPanel_SetValues (bot_mode (scr_bots s ! k)) else scr_lamps s)\<rparr>)"
    using assms(2) by (simp add: BotInfo_def Let_def)
  moreover have "gui_ok g'" using \<open>gui_ok g\<close> assms(3) by (simp add: g'_def)
  ultimately show ?thesis by blast
qed

lemma DrawBots_shown:
  assumes "screen_ok s"
  shows "\<exists>rs. DrawBots opts mt us camera canv (shown_bots s) = Inr rs \<and> length rs = length (scr_bots s)
    \<and> (\<forall>r \<in> set rs. shown_well camera canv r)"
proof -
  have "\<forall>(b, nick, v) \<in> set (shown_bots s). view_ok v \<and> frames_ok (programCondition b)"
    using assms sandbox_ok_bot(1) by (auto simp: screen_ok_def shown_bots_def)
  from DrawBots_ok [OF this] show ?thesis by (simp add: shown_bots_def)
qed

text \<open>What the part of a frame that needs bots leaves alone and what it shows.\<close>

definition actors_shown :: "frame_env \<Rightarrow> screen \<Rightarrow> bot_picture option list \<Rightarrow> screen \<Rightarrow> bool" where
  "actors_shown e s bots s' \<longleftrightarrow> length bots = length (scr_bots s)
     \<and> (\<forall>i < length bots. shown_well (sb_camera (scr_sandbox s)) (fe_canvas e) (bots ! i, scr_views s' i))"

lemma draw_actors_ok:
  assumes "screen_ok s" "sb_current (scr_sandbox s) = Some k" "scr_time s \<le> fe_clock e 2"
  shows "\<exists>bots frames texts s'. draw_actors e s =
      Inr ((bots, frames, texts, bot_info_texts (toFixed e) (g_map (scr_game s)) (scr_bots s ! k) (deltatime s) (renderTime s)), s')
    \<and> actors_shown e s bots s' \<and> screen_ok (s'\<lparr>scr_time := fe_clock e 2\<rparr>) \<and> scr_sandbox s' = scr_sandbox s
    \<and> elapsed s' = elapsed s \<and> frameCount s' = frameCount s"
proof -
  let ?cam = "sb_camera (scr_sandbox s)"
  obtain rs where rs: "DrawBots (sb_options (scr_sandbox s)) (measureText e) (fe_tails e) ?cam (fe_canvas e) (shown_bots s) = Inr rs"
      "length rs = length (scr_bots s)" "\<forall>r \<in> set rs. shown_well ?cam (fe_canvas e) r"
    using DrawBots_shown [OF assms(1)] by blast
  define s1 where "s1 = put_views (map snd rs) s"
  have s1: "scr_sandbox s1 = scr_sandbox s" "scr_anims s1 = scr_anims s" "scr_drops s1 = scr_drops s" "elapsed s1 = elapsed s"
      "scr_inventory s1 = scr_inventory s" "frameCount s1 = frameCount s" "deltatime s1 = deltatime s" "renderTime s1 = renderTime s"
      "\<And>i. i < length rs \<Longrightarrow> scr_views s1 i = snd (rs ! i)"
    by (simp_all add: s1_def put_views_def)
  obtain frames anims where fr: "DrawFiniteAnims ?cam (fe_clock e 2) (scr_anims s) = (frames, anims)" by fastforce
  obtain texts drops where dr: "DrawDropsAnim ?cam (\<lambda>i. vis_position (scr_views s1 i)) (scr_drops s) = (texts, drops)" by fastforce
  have an: "anims_ok (fe_clock e 2) anims" "\<forall>f \<in> set frames. fst (snd f) \<noteq> None"
    using DrawFiniteAnims_ok [of "fe_clock e 2" "scr_anims s" ?cam] anims_ok_later [of "scr_time s" "scr_anims s" "fe_clock e 2"]
      fr assms(1,3) by (simp_all add: screen_ok_def)
  have dk: "drop_ok drops" using DrawDropsAnim_ok [of "scr_drops s"] dr assms(1) by (metis screen_ok_def snd_conv)
  let ?s = "s1\<lparr>scr_anims := anims, scr_drops := drops\<rparr>"
  let ?info = "bot_info_texts (toFixed e) (g_map (scr_game s)) (scr_bots s ! k) (deltatime s) (renderTime s)"
  obtain g info lamps where bi: "BotInfo (toFixed e) ?s = Inr (?info, ?s\<lparr>scr_inventory := g, scr_info := info, scr_lamps := lamps\<rparr>)"
      "gui_ok g"
    using BotInfo_ok [of ?s k "toFixed e"] assms(1,2) by (auto simp: screen_ok_def s1)
  let ?t = "?s\<lparr>scr_inventory := g, scr_info := info, scr_lamps := lamps\<rparr>"
  have no: "(\<exists>f \<in> set frames. fst (snd f) = None) = False" using an(2) by blast
  have "draw_actors e s = Inr ((map fst rs, frames, texts, ?info), ?t)"
    unfolding draw_actors_def Let_def rs(1) ebind.simps s1_def [symmetric] s1(2,3) fr dr prod.case no if_False bi(1) ..
  moreover have "actors_shown e s (map fst rs) ?t"
    using rs(2,3) by (simp add: actors_shown_def s1)
  moreover have "\<forall>i < length (scr_bots s). view_ok (scr_views s1 i)" using rs(2,3) by (auto simp: shown_well_def s1)
  then have "screen_ok (?t\<lparr>scr_time := fe_clock e 2\<rparr>)"
    using assms(1,3) an(1) dk bi(2) by (simp add: screen_ok_def s1)
  ultimately show ?thesis by (intro exI [of _ "map fst rs"] exI [of _ frames] exI [of _ texts] exI [of _ ?t]) (simp add: s1)
qed

lemma Update_bots:
  assumes "sandbox_ok sb" "Update us amt cw ch sb = Inr sb'"
  shows "length (g_bots (sb_game sb')) = length (g_bots (sb_game sb))"
    and "g_bots (sb_game sb') \<noteq> [] \<Longrightarrow> \<exists>k. sb_current sb' = Some k"
proof -
  let ?g = "(sb_game sb)\<lparr>g_map := sprinkle (\<lambda>n. us (4 + n)) (sprinkle us (g_map (sb_game sb)))\<rparr>"
  let ?look = "\<lambda>i c. Inr (if RandInt (us (8 + i)) 0 10 = 0 then CheckBlockUnder c else c)"
  obtain g where g: "(if \<not> o_ignoreBorders (sb_options sb) then for_bots ?look [0..<length (g_bots ?g)] ?g else Inr ?g) = Inr g"
      "sb' = (if g_bots g \<noteq> [] then GotoCurrentBot amt cw ch (sb\<lparr>sb_game := g\<rparr>) else sb\<lparr>sb_game := g\<rparr>)"
    using assms(2) by (auto simp: Update_def Let_def ebind_eq_Inr)
  have w: "world_ok ?g"
    using assms(1) sandbox_map_ok [OF assms(1)] by (intro world_ok_map) (simp_all add: sandbox_ok_def sprinkle_ok)
  obtain g1 where "for_bots ?look [0..<length (g_bots ?g)] ?g = Inr g1" "same_shape ?g g1"
    using for_bots_ok [OF w, of "[0..<length (g_bots ?g)]" ?look] safe_check_under by auto
  then have "length (g_bots g) = length (g_bots (sb_game sb))"
    using g(1) same_shape_length [of ?g g] by (auto split: if_splits)
  then show "length (g_bots (sb_game sb')) = length (g_bots (sb_game sb))"
    by (auto simp: g(2) GotoCurrentBot_def Let_def split: prod.splits)
  show "g_bots (sb_game sb') \<noteq> [] \<Longrightarrow> \<exists>k. sb_current sb' = Some k"
    by (auto simp: g(2) GotoCurrentBot_def Let_def split: prod.splits if_splits)
qed

text \<open>
  What a frame shows of the state \<open>s'\<close> it leads to: all of the terrain under the new camera, every bot,
  drawn exactly when it is near the window, and the current bot's data if there are bots.
\<close>

definition frame_shows :: "frame_env \<Rightarrow> picture \<Rightarrow> screen \<Rightarrow> bool" where
  "frame_shows e pic s' \<longleftrightarrow>
     pic_terrain pic = DrawTerrain (sb_camera (scr_sandbox s')) (fst (fe_canvas e)) (snd (fe_canvas e)) (fe_clock e 1) (g_map (scr_game s'))
     \<and> length (pic_bots pic) = length (scr_bots s')
     \<and> (\<forall>i < length (scr_bots s'). shown_well (sb_camera (scr_sandbox s')) (fe_canvas e) (pic_bots pic ! i, scr_views s' i))
     \<and> (scr_bots s' \<noteq> [] \<longrightarrow> (\<exists>k < length (scr_bots s'). sb_current (scr_sandbox s') = Some k
         \<and> (\<exists>info. pic_info pic = Some info \<and> bi_geo info = bi_geo (bot_info_texts (toFixed e) (g_map (scr_game s')) (scr_bots s' ! k) 0 0)
             \<and> bi_cells info = bi_cells (bot_info_texts (toFixed e) (g_map (scr_game s')) (scr_bots s' ! k) 0 0))))"

lemma RUpdate_ok:
  assumes ok: "screen_ok s" and time: "scr_time s \<le> fe_clock e 0" "elapsed s < fe_clock e 0 \<or> scr_bots s = []" "mono (fe_clock e)"
  shows "\<exists>pic s'. RUpdate e s = Some (Inr (pic, s')) \<and> screen_ok s' \<and> frame_shows e pic s' \<and> frameCount s' = frameCount s
    \<and> length (scr_bots s') = length (scr_bots s)"
proof -
  let ?t = "fe_clock e 0" and ?cw = "fst (fe_canvas e)" and ?ch = "snd (fe_canvas e)"
  let ?dt = "fe_clock e 0 - elapsed s"
  have cl: "?t \<le> fe_clock e 2" "fe_clock e 2 \<le> fe_clock e 3" "?t \<le> fe_clock e 3" using time(3) by (simp_all add: mono_def)
  define s1 where "s1 = s\<lparr>elapsedPrev := elapsed s, elapsed := ?t, deltatime := ?dt, scr_time := ?t\<rparr>"
  have sb: "sandbox_ok (scr_sandbox s)" using ok by (simp add: screen_ok_def)
  obtain sb' where up: "Update (fe_world e) (9 / 10 / ?dt) (of_int ?cw) (of_int ?ch) (scr_sandbox s) = Inr sb'" "sandbox_ok sb'"
    using Update_ok [OF sb] by blast
  note bots = Update_bots [OF sb up(1)]
  define s2 where "s2 = s1\<lparr>scr_sandbox := sb'\<rparr>"
  have s2: "screen_ok s2" "scr_sandbox s2 = sb'" "scr_time s2 = ?t" "elapsed s2 = ?t" "frameCount s2 = frameCount s"
    using ok up(2) bots(1) anims_ok_later [OF _ time(1)] by (auto simp: s2_def s1_def screen_ok_def)
  have s1: "scr_sandbox s1 = scr_sandbox s" "deltatime s1 = ?dt" "(deltatime s1 = 0 \<and> scr_bots s1 \<noteq> []) = False"
    using time(2) by (auto simp: s1_def)
  let ?terrain = "DrawTerrain (sb_camera sb') ?cw ?ch (fe_clock e 1) (g_map (scr_game s2))"
  have step: "RUpdate e s = Some (ebind (if scr_bots s2 \<noteq> []
      then ebind (draw_actors e s2) (\<lambda>((bots, frames, texts, info), s). Inr (bots, frames, texts, Some info, s))
      else Inr ([], [], [], None, s2)) (\<lambda>(bots, frames, texts, info, s).
        Inr (\<lparr>pic_terrain = ?terrain, pic_bots = bots, pic_frames = frames, pic_drops = texts, pic_info = info\<rparr>,
             s\<lparr>renderTime := fe_clock e 3 - elapsed s, scr_time := fe_clock e 3\<rparr>)))"
    unfolding RUpdate_def Let_def s1_def [symmetric] s1(3) if_False
    unfolding s1(1,2) up(1) ebind.simps s2_def [symmetric] s2(2) ..
  show ?thesis
  proof (cases "scr_bots s2 = []")
    case True
    let ?s' = "s2\<lparr>renderTime := fe_clock e 3 - elapsed s2, scr_time := fe_clock e 3\<rparr>"
    have "screen_ok ?s'" using s2 cl anims_ok_later [OF _ cl(3)] by (auto simp: screen_ok_def)
    then show ?thesis using True step s2 bots(1) by (simp add: frame_shows_def)
  next
    case False
    then obtain k where k: "sb_current sb' = Some k" using bots(2) s2(2) by auto
    then have kl: "k < length (scr_bots s2)" using up(2) s2(2) by (simp add: sandbox_ok_def)
    obtain bs frames texts s3 where d: "draw_actors e s2 = Inr ((bs, frames, texts,
          bot_info_texts (toFixed e) (g_map (scr_game s2)) (scr_bots s2 ! k) (deltatime s2) (renderTime s2)), s3)"
        "actors_shown e s2 bs s3" "screen_ok (s3\<lparr>scr_time := fe_clock e 2\<rparr>)" "scr_sandbox s3 = scr_sandbox s2"
        "elapsed s3 = elapsed s2" "frameCount s3 = frameCount s2"
      using draw_actors_ok [OF s2(1), of k e] k cl(1) s2(2,3) by auto
    let ?s' = "s3\<lparr>renderTime := fe_clock e 3 - elapsed s3, scr_time := fe_clock e 3\<rparr>"
    have "screen_ok ?s'" using d(3) cl s2(4) d(5) anims_ok_later [OF _ cl(2)] by (auto simp: screen_ok_def)
    moreover have "frame_shows e \<lparr>pic_terrain = ?terrain, pic_bots = bs, pic_frames = frames, pic_drops = texts,
        pic_info = Some (bot_info_texts (toFixed e) (g_map (scr_game s2)) (scr_bots s2 ! k) (deltatime s2) (renderTime s2))\<rparr> ?s'"
      using d(2,4) k kl s2(2)
      by (auto simp: frame_shows_def actors_shown_def bot_info_texts_def Let_def split: prod.splits)
    ultimately show ?thesis using False step d s2(2,5) bots(1) by simp
  qed
qed

lemma StartRenderCycle_ok:
  assumes "screen_ok s" "scr_time s \<le> fe_clock e 0" "elapsed s < fe_clock e 0 \<or> scr_bots s = []" "mono (fe_clock e)"
  shows "\<exists>pic delay s'. StartRenderCycle e s = Some (Inr (pic, delay, s')) \<and> screen_ok s' \<and> frame_shows e pic s'
    \<and> frameCount s' = Suc (frameCount s) \<and> length (scr_bots s') = length (scr_bots s)
    \<and> (case delay of Some d \<Rightarrow> d + renderTime s' = 1000 / o_fps (sb_options (scr_sandbox s'))
        | None \<Rightarrow> o_fps (sb_options (scr_sandbox s')) = 0)"
proof -
  obtain pic s' where r: "RUpdate e s = Some (Inr (pic, s'))" "screen_ok s'" "frame_shows e pic s'"
      "frameCount s' = frameCount s" "length (scr_bots s') = length (scr_bots s)"
    using RUpdate_ok [OF assms] by blast
  let ?fps = "o_fps (sb_options (scr_sandbox s'))" and ?s' = "s'\<lparr>frameCount := Suc (frameCount s')\<rparr>"
  have "StartRenderCycle e s = Some (Inr (pic, if ?fps = 0 then None else Some (1000 / ?fps - renderTime s'), ?s'))"
    by (simp add: StartRenderCycle_def r(1) Let_def)
  moreover have "screen_ok ?s'" "frame_shows e pic ?s'"
    using r(2,3) by (simp_all add: screen_ok_def frame_shows_def)
  ultimately show ?thesis using r(4,5) by (cases "?fps = 0") auto
qed

section \<open>Every event keeps the screen in order\<close>

lemma RUpdate_still: "fe_clock e 0 = elapsed s \<Longrightarrow> scr_bots s \<noteq> [] \<Longrightarrow> RUpdate e s = None"
  by (simp add: RUpdate_def)

inductive_cases screen_stepE: "screen_step s s'"
inductive_cases screen_startE: "screen_start s"

lemma start_screen_ok: "screen_start s \<Longrightarrow> screen_ok s"
proof (erule screen_startE)
  fix sb us tails random_colors nicks info lamps
  assume s: "s = start_screen sb us tails random_colors nicks info lamps" and sb: "sandbox_start sb"
    and us: "\<And>i :: nat. unit_draw (us i)"
  have "nat (RandInt (us i) 0 4) < 5" for i using RandInt_range [OF us, of 0 4 i] by auto
  then show "screen_ok s"
    using sandbox_sys.initial_inv [OF sb] GUIInventory_ok no_drops_ok
    by (simp add: s screen_ok_def start_screen_def new_view_ok)
qed

lemma screen_step_ok: "screen_step s s' \<Longrightarrow> screen_ok s \<Longrightarrow> screen_ok s'"
proof (erule screen_stepE)
  fix sb assume "screen_ok s" "sandbox_step (scr_sandbox s) sb" "length (g_bots (sb_game sb)) = length (scr_bots s)"
    "s' = s\<lparr>scr_sandbox := sb\<rparr>"
  then show "screen_ok s'" using sandbox_sys.step_inv by (auto simp: screen_ok_def)
next
  fix items :: "nat \<Rightarrow> nat \<Rightarrow> rat" and n clock speeds tails random_colors nicks
  assume "screen_ok s" "\<And>i n. unit_draw (items i n)"
    "s' = show_new_bots (length (scr_bots s)) tails random_colors nicks (SpawnNewRandomBot n clock speeds items (scr_sandbox s)) s"
  moreover from this have "sandbox_ok (SpawnNewRandomBot n clock speeds items (scr_sandbox s))"
    using SpawnNewRandomBot_ok by (simp add: screen_ok_def)
  ultimately show "screen_ok s'" by (auto simp: screen_ok_def show_new_bots_def new_view_ok)
next
  fix e pic delay assume ok: "screen_ok s" and time: "scr_time s \<le> fe_clock e 0" "mono (fe_clock e)"
    and st: "StartRenderCycle e s = Some (Inr (pic, delay, s'))"
  have "elapsed s \<le> fe_clock e 0" using ok time(1) by (simp add: screen_ok_def)
  moreover have "\<not> (fe_clock e 0 = elapsed s \<and> scr_bots s \<noteq> [])"
  proof
    assume "fe_clock e 0 = elapsed s \<and> scr_bots s \<noteq> []"
    then have "RUpdate e s = None" by (simp add: RUpdate_still)
    then show False using st by (simp add: StartRenderCycle_def)
  qed
  ultimately have "elapsed s < fe_clock e 0 \<or> scr_bots s = []" by auto
  then show "screen_ok s'" using StartRenderCycle_ok [OF ok time(1) _ time(2)] st by auto
next
  fix t k pos rot assume "screen_ok s" "scr_time s \<le> t" "k < length Animations"
    "s' = s\<lparr>scr_anims := play_anim t k pos rot (scr_anims s), scr_time := t\<rparr>"
  then show "screen_ok s'" using anims_ok_play anims_ok_later by (auto simp: screen_ok_def)
next
  fix x y owner cryType v assume "screen_ok s" "s' = s\<lparr>scr_drops := play_drop x y owner cryType v (scr_drops s)\<rparr>"
  then show "screen_ok s'" by (simp add: screen_ok_def play_drop_ok)
next
  assume "screen_ok s" "s' = s\<lparr>scr_inventory := SwitchMinimizing (scr_inventory s)\<rparr>"
  then show "screen_ok s'" by (simp add: screen_ok_def SwitchMinimizing_ok)
qed

interpretation screen_sys: event_system screen_start screen_step screen_ok
  by unfold_locales (auto intro: start_screen_ok screen_step_ok)

section \<open>Properties\<close>

text \<open>
  (C3) A frame never fails. In every state of the screen reachable from a start by events of the page, new
  bots, animations and frames in any order, the next turn of the render cycle returns: it draws the
  whole terrain under the camera, exactly the bots near the window, every animation with an existing
  picture, and the data of the current bot, which exists as soon as there is a bot; it keeps the
  invariant of world, bots, pools and panels, counts the frame, and asks for the rest of the period as delay.
  The clock must have advanced since the last frame.
\<close>

theorem frame_never_fails:
  assumes "screen_start s0" "screen_step\<^sup>*\<^sup>* s0 s"
    and "scr_time s \<le> fe_clock e 0" "elapsed s < fe_clock e 0" "mono (fe_clock e)"
  shows "\<exists>pic delay s'. StartRenderCycle e s = Some (Inr (pic, delay, s')) \<and> screen_ok s' \<and> frame_shows e pic s'
    \<and> frameCount s' = Suc (frameCount s) \<and> length (scr_bots s') = length (scr_bots s)
    \<and> (case delay of Some d \<Rightarrow> d + renderTime s' = 1000 / o_fps (sb_options (scr_sandbox s'))
        | None \<Rightarrow> o_fps (sb_options (scr_sandbox s')) = 0)"
  using StartRenderCycle_ok [OF screen_sys.reachable_inv [OF assms(1,2)] assms(3) _ assms(5)] assms(4) by blast

definition quiet_env :: "rat \<Rightarrow> frame_env" where
  "quiet_env t = \<lparr>fe_world = (\<lambda>_. 0), fe_tails = (\<lambda>_ _ _ _. 1 / 2), fe_clock = (\<lambda>_. t), fe_canvas = (640, 480),
     measureText = (\<lambda>s. of_nat (length s) * 5), toFixed = (\<lambda>_ x. show_int \<lfloor>x\<rfloor>)\<rparr>"

theorem frame_never_fails_witness:
  "\<exists>s pic delay s'. screen_start s \<and> length (scr_bots s) = 51 \<and> StartRenderCycle (quiet_env 16) s = Some (Inr (pic, delay, s'))
     \<and> screen_ok s' \<and> frame_shows (quiet_env 16) pic s'"
proof -
  obtain sb where sb: "start_sandbox 1 1 [] (\<lambda>_. 0) (\<lambda>_. same_spot) still_draws 0 = Some sb" using one_cell_start by blast
  then obtain bs where bs: "place_bots still_draws 0 (start_world 1 1 [] (\<lambda>_. 0) (\<lambda>_. same_spot)) [2..<52] 0 = Some bs"
      "g_bots (sb_game sb) = new_Bot 1 0 0 (\<lambda>_. 0) (50, 50) # bs"
    by (auto simp: start_sandbox_def Let_def bind_eq_Some_conv still_draws_def)
  have "length bs = 50" using arg_cong [OF place_bots_ids [OF bs(1)], of length] by simp
  then have len: "length (g_bots (sb_game sb)) = 51" using bs(2) by simp
  have start: "sandbox_start sb" by (rule sandbox_startI [OF sb]) (simp_all add: still_draws_def)
  let ?s = "start_screen sb (\<lambda>_. 0) (\<lambda>_. 0) [] (\<lambda>_. []) (BotBasicInfoPanel [] [] ''-'') []"
  have s: "screen_start ?s" using start by (intro screen_start.intros) simp_all
  have "mono (fe_clock (quiet_env 16))" by (simp add: quiet_env_def)
  then show ?thesis
    using frame_never_fails [OF s rtranclp.rtrancl_refl, of "quiet_env 16"] s len
    by (auto simp: quiet_env_def start_screen_def mono_def)
qed

end
