(* ===== verification/Lightning.thy ===== *)
theory Lightning
  imports Animations Canvas_Lines
begin

text \<open>
  The class \<open>LightningAnim\<close> of \<^verbatim>\<open>scripts/tables/minestileset.js\<close> and \<open>DrawLightings\<close> of \<^verbatim>\<open>scripts/wrenderer.js\<close>:
  three jagged strands from a start to an end. The two end points are vectors of other objects, read
  anew in every frame; they are given by addresses into \<open>vecs\<close>. No other code uses the class.
\<close>

section \<open>State\<close>

text \<open>
  The inner nodes 1 to 8 of the three strands; \<open>None\<close> as an end is \<open>undefined\<close>. The field
  \<open>wRenderer\<close> is kept only as whether it is one.
\<close>

record lightning =
  li_isFinished :: bool
  li_timeStart :: rat
  li_renderer :: bool
  li_start :: nat
  li_end :: "nat option"
  li_nodes :: "vector2d list list"

record lightning_store =
  li_objs :: "nat \<Rightarrow> lightning"
  lightningAnims :: "nat list"
  FinishedLightnings :: "nat list"

definition no_nodes :: "vector2d list list" where
  "no_nodes = replicate 3 (replicate 8 (Vector2d 0 0))"

text \<open>\<open>Init\<close>; the first argument is the object if it had been initialised before.\<close>

definition Lightning_Init :: "lightning option \<Rightarrow> rat \<Rightarrow> bool \<Rightarrow> nat \<Rightarrow> nat option \<Rightarrow> lightning" where
  "Lightning_Init old t renderer fromPos toPos =
     \<lparr>li_isFinished = False, li_timeStart = t, li_renderer = renderer, li_start = fromPos, li_end = toPos,
      li_nodes = (case old of Some l \<Rightarrow> li_nodes l | None \<Rightarrow> no_nodes)\<rparr>"

definition LightningAnim :: "rat \<Rightarrow> nat \<Rightarrow> nat \<Rightarrow> lightning" where
  "LightningAnim t fromPos toPos = Lightning_Init None t True fromPos (Some toPos)"

section \<open>A frame of a lightning\<close>

text \<open>The strands differ in their colour and in how far they stray.\<close>

definition strand_colors :: "string list" where
  "strand_colors = [''#f0f'', ''#0ff'', ''#fff'']"

definition strand_noise :: "nat \<Rightarrow> rat" where
  "strand_noise k = [1 / 2, 1 / 3, 1 / (5 / 2)] ! k"

text \<open>The node with number \<open>i\<close> of strand \<open>k\<close>; two draws.\<close>

definition lightning_node :: "(nat \<Rightarrow> nat \<Rightarrow> nat \<Rightarrow> rat) \<Rightarrow> vector2d \<Rightarrow> vector2d \<Rightarrow> nat \<Rightarrow> nat \<Rightarrow> vector2d" where
  "lightning_node us a b k i =
     (let dx = (vx a - vx b) / 10; dy = (vy a - vy b) / 10
      in Vector2d (vx a - dx * of_nat i + us k i 0 * strand_noise k) (vy a - dy * of_nat i + us k i 1 * strand_noise k))"

definition strand_strokes :: "(nat \<Rightarrow> nat \<Rightarrow> rat) \<Rightarrow> vector2d \<Rightarrow> vector2d \<Rightarrow> vector2d \<Rightarrow> nat \<Rightarrow> vector2d list \<Rightarrow> stroke list" where
  "strand_strokes cs camera a b k inner =
     polyline camera (a # inner @ [b]) (map (\<lambda>i. strand_colors ! k @ [hex_digit (RandInt (cs k i) 0 15)]) [0..<9])"

definition Lightning_Update :: "(nat \<Rightarrow> nat \<Rightarrow> nat \<Rightarrow> rat) \<Rightarrow> (nat \<Rightarrow> nat \<Rightarrow> rat) \<Rightarrow> vector2d \<Rightarrow> (nat \<Rightarrow> vector2d) \<Rightarrow>
    lightning \<Rightarrow> (stroke list \<times> lightning) result" where
  "Lightning_Update us cs camera vecs l =
     (if li_isFinished l then Inr ([], l)
      else case li_end l of
        None \<Rightarrow> Inl TypeError
      | Some e \<Rightarrow>
          (if \<not> li_renderer l then Inl TypeError
           else let a = vecs (li_start l); b = vecs e;
                    nodes = map (\<lambda>k. map (lightning_node us a b k) [1..<9]) [0..<3]
                in Inr (concat (map (\<lambda>k. strand_strokes cs camera a b k (nodes ! k)) [0..<3]), l\<lparr>li_nodes := nodes\<rparr>)))"

text \<open>The body of the loop of \<open>DrawLightings\<close>, and the loop.\<close>

definition draw_lightning :: "(nat \<Rightarrow> nat \<Rightarrow> nat \<Rightarrow> rat) \<Rightarrow> (nat \<Rightarrow> nat \<Rightarrow> rat) \<Rightarrow> vector2d \<Rightarrow> (nat \<Rightarrow> vector2d) \<Rightarrow> nat \<Rightarrow>
    stroke list \<times> lightning_store \<Rightarrow> (stroke list \<times> lightning_store) result" where
  "draw_lightning us cs camera vecs i r =
     (case r of (out, s) \<Rightarrow>
        if \<not> li_isFinished (li_objs s i) then
          ebind (Lightning_Update us cs camera vecs (li_objs s i)) (\<lambda>(strokes, l).
            Inr (out @ strokes, s\<lparr>li_objs := (li_objs s)(i := l)\<rparr>))
        else Inr (out, s\<lparr>lightningAnims := removeAll i (lightningAnims s)\<rparr>))"

fun draw_lightnings :: "(nat \<Rightarrow> nat \<Rightarrow> nat \<Rightarrow> nat \<Rightarrow> rat) \<Rightarrow> (nat \<Rightarrow> nat \<Rightarrow> nat \<Rightarrow> rat) \<Rightarrow> vector2d \<Rightarrow> (nat \<Rightarrow> vector2d) \<Rightarrow>
    nat list \<Rightarrow> stroke list \<times> lightning_store \<Rightarrow> (stroke list \<times> lightning_store) result" where
  "draw_lightnings us cs camera vecs [] r = Inr r"
| "draw_lightnings us cs camera vecs (i # ks) r =
     ebind (draw_lightning (us i) (cs i) camera vecs i r) (draw_lightnings us cs camera vecs ks)"

definition DrawLightings :: "(nat \<Rightarrow> nat \<Rightarrow> nat \<Rightarrow> nat \<Rightarrow> rat) \<Rightarrow> (nat \<Rightarrow> nat \<Rightarrow> nat \<Rightarrow> rat) \<Rightarrow> vector2d \<Rightarrow> (nat \<Rightarrow> vector2d) \<Rightarrow>
    lightning_store \<Rightarrow> (stroke list \<times> lightning_store) result" where
  "DrawLightings us cs camera vecs s = draw_lightnings us cs camera vecs (lightningAnims s) ([], s)"

section \<open>The pool\<close>

text \<open>
  \<open>GetExemplar\<close> asks whether the pool of \<^emph>\<open>drops\<close> is empty and then takes from its own pool; the object it
  takes is initialised without the renderer, so that all arguments are one place off. If the pool of
  drops is empty it makes a \<open>DropAnim\<close>.
\<close>

datatype exemplar = A_lightning nat | A_drop

definition Lightning_GetExemplar ::
    "rat \<Rightarrow> nat \<Rightarrow> nat \<Rightarrow> drop_store \<Rightarrow> lightning_store \<Rightarrow> (exemplar \<times> lightning_store) result" where
  "Lightning_GetExemplar t fromPos toPos drops s =
     (if FinishedDrops drops \<noteq> [] then
        (case FinishedLightnings s of
           [] \<Rightarrow> Inl TypeError
         | i # rest \<Rightarrow>
             Inr (A_lightning i, s\<lparr>FinishedLightnings := rest,
               li_objs := (li_objs s)(i := Lightning_Init (Some (li_objs s i)) t False toPos None)\<rparr>))
      else Inr (A_drop, s))"

section \<open>Properties\<close>

definition striking :: "lightning \<Rightarrow> nat \<Rightarrow> bool" where
  "striking l e \<longleftrightarrow> \<not> li_isFinished l \<and> li_renderer l \<and> li_end l = Some e"

lemma LightningAnim_strikes [simp]: "striking (LightningAnim t p e) e"
  by (simp add: striking_def LightningAnim_def Lightning_Init_def)

text \<open>How far a node is from the point of the straight line with the same number.\<close>

definition stray :: "vector2d \<Rightarrow> vector2d \<Rightarrow> nat \<Rightarrow> vector2d \<Rightarrow> rat \<times> rat" where
  "stray a b i v = (vx v - (vx a + (vx b - vx a) * of_nat i / 10), vy v - (vy a + (vy b - vy a) * of_nat i / 10))"

lemma stray_node: "stray a b i (lightning_node us a b k i) = (us k i 0 * strand_noise k, us k i 1 * strand_noise k)"
  by (simp add: stray_def lightning_node_def Let_def Vector2d_def field_simps)

lemma strand_noise_bounds: "k < 3 \<Longrightarrow> 0 < strand_noise k \<and> strand_noise k \<le> 1 / 2"
  by (auto simp: strand_noise_def less_Suc_eq numeral_3_eq_3)

lemma noise_small:
  assumes "unit_draw u" "k < 3"
  shows "0 \<le> u * strand_noise k \<and> u * strand_noise k < 1 / 2"
proof -
  have n: "0 < strand_noise k" "strand_noise k \<le> 1 / 2" using strand_noise_bounds [OF assms(2)] by auto
  then have "u * strand_noise k < 1 * strand_noise k" using assms(1) by (intro mult_strict_right_mono) auto
  then have "u * strand_noise k < 1 / 2" using n(2) by linarith
  then show ?thesis using n assms(1) by simp
qed

lemma strand_strokes_joined:
  "length inner = 8 \<Longrightarrow> joined (canvas_point camera (17 / 2) a) (strand_strokes cs camera a b k inner) (canvas_point camera (17 / 2) b)
    \<and> length (strand_strokes cs camera a b k inner) = 9"
  using polyline_joined [of "map (\<lambda>i. strand_colors ! k @ [hex_digit (RandInt (cs k i) 0 15)]) [0..<9]" "inner @ [b]" camera a]
    length_polyline [of "map (\<lambda>i. strand_colors ! k @ [hex_digit (RandInt (cs k i) 0 15)]) [0..<9]" "inner @ [b]" camera a]
  by (simp add: strand_strokes_def)

text \<open>
  (C40) A frame of a lightning draws three strands of nine strokes; each strand joins the start, as it is now, to
  the end, and its inner nodes lie within half a block of the points at one to eight tenths of the way.
  The lightning goes on: nothing ever marks it as finished.
\<close>

theorem lightning_strikes:
  assumes "striking l e" "\<And>k i c. unit_draw (us k i c)"
  shows "\<exists>ss l'. Lightning_Update us cs camera vecs l = Inr (concat ss, l') \<and> striking l' e \<and> length ss = 3
    \<and> (\<forall>s \<in> set ss. length s = 9
        \<and> joined (canvas_point camera (17 / 2) (vecs (li_start l))) s (canvas_point camera (17 / 2) (vecs e)))
    \<and> (\<forall>k < 3. \<forall>i < 8. case stray (vecs (li_start l)) (vecs e) (Suc i) (li_nodes l' ! k ! i) of
        (x, y) \<Rightarrow> 0 \<le> x \<and> x < 1 / 2 \<and> 0 \<le> y \<and> y < 1 / 2)"
proof -
  let ?a = "vecs (li_start l)" and ?b = "vecs e"
  let ?nodes = "map (\<lambda>k. map (lightning_node us ?a ?b k) [1..<9]) [0..<3]"
  let ?ss = "map (\<lambda>k. strand_strokes cs camera ?a ?b k (?nodes ! k)) [0..<3]"
  have "Lightning_Update us cs camera vecs l = Inr (concat ?ss, l\<lparr>li_nodes := ?nodes\<rparr>)"
    using assms(1) by (simp add: striking_def Lightning_Update_def Let_def)
  moreover have "\<forall>s \<in> set ?ss. length s = 9 \<and> joined (canvas_point camera (17 / 2) ?a) s (canvas_point camera (17 / 2) ?b)"
    by (simp add: strand_strokes_joined)
  moreover have "?nodes ! k ! i = lightning_node us ?a ?b k (Suc i)" if "k < 3" "i < 8" for k i
    using that by simp
  then have "\<forall>k < 3. \<forall>i < 8. case stray ?a ?b (Suc i) (?nodes ! k ! i) of
      (x, y) \<Rightarrow> 0 \<le> x \<and> x < 1 / 2 \<and> 0 \<le> y \<and> y < 1 / 2"
    using noise_small assms(2) by (simp add: stray_node)
  ultimately show ?thesis
    using assms(1) by (intro exI [of _ ?ss] exI [of _ "l\<lparr>li_nodes := ?nodes\<rparr>"]) (simp add: striking_def)
qed

theorem lightning_strikes_witness:
  "\<exists>ss l'. Lightning_Update (\<lambda>_ _ _. 1 / 2) (\<lambda>_ _. 0) (Vector2d 0 0) (\<lambda>j. Vector2d (of_nat j) 5) (LightningAnim 0 3 7) = Inr (concat ss, l')
     \<and> striking l' 7 \<and> length ss = 3"
  using lightning_strikes [OF LightningAnim_strikes, of "\<lambda>_ _ _. 1 / 2" "\<lambda>_ _. 0" "Vector2d 0 0" "\<lambda>j. Vector2d (of_nat j) 5" 0 3 7] by auto

text \<open>
  \<open>GetExemplar\<close> never gives a lightning. Nothing puts a lightning into the pool, so it is empty; then the
  call raises if some drop has finished, and gives a drop otherwise.
\<close>

theorem no_lightning_given:
  assumes "FinishedLightnings s = []"
  shows "Lightning_GetExemplar t p q drops s = (if FinishedDrops drops \<noteq> [] then Inl TypeError else Inr (A_drop, s))"
  using assms by (simp add: Lightning_GetExemplar_def)

text \<open>Drawing the lightnings neither fills the pool nor takes a lightning off the screen.\<close>

lemma draw_lightnings_keep:
  assumes "\<And>i. li_isFinished (li_objs s i) = False"
  shows "draw_lightnings us cs camera vecs ks (out, s) = Inr (out', s') \<Longrightarrow>
    FinishedLightnings s' = FinishedLightnings s \<and> lightningAnims s' = lightningAnims s"
  using assms
proof (induction ks arbitrary: out s)
  case (Cons i ks)
  obtain strokes l where l: "Lightning_Update (us i) (cs i) camera vecs (li_objs s i) = Inr (strokes, l)"
    using Cons.prems by (auto simp: draw_lightning_def ebind_eq_Inr)
  then have "\<not> li_isFinished l" using Cons.prems(2) [of i] by (auto simp: Lightning_Update_def Let_def split: option.splits if_splits)
  then show ?case
    using Cons.IH [of "out @ strokes" "s\<lparr>li_objs := (li_objs s)(i := l)\<rparr>"] Cons.prems l by (simp add: draw_lightning_def)
qed simp

end
