(* ===== verification/Map_View.thy ===== *)
theory Map_View
  imports Controls
begin

text \<open>
  The overview map: the colours of \<^verbatim>\<open>scripts/tables/MapTables.js\<close> and the class \<open>MapDraw\<close> with its options
  in \<^verbatim>\<open>scripts/userGUI/Mapdrawer.js\<close>. An \<open>ImageData\<close> is its size and its bytes, four per pixel; bytes are
  clamped, not wrapped.
\<close>

section \<open>Colours\<close>

type_synonym color = "int \<times> int \<times> int"

definition emptyColor :: color where
  "emptyColor = (179, 100, 174)"

definition CTS_rows :: "(nat \<times> color) list" where
  "CTS_rows = [
     (0, (90, 33, 33)), (1, (0, 0, 0)), (30, (15, 30, 3)), (31, (25, 41, 13)), (32, (0, 0, 0)),
     (33, (15, 11, 3)), (34, (29, 25, 18)), (35, (68, 68, 68)), (36, (85, 68, 34)), (37, (68, 0, 0)),
     (38, (51, 68, 0)), (39, (19, 39, 3)), (40, (255, 97, 107)), (41, (255, 107, 97)),
     (42, (255, 107, 107)), (43, (255, 187, 251)), (44, (191, 241, 251)), (45, (207, 203, 241)),
     (48, (255, 255, 255)), (49, (101, 150, 126)), (50, (101, 255, 255)), (51, (255, 51, 51)),
     (52, (255, 101, 255)), (53, (34, 101, 255)), (54, (238, 254, 255)), (55, (238, 254, 255)),
     (56, (225, 254, 255)), (57, (226, 254, 255)), (58, (227, 254, 255)), (59, (228, 254, 255)),
     (60, (204, 204, 204)), (61, (221, 221, 221)), (62, (255, 204, 204)), (63, (255, 221, 221)),
     (64, (170, 170, 170)), (65, (187, 187, 187)), (66, (184, 153, 51)), (67, (184, 136, 187)),
     (68, (119, 68, 68)), (69, (136, 68, 153)), (70, (221, 255, 221)), (71, (71, 215, 100)),
     (72, (101, 134, 247)), (73, (247, 82, 67)), (74, (132, 238, 247)), (75, (255, 135, 231)),
     (80, (45, 87, 8)), (81, (40, 82, 3)), (82, (17, 102, 102)), (86, (184, 255, 17)),
     (90, (238, 238, 238)), (91, (255, 90, 0)), (92, (193, 187, 187)), (93, (187, 193, 187)),
     (94, (187, 187, 193)), (95, (184, 255, 34)), (96, (184, 255, 68)), (97, (112, 160, 183)),
     (98, (112, 187, 207)), (99, (219, 209, 125)), (100, (181, 168, 57)), (101, (76, 191, 0)),
     (102, (208, 206, 0)), (103, (133, 81, 166)), (104, (153, 153, 136)), (105, (198, 0, 0)),
     (106, (136, 136, 136)), (107, (8, 215, 100)), (108, (255, 0, 0)), (109, (0, 0, 255)),
     (110, (255, 0, 255)), (111, (238, 238, 255)), (112, (0, 255, 255)), (113, (211, 159, 166)),
     (114, (119, 119, 119)), (115, (56, 118, 65)), (116, (17, 17, 255)), (117, (170, 119, 119)),
     (118, (100, 98, 21)), (119, (170, 255, 255)), (120, (227, 191, 120)), (121, (163, 136, 72)),
     (122, (51, 153, 120))]"

definition ColorTable :: "byte \<Rightarrow> color" where
  "ColorTable b = (case map_of CTS_rows (unat b) of Some c \<Rightarrow> c | None \<Rightarrow> emptyColor)"

definition ColorTableDark :: "byte \<Rightarrow> color" where
  "ColorTableDark b = (case ColorTable b of (r, g, v) \<Rightarrow> (js_shr r 1, js_shr g 1, js_shr v 1))"

section \<open>Images\<close>

record image =
  im_width :: int
  im_height :: int
  im_data :: "byte list"

definition clamp8 :: "int \<Rightarrow> byte" where
  "clamp8 v = word_of_int (max 0 (min 255 v))"

text \<open>The constructor raises when a side is not positive.\<close>

definition new_ImageData :: "int \<Rightarrow> int \<Rightarrow> image option" where
  "new_ImageData w h =
     (if w \<le> 0 \<or> h \<le> 0 then None else Some \<lparr>im_width = w, im_height = h, im_data = replicate (nat (w * h * 4)) 0\<rparr>)"

section \<open>The map\<close>

record map_options =
  mo_zoom :: int
  mo_night :: bool
  mo_opacity :: bool
  mo_bots :: bool

datatype map_option_event = ZoomInput int | NightChange bool | OpacityChange bool | BotsChange bool

fun set_map_option :: "map_option_event \<Rightarrow> map_options \<Rightarrow> map_options" where
  "set_map_option (ZoomInput z) m = m\<lparr>mo_zoom := z\<rparr>"
| "set_map_option (NightChange b) m = m\<lparr>mo_night := b\<rparr>"
| "set_map_option (OpacityChange b) m = m\<lparr>mo_opacity := b\<rparr>"
| "set_map_option (BotsChange b) m = m\<lparr>mo_bots := b\<rparr>"

definition MapZoom :: "map_options \<Rightarrow> rat" where
  "MapZoom m = power_int 2 (mo_zoom m)"

text \<open>The size of the drawing buffer of the map for a size of its element on the page.\<close>

definition Mresize :: "map_options \<Rightarrow> int \<times> int \<Rightarrow> int \<times> int" where
  "Mresize m client = (tilde2 (of_int (fst client) / MapZoom m), tilde2 (of_int (snd client) / MapZoom m))"

definition GetCameraCenterBlockPos :: "vector2d \<Rightarrow> int \<times> int \<Rightarrow> int \<times> int" where
  "GetCameraCenterBlockPos camera canv =
     (tilde2 (of_int (js_shr (fst canv) 1) / 16 + vx camera), tilde2 (of_int (js_shr (snd canv) 1) / 16 + vy camera))"

text \<open>
  The shift binds weaker than the division: the canvas is shifted by \<open>1 / 16\<close>, which converts to 0, so
  that the \<open>center\<close> is the size.
\<close>

definition GetCameraCenter :: "int \<times> int \<Rightarrow> int \<times> int" where
  "GetCameraCenter canv =
     (let n = nat (js_trunc (1 / 16)) in (tilde2 (of_int (js_shr (fst canv) n)), tilde2 (of_int (js_shr (snd canv) n))))"

lemma GetCameraCenter_is_size:
  assumes "0 \<le> fst canv" "fst canv < 2 ^ 31" "0 \<le> snd canv" "snd canv < 2 ^ 31"
  shows "GetCameraCenter canv = canv"
  using assms by (cases canv) (simp add: GetCameraCenter_def tilde2_def js_shr_def js_trunc_nonneg)

definition GetFirstBlockCoords :: "vector2d \<Rightarrow> int \<times> int \<Rightarrow> int \<times> int \<Rightarrow> int \<times> int" where
  "GetFirstBlockCoords camera canv dims =
     (let c = GetCameraCenterBlockPos camera canv in (fst c - js_shr (fst dims) 1, snd c - js_shr (snd dims) 1))"

text \<open>The label of the cell under the mouse.\<close>

definition map_coords :: "map_options \<Rightarrow> int \<times> int \<Rightarrow> int \<Rightarrow> int \<Rightarrow> int \<times> int" where
  "map_coords m first x y =
     (tilde2 (of_int (fst first) + of_int x / MapZoom m), tilde2 (of_int (snd first) + of_int y / MapZoom m))"

definition opaque :: "byte list \<Rightarrow> byte list" where
  "opaque data = foldl (\<lambda>d i. ta_set d (4 * int i + 3) (clamp8 256)) data [0..<(length data + 3) div 4]"

definition fit_image :: "int \<times> int \<Rightarrow> image \<Rightarrow> image option" where
  "fit_image dims im =
     (if fst dims > im_width im \<or> snd dims > im_height im
      then map_option (\<lambda>im. im\<lparr>im_data := opaque (im_data im)\<rparr>) (new_ImageData (fst dims) (snd dims))
      else Some im)"

definition put_pixel :: "byte list \<Rightarrow> int \<Rightarrow> color \<Rightarrow> byte list" where
  "put_pixel data i c = (case c of (r, g, v) \<Rightarrow> ta_set (ta_set (ta_set data i (clamp8 r)) (i + 1) (clamp8 g)) (i + 2) (clamp8 v))"

definition map_cells :: "int \<times> int \<Rightarrow> (int \<times> int) list" where
  "map_cells dims = concat (map (\<lambda>y. map (\<lambda>x. (x, y)) [0..fst dims - 1]) [0..snd dims - 1])"

definition draw_pixels :: "(byte \<Rightarrow> color) \<Rightarrow> int \<times> int \<Rightarrow> world_map \<Rightarrow> int \<times> int \<Rightarrow> image \<Rightarrow> image" where
  "draw_pixels colortable first w dims im =
     im\<lparr>im_data := foldl (\<lambda>d (x, y). put_pixel d (js_shl (y * im_width im + x) 2)
          (colortable (GetIDByCoord w (to_int32 (fst first + x)) (to_int32 (snd first + y))))) (im_data im) (map_cells dims)\<rparr>"

definition bot_marks :: "int \<times> int \<Rightarrow> int \<times> int \<Rightarrow> (int \<times> int) list \<Rightarrow> (int \<times> int) list" where
  "bot_marks first dims bots =
     map (\<lambda>(x, y). (x - fst first, y - snd first))
       (filter (\<lambda>(x, y). x \<ge> fst first \<and> x \<le> fst first + fst dims \<and> y \<ge> snd first \<and> y \<le> snd first + snd dims) bots)"

text \<open>
  \<open>Update\<close> of the map: the new image, whose upper left part of the size of the canvas is copied to it,
  and the marks of the bots, that of the current bot last. Nothing when the image cannot be made.
\<close>

definition MapDraw_Update :: "map_options \<Rightarrow> vector2d \<Rightarrow> int \<times> int \<Rightarrow> int \<times> int \<Rightarrow> world_map \<Rightarrow> (int \<times> int) list \<Rightarrow> (int \<times> int) \<Rightarrow>
    image \<Rightarrow> (image \<times> (int \<times> int) list) option" where
  "MapDraw_Update m camera canv dims w bots cur im =
     Option.bind (fit_image dims im) (\<lambda>im.
       let first = GetFirstBlockCoords camera canv dims;
           im = draw_pixels (if mo_night m then ColorTableDark else ColorTable) first w dims im
       in Some (im, if mo_bots m then bot_marks first dims bots @ [(fst cur - fst first, snd cur - snd first)] else []))"

section \<open>Writing pixels\<close>

lemma foldl_reaches_on:
  assumes "x \<in> set xs" "I s" "\<And>s y. I s \<Longrightarrow> y \<in> set xs \<Longrightarrow> I (f s y)" "\<And>s. I s \<Longrightarrow> Q (f s x)"
    and "\<And>s y. I s \<Longrightarrow> Q s \<Longrightarrow> y \<in> set xs \<Longrightarrow> Q (f s y)"
  shows "Q (foldl f s xs)"
proof -
  from assms(1) obtain ys zs where xs: "xs = ys @ x # zs" by (meson split_list)
  have I: "I (foldl f s ys)" by (rule foldl_invariant) (use assms xs in auto)
  have "I t \<and> Q t \<Longrightarrow> I (foldl f t zs) \<and> Q (foldl f t zs)" for t
    by (rule foldl_invariant [where P = "\<lambda>t. I t \<and> Q t"]) (use assms xs in auto)
  then show ?thesis using I assms(3,4) by (simp add: xs)
qed

definition im_ok :: "image \<Rightarrow> bool" where
  "im_ok im \<longleftrightarrow> 0 < im_width im \<and> 0 < im_height im \<and> int (length (im_data im)) = im_width im * im_height im * 4"

definition rgb_at :: "byte list \<Rightarrow> int \<Rightarrow> byte option \<times> byte option \<times> byte option" where
  "rgb_at data p = (ta_get data (4 * p), ta_get data (4 * p + 1), ta_get data (4 * p + 2))"

definition clamped :: "color \<Rightarrow> byte option \<times> byte option \<times> byte option" where
  "clamped c = (case c of (r, g, v) \<Rightarrow> (Some (clamp8 r), Some (clamp8 g), Some (clamp8 v)))"

lemma length_put_pixel [simp]: "length (put_pixel data i c) = length data"
  by (simp add: put_pixel_def split: prod.splits)

lemma rgb_put_pixel:
  assumes "0 \<le> p" "4 * p + 4 \<le> int (length data)"
  shows "rgb_at (put_pixel data (4 * q) c) p = (if p = q then clamped c else rgb_at data p)"
proof (cases c)
  case (fields r g v)
  have "4 * p \<noteq> 4 * q + 1" "4 * p \<noteq> 4 * q + 2" "4 * p + 1 \<noteq> 4 * q" "4 * p + 1 \<noteq> 4 * q + 2" "4 * p + 2 \<noteq> 4 * q"
    "4 * p + 2 \<noteq> 4 * q + 1" by presburger+
  then show ?thesis
    using assms fields by (auto simp: rgb_at_def put_pixel_def clamped_def ta_get_set)
qed

lemma alpha_put_pixel: "ta_get (put_pixel data (4 * q) c) (4 * p + 3) = ta_get data (4 * p + 3)"
proof (cases c)
  case (fields r g v)
  have "4 * p + 3 \<noteq> 4 * q" "4 * p + 3 \<noteq> 4 * q + 1" "4 * p + 3 \<noteq> 4 * q + 2" by presburger+
  then show ?thesis using fields by (simp add: put_pixel_def ta_get_set)
qed

lemma js_shl2: "0 \<le> p \<Longrightarrow> p * 4 < 2 ^ 31 \<Longrightarrow> js_shl p 2 = 4 * p"
  by (simp add: js_shl_def to_int32_id)

lemma map_cells_iff: "(x, y) \<in> set (map_cells dims) \<longleftrightarrow> 0 \<le> x \<and> x < fst dims \<and> 0 \<le> y \<and> y < snd dims"
  by (auto simp: map_cells_def image_iff Bex_def)

lemma pixel_index:
  fixes x y w h :: int
  assumes "0 \<le> x" "x < w" "0 \<le> y" "y < h"
  shows "0 \<le> y * w + x" "y * w + x < w * h"
  using row_index_range [of x w y h] assms by (simp_all add: add.commute)

lemma draw_pixels_rgb:
  assumes im: "im_ok im" and fits: "fst dims \<le> im_width im" "snd dims \<le> im_height im" "im_width im * im_height im * 4 \<le> 2 ^ 31"
    and cell: "0 \<le> x" "x < fst dims" "0 \<le> y" "y < snd dims"
  shows "rgb_at (im_data (draw_pixels tbl first w dims im)) (y * im_width im + x) =
    clamped (tbl (GetIDByCoord w (to_int32 (fst first + x)) (to_int32 (snd first + y))))"
proof -
  let ?W = "im_width im" and ?n = "im_width im * im_height im"
  let ?col = "\<lambda>(x, y). tbl (GetIDByCoord w (to_int32 (fst first + x)) (to_int32 (snd first + y)))"
  let ?f = "\<lambda>d (x, y). put_pixel d (js_shl (y * ?W + x) 2) (?col (x, y))"
  have place: "0 \<le> y * ?W + x \<and> y * ?W + x < ?n \<and> js_shl (y * ?W + x) 2 = 4 * (y * ?W + x)"
    if "(x, y) \<in> set (map_cells dims)" for x y
  proof -
    have c: "0 \<le> x" "x < ?W" "0 \<le> y" "y < im_height im" using that fits(1,2) by (auto simp: map_cells_iff)
    note i = pixel_index [OF c]
    have "(y * ?W + x) * 4 < ?n * 4" using i(2) by simp
    then have "js_shl (y * ?W + x) 2 = 4 * (y * ?W + x)" using fits(3) by (intro js_shl2 [OF i(1)]) (rule less_le_trans)
    then show ?thesis using i by blast
  qed
  have "rgb_at (foldl ?f (im_data im) (map_cells dims)) (y * ?W + x) = clamped (?col (x, y))"
  proof (rule foldl_reaches_on [where x = "(x, y)" and I = "\<lambda>d. int (length d) = ?n * 4"])
    show here: "(x, y) \<in> set (map_cells dims)" using cell by (simp add: map_cells_iff)
    show "int (length (im_data im)) = ?n * 4" using im by (simp add: im_ok_def)
    show "int (length (?f d p)) = ?n * 4" if "int (length d) = ?n * 4" for d p using that by (simp split: prod.splits)
    have hit: "rgb_at (?f d (a, b)) (y * ?W + x) = (if y * ?W + x = b * ?W + a then clamped (?col (a, b)) else rgb_at d (y * ?W + x))"
      if "int (length d) = ?n * 4" "(a, b) \<in> set (map_cells dims)" for d a b
      using place [OF here] place [OF that(2)] that(1) rgb_put_pixel [of "y * ?W + x" d "b * ?W + a"] by simp
    show "rgb_at (?f d (x, y)) (y * ?W + x) = clamped (?col (x, y))" if "int (length d) = ?n * 4" for d
      using hit [OF that here] by simp
    show "rgb_at (?f d p) (y * ?W + x) = clamped (?col (x, y))"
      if "int (length d) = ?n * 4" "rgb_at d (y * ?W + x) = clamped (?col (x, y))" "p \<in> set (map_cells dims)" for d p
    proof (cases p)
      case (Pair a b)
      have "0 \<le> a" "a < ?W" "0 \<le> x" "x < ?W" using that(3) Pair cell fits(1) by (auto simp: map_cells_iff)
      then have "y * ?W + x = b * ?W + a \<Longrightarrow> a = x \<and> b = y"
        using row_index_inj [of x ?W a y b] by (simp add: add.commute)
      then show ?thesis using hit [of d a b] that Pair by auto
    qed
  qed
  then show ?thesis by (simp add: draw_pixels_def)
qed

section \<open>Properties\<close>

lemma new_ImageData_ok: "new_ImageData w h = Some im \<Longrightarrow> im_ok im \<and> im_width im = w \<and> im_height im = h"
  by (auto simp: new_ImageData_def im_ok_def split: if_splits)

lemma length_opaque [simp]: "length (opaque data) = length data"
  unfolding opaque_def by (rule foldl_invariant) simp_all

lemma length_draw_pixels: "length (im_data (draw_pixels tbl first w dims im)) = length (im_data im)"
proof -
  let ?f = "\<lambda>d (x, y). put_pixel d (js_shl (y * im_width im + x) 2)
    (tbl (GetIDByCoord w (to_int32 (fst first + x)) (to_int32 (snd first + y))))"
  have "length (foldl ?f (im_data im) (map_cells dims)) = length (im_data im)"
    by (rule foldl_invariant) auto
  then show ?thesis by (simp add: draw_pixels_def)
qed

lemma fit_image_ok:
  assumes "fit_image dims im = Some im'" "im_ok im"
  shows "im_ok im'" and "fst dims \<le> im_width im'" and "snd dims \<le> im_height im'"
  using assms new_ImageData_ok by (fastforce simp: fit_image_def im_ok_def split: if_splits)+


definition small_image :: image where
  "small_image = \<lparr>im_width = 2, im_height = 1, im_data = replicate 8 0\<rparr>"


text \<open>
  Until the canvas of the map grows beyond its first size the map is invisible: the image starts
  fully transparent and only a new image is made opaque.
\<close>

lemma map_stays_transparent:
  assumes "im_ok im" "fst dims \<le> im_width im" "snd dims \<le> im_height im" "im_width im * im_height im * 4 \<le> 2 ^ 31"
  shows "ta_get (im_data (draw_pixels tbl first w dims im)) (4 * p + 3) = ta_get (im_data im) (4 * p + 3)"
proof -
  let ?W = "im_width im"
  let ?f = "\<lambda>d (x, y). put_pixel d (js_shl (y * ?W + x) 2) (tbl (GetIDByCoord w (to_int32 (fst first + x)) (to_int32 (snd first + y))))"
  have "ta_get (foldl ?f (im_data im) (map_cells dims)) (4 * p + 3) = ta_get (im_data im) (4 * p + 3)"
  proof (rule foldl_invariant)
    fix d c assume d: "ta_get d (4 * p + 3) = ta_get (im_data im) (4 * p + 3)" and "c \<in> set (map_cells dims)"
    then obtain x y where c: "c = (x, y)" "0 \<le> x" "x < ?W" "0 \<le> y" "y < im_height im"
      using assms(2,3) by (cases c) (auto simp: map_cells_iff)
    note i = pixel_index [OF c(2-5)]
    have "(y * ?W + x) * 4 < ?W * im_height im * 4" using i(2) by simp
    then have "js_shl (y * ?W + x) 2 = 4 * (y * ?W + x)" using assms(4) by (intro js_shl2 [OF i(1)]) (rule less_le_trans)
    then show "ta_get (?f d c) (4 * p + 3) = ta_get (im_data im) (4 * p + 3)"
      using d alpha_put_pixel by (simp only: c(1) case_prod_conv)
  qed simp
  then show ?thesis by (simp add: draw_pixels_def)
qed

end
