(* ===== verification/Names_Skills.thy ===== *)
theory Names_Skills
  imports Vectors
begin

text \<open>
  The names of bots (\<open>NickNames\<close>) and the tables of skills in \<^verbatim>\<open>scripts/tables/DataTables.js\<close>, and the skills a
  bot starts with (\<open>BotSkill\<close>, \<open>BotSkillsContainer\<close> of \<^verbatim>\<open>scripts/bot.js\<close>). The list of names is an argument.
  Powers with the exponent \<open>Math.LN2\<close> are an argument \<open>pw\<close>: they are irrational.
\<close>

section \<open>Names\<close>

text \<open>An entry is a name not given out yet, or a name with its counter.\<close>

datatype nick = Plain string | Counted nat string

definition nick_name :: "nick \<Rightarrow> string" where
  "nick_name e = (case e of Plain n \<Rightarrow> n | Counted _ n \<Rightarrow> n)"

definition take_nick :: "nick \<Rightarrow> string \<times> nick" where
  "take_nick e =
     (let (c, n) = (case e of Plain n \<Rightarrow> (0, n) | Counted c n \<Rightarrow> (c, n)) in
      if c = 0 then (n, Counted 1 n) else (n @ show_nat (c + 1), Counted (c + 2) n))"

definition NickNames_random :: "rat \<Rightarrow> nick list \<Rightarrow> string \<times> nick list" where
  "NickNames_random u base =
     (let i = nat \<lfloor>u * of_nat (length base)\<rfloor>; (n, e) = take_nick (base ! i) in (n, base[i := e]))"

definition is_plain :: "nick \<Rightarrow> bool" where
  "is_plain e = (case e of Plain _ \<Rightarrow> True | Counted _ _ \<Rightarrow> False)"

fun take_plain :: "nick list \<Rightarrow> (string \<times> nick list) option" where
  "take_plain [] = None"
| "take_plain (Plain n # base) = Some (n, Counted 1 n # base)"
| "take_plain (Counted c n # base) = map_option (\<lambda>(r, base). (r, Counted c n # base)) (take_plain base)"

definition NickNames_unique :: "rat \<Rightarrow> nick list \<Rightarrow> string \<times> nick list" where
  "NickNames_unique u base = (case take_plain base of Some r \<Rightarrow> r | None \<Rightarrow> NickNames_random u base)"

section \<open>Skills\<close>

definition SkillType :: "(string \<times> int) list" where
  "SkillType = [
     (''Unknown'', - 1), (''AntiSlime'', 0), (''AntiBlock'', 1), (''AdjacentExtraction'', 2),
     (''Geology'', 3), (''MineBlue'', 4), (''MineGreen'', 5), (''Destruction'', 6), (''Annihilation'', 7),
     (''Crystallography'', 8), (''Deconstruction'', 9), (''AntiGun'', 10), (''BuildRed'', 11),
     (''Digging'', 12), (''Health'', 13), (''MineGeneral'', 14), (''MineRed'', 15), (''BuildGreen'', 16),
     (''BuildQuadro'', 17), (''Detection'', 18), (''Movement'', 19), (''BuildYellow'', 20),
     (''Compression'', 21), (''Fridge'', 22), (''MineCyan'', 23), (''RoadMovement'', 24),
     (''Upgrade'', 25), (''Deactivation'', 26), (''HyperPacking'', 27), (''MineViolet'', 28),
     (''Packing'', 29), (''PackingBlue'', 30), (''PackingCyan'', 31), (''PackingViolet'', 32),
     (''Discount'', 33), (''Sort'', 34), (''Turbo'', 35), (''DeMagnetizing'', 36), (''MineWhite'', 37),
     (''PackingRed'', 38), (''PackingWhite'', 39), (''PackingGreen'', 40), (''Extraction'', 41),
     (''Repair'', 42), (''ExpertMining'', 43), (''Washing'', 44), (''Fracturing'', 45),
     (''NanoPacking'', 46), (''BuildStructure'', 47), (''BuildRoad'', 48), (''BuildUniversal'', 49),
     (''BuildWar'', 50), (''Architecture'', 51), (''TotalDestruction'', 52), (''UltraWhite'', 53),
     (''Jewlery'', 54), (''Induction'', 55), (''MineSlime'', 56), (''MineDeep'', 57),
     (''GluonPacking'', 58)]"

definition SkillName :: "int \<Rightarrow> string option" where
  "SkillName = foldl (\<lambda>m (key, v). m(v \<mapsto> key)) Map.empty SkillType"

record skill_params =
  sp_effect :: "int \<Rightarrow> rat"
  sp_cost :: "int \<Rightarrow> rat"
  sp_exp :: "(int \<Rightarrow> rat) option"
  sp_oppCoef :: rat

text \<open>The constructor assigns \<open>cost\<close> twice, the second time the experience; \<open>exp\<close> stays undefined.\<close>

definition SkillParams :: "(int \<Rightarrow> rat) \<Rightarrow> (int \<Rightarrow> rat) \<Rightarrow> skill_params" where
  "SkillParams effect cost =
     (let s = \<lparr>sp_effect = effect, sp_cost = cost, sp_exp = None, sp_oppCoef = 1000000\<rparr> in s\<lparr>sp_cost := (\<lambda>lvl. 100)\<rparr>)"

definition opp :: "skill_params \<Rightarrow> int \<Rightarrow> int" where
  "opp s lvl = tilde2 (of_int lvl * sp_cost s lvl / 2 / sp_oppCoef s)"

definition NaturalLog2 :: "(int \<Rightarrow> rat) \<Rightarrow> rat \<Rightarrow> rat \<Rightarrow> rat \<Rightarrow> int \<Rightarrow> rat" where
  "NaturalLog2 pwc addition factor maxResult lvl =
     (let result = addition + factor * of_int (tilde2 (pwc lvl)) in if result \<le> maxResult then result else maxResult)"

definition capped :: "(int \<Rightarrow> rat) \<Rightarrow> int \<Rightarrow> int \<Rightarrow> rat \<Rightarrow> int \<Rightarrow> rat" where
  "capped pw bound peak factor lvl = of_int (if lvl < bound then tilde2 (pw lvl * factor) else tilde2 (pw peak * factor))"

definition DEFAULT_SKILL_CALC :: "(int \<Rightarrow> rat) \<Rightarrow> skill_params" where
  "DEFAULT_SKILL_CALC pw = SkillParams (\<lambda>lvl. 100 + of_int lvl * 10) (\<lambda>lvl. 1000 * of_int (tilde2 (pw lvl)))"

definition SkillCalculator_rows :: "(int \<Rightarrow> rat) \<Rightarrow> (string \<times> skill_params) list" where
  "SkillCalculator_rows pw = [
     (''Digging'', SkillParams (\<lambda>lvl. 100 + of_int lvl * 10)
        (\<lambda>lvl. 1000 * of_int (tilde2 (pw lvl)))),
     (''Packing'', SkillParams (\<lambda>lvl. of_int lvl * 100)
        (\<lambda>lvl. of_int (tilde2 (100 * pw lvl)))),
     (''HyperPacking'', SkillParams (\<lambda>lvl. of_int lvl * 200)
        (\<lambda>lvl. of_int (tilde2 (250 * pw lvl)))),
     (''NanoPacking'', SkillParams (\<lambda>lvl. of_int lvl * 500)
        (\<lambda>lvl. of_int (tilde2 (1500 * pw lvl)))),
     (''GluonPacking'', SkillParams (\<lambda>lvl. of_int lvl * 5000)
        (\<lambda>lvl. of_int (tilde2 (1000000 * pw lvl)))),
     (''AntiGun'', SkillParams (capped pw 522 521 (241 / 200))
        (\<lambda>lvl. 2000 + of_int lvl * 1000)),
     (''Deconstruction'', SkillParams (capped pw 47 47 (69 / 10))
        (\<lambda>lvl. 1000 + of_int lvl * 500)),
     (''Movement'', SkillParams (capped pw 566 566 (6737 / 100))
        (\<lambda>lvl. 500 + of_int lvl * 500)),
     (''RoadMovement'', SkillParams (capped pw 143 143 (113 / 10))
        (\<lambda>lvl. 1000 + of_int lvl * 500)),
     (''AntiSlime'', SkillParams (capped pw 165 165 (72 / 25))
        (\<lambda>lvl. 400 + of_int lvl * 500)),
     (''AntiBlock'', SkillParams (capped pw 162 162 (67 / 25))
        (\<lambda>lvl. 400 + of_int lvl * 500)),
     (''Annihilation'', SkillParams (capped pw 61 61 (573 / 100))
        (\<lambda>lvl. 50 + of_int lvl * 500)),
     (''Crystallography'', SkillParams (capped pw 47 47 (69 / 10))
        (\<lambda>lvl. 300 + of_int lvl * 500)),
     (''Deactivation'', SkillParams (capped pw 47 47 (69 / 10))
        (\<lambda>lvl. of_int lvl * 500)),
     (''Destruction'', SkillParams (capped pw 53 53 (573 / 100))
        (\<lambda>lvl. of_int lvl * 500)),
     (''Fracturing'', SkillParams (capped pw 65 65 (493 / 100))
        (\<lambda>lvl. of_int lvl * 500)),
     (''DeMagnetizing'', SkillParams (capped pw 61 61 (573 / 100))
        (\<lambda>lvl. of_int lvl * 500)),
     (''Discount'', SkillParams (capped pw 174 174 (7 / 5))
        (\<lambda>lvl. 200000 + of_int lvl * 500000)),
     (''TotalDestruction'', SkillParams (capped pw 170 170 (141 / 50))
        (\<lambda>lvl. of_int lvl * 500))]"

definition SkillCalculator :: "(int \<Rightarrow> rat) \<Rightarrow> skill_params list" where
  "SkillCalculator pw =
     foldl (\<lambda>arr (key, s). case map_of SkillType key of Some i \<Rightarrow> ta_set arr i s | None \<Rightarrow> arr)
       (replicate 59 (DEFAULT_SKILL_CALC pw)) (SkillCalculator_rows pw)"

section \<open>The skills of a bot\<close>

record bot_skill =
  sk_id :: int
  sk_lvl :: int
  sk_xp :: int
  sk_isLocked :: bool

definition BotSkill :: "(int \<times> int) option \<Rightarrow> bot_skill" where
  "BotSkill params =
     (case params of
        Some (i, l) \<Rightarrow> \<lparr>sk_id = i, sk_lvl = (if l = 0 then 1 else l), sk_xp = 0, sk_isLocked = False\<rparr>
      | None \<Rightarrow> \<lparr>sk_id = 0, sk_lvl = 1, sk_xp = 0, sk_isLocked = False\<rparr>)"

definition MaxSkillsCount :: nat where
  "MaxSkillsCount = 32"

text \<open>Identifier and level; the array has holes.\<close>

definition BOTSKILLSPRESET :: "(int \<times> int) option list" where
  "BOTSKILLSPRESET = [Some (0, 1), Some (1, 1), None, Some (2, 1), Some (6, 1), None, Some (9, 1), Some (10, 1), Some (44, 1),
     None, Some (22, 1), Some (24, 1), Some (51, 1), None, Some (32, 1), Some (40, 1)]"

definition BotSkillsContainer :: "(int \<times> int) option list \<Rightarrow> bot_skill list" where
  "BotSkillsContainer skills =
     map (\<lambda>i. BotSkill (if i < length skills then skills ! i else None)) [0..<MaxSkillsCount]"

section \<open>Names do not repeat\<close>

text \<open>A sequence of names: \<open>True\<close> asks for a unique one, \<open>False\<close> for a random one, with the draw.\<close>

fun give_names :: "(bool \<times> rat) list \<Rightarrow> nick list \<Rightarrow> string list" where
  "give_names [] base = []"
| "give_names ((un, u) # calls) base =
     (let (n, base') = (if un then NickNames_unique u base else NickNames_random u base) in n # give_names calls base')"

definition apart :: "string set \<Rightarrow> bool" where
  "apart ns \<longleftrightarrow> (\<forall>n \<in> ns. \<forall>ds. ds \<noteq> [] \<longrightarrow> list_all is_digit ds \<longrightarrow> n @ ds \<notin> ns)"

lemma apart_append:
  assumes "apart ns" "n \<in> ns" "n0 \<in> ns" "n \<noteq> n0" "list_all is_digit d" "list_all is_digit d0"
  shows "n @ d \<noteq> n0 @ d0"
proof
  assume "n @ d = n0 @ d0"
  then obtain us where us: "n @ us = n0 \<and> d = us @ d0 \<or> n = n0 @ us \<and> us @ d = d0"
    by (metis append_eq_append_conv2)
  then have "us \<noteq> []" "list_all is_digit us" using assms(4-6) by auto
  then show False using us assms(1-3) by (auto simp: apart_def)
qed

lemma show_nat_inj: "show_nat m = show_nat k \<Longrightarrow> m = k"
  by (metis digits_value_show_nat of_nat_eq_iff)

text \<open>The names that an entry has given out.\<close>

definition given_by :: "nick \<Rightarrow> string set" where
  "given_by e = (case e of Plain _ \<Rightarrow> {} | Counted c n \<Rightarrow> if c = 0 then {} else insert n {n @ show_nat m | m. m < c})"

lemma given_by_prefix: "s \<in> given_by e \<Longrightarrow> \<exists>d. s = nick_name e @ d \<and> list_all is_digit d"
  using show_nat_digits by (fastforce simp: given_by_def nick_name_def split: nick.splits if_splits)

lemma take_nick_new:
  "fst (take_nick e) \<notin> given_by e" "insert (fst (take_nick e)) (given_by e) \<subseteq> given_by (snd (take_nick e))"
  "nick_name (snd (take_nick e)) = nick_name e"
proof -
  have "n @ show_nat (c + 1) \<noteq> n @ show_nat m" if "m < c" for n c m using that show_nat_inj by fastforce
  then show "fst (take_nick e) \<notin> given_by e" by (auto simp: take_nick_def given_by_def split: nick.splits)
  show "insert (fst (take_nick e)) (given_by e) \<subseteq> given_by (snd (take_nick e))"
    by (auto simp: take_nick_def given_by_def split: nick.splits)
  show "nick_name (snd (take_nick e)) = nick_name e" by (auto simp: take_nick_def nick_name_def split: nick.splits)
qed

lemma given_apart:
  assumes "apart ns" "nick_name e \<in> ns" "nick_name e' \<in> ns" "nick_name e \<noteq> nick_name e'" "s \<in> given_by e"
  shows "s \<notin> given_by e'"
  using apart_append [OF assms(1-4)] given_by_prefix assms(5) by blast

definition names_ok :: "nick list \<Rightarrow> string set \<Rightarrow> bool" where
  "names_ok base given \<longleftrightarrow> distinct (map nick_name base) \<and> apart (nick_name ` set base) \<and> given \<subseteq> (\<Union>e \<in> set base. given_by e)"

lemma take_entry_ok:
  assumes "names_ok base given" "i < length base"
  shows "fst (take_nick (base ! i)) \<notin> given \<and> names_ok (base[i := snd (take_nick (base ! i))]) (insert (fst (take_nick (base ! i))) given)"
proof -
  let ?e = "base ! i" and ?b = "base[i := snd (take_nick (base ! i))]"
  have d: "distinct (map nick_name base)" and ap: "apart (nick_name ` set base)" and g: "given \<subseteq> (\<Union>e \<in> set base. given_by e)"
    using assms(1) by (simp_all add: names_ok_def)
  have names: "map nick_name ?b = map nick_name base"
    using assms(2) by (simp add: map_update take_nick_new(3) list_update_same_conv)
  have new: "fst (take_nick ?e) \<in> given_by (snd (take_nick ?e))" using take_nick_new(2) by blast
  have "fst (take_nick ?e) \<notin> given_by e'" if "e' \<in> set base" for e'
  proof (cases "e' = ?e")
    case True
    then show ?thesis using take_nick_new(1) by simp
  next
    case False
    then have "nick_name e' \<noteq> nick_name ?e" using that d assms(2) by (metis distinct_map inj_onD nth_mem)
    then show ?thesis
      using given_apart [OF ap _ _ _ new] that assms(2) by (auto simp: take_nick_new(3))
  qed
  then have fresh: "fst (take_nick ?e) \<notin> given" using g by blast
  have keep: "s \<in> (\<Union>e \<in> set ?b. given_by e)" if mem: "e' \<in> set base" and s: "s \<in> given_by e'" for s e'
  proof -
    obtain j where j: "j < length base" "e' = base ! j" using mem unfolding in_set_conv_nth by blast
    then have "s \<in> given_by (?b ! j)" using s take_nick_new(2) [of ?e] by (cases "j = i") auto
    then show ?thesis using j(1) by (metis UN_iff length_list_update nth_mem)
  qed
  have "snd (take_nick ?e) \<in> set ?b" using assms(2) by (simp add: set_update_memI)
  then have "insert (fst (take_nick ?e)) given \<subseteq> (\<Union>e \<in> set ?b. given_by e)" using new g keep by blast
  moreover have "nick_name ` set ?b = nick_name ` set base" using names by (metis set_map)
  ultimately show ?thesis using fresh d ap names by (simp add: names_ok_def)
qed

lemma take_plain_entry:
  "take_plain base = Some (n, base') \<Longrightarrow>
    \<exists>i < length base. n = fst (take_nick (base ! i)) \<and> base' = base[i := snd (take_nick (base ! i))]"
proof (induction base arbitrary: base' rule: take_plain.induct)
  case (2 n0 base)
  then show ?case by (intro exI [of _ 0]) (auto simp: take_nick_def)
next
  case (3 c n0 base)
  then obtain b where "take_plain base = Some (n, b)" "base' = Counted c n0 # b" by auto
  moreover from this obtain i where "i < length base" "n = fst (take_nick (base ! i))" "b = base[i := snd (take_nick (base ! i))]"
    using 3(1) by blast
  ultimately show ?case by (intro exI [of _ "Suc i"]) simp
qed simp

lemma nick_step:
  assumes "unit_draw u" "base \<noteq> []"
    and "(if un then NickNames_unique u base else NickNames_random u base) = (n, base')"
  shows "\<exists>i < length base. n = fst (take_nick (base ! i)) \<and> base' = base[i := snd (take_nick (base ! i))]"
proof -
  let ?i = "nat \<lfloor>u * of_nat (length base)\<rfloor>"
  have "u * of_nat (length base) < of_nat (length base)" using assms(1,2) by simp
  then have "?i < length base" using assms(1) by (simp add: nat_less_iff floor_less_iff)
  then have random: "\<exists>i < length base. n = fst (take_nick (base ! i)) \<and> base' = base[i := snd (take_nick (base ! i))]"
    if "NickNames_random u base = (n, base')"
    using that by (intro exI [of _ ?i]) (auto simp: NickNames_random_def Let_def split: prod.splits)
  show ?thesis
    using assms(3) random take_plain_entry [of base n base']
    by (cases un; cases "take_plain base") (auto simp: NickNames_unique_def)
qed

lemma give_names_fresh:
  "names_ok base given \<Longrightarrow> base \<noteq> [] \<Longrightarrow> \<forall>(un, u) \<in> set calls. unit_draw u \<Longrightarrow>
    distinct (give_names calls base) \<and> set (give_names calls base) \<inter> given = {}"
proof (induction calls base arbitrary: given rule: give_names.induct)
  case (2 un u calls base)
  obtain n base' where nb: "(if un then NickNames_unique u base else NickNames_random u base) = (n, base')" by fastforce
  have u: "unit_draw u" using 2(4) by simp
  obtain i where i: "i < length base" "n = fst (take_nick (base ! i))" "base' = base[i := snd (take_nick (base ! i))]"
    using nick_step [OF u 2(3) nb] by blast
  have ok: "n \<notin> given" "names_ok base' (insert n given)" using take_entry_ok [OF 2(2) i(1)] i by auto
  have "base' \<noteq> []" using i(1,3) by auto
  then have "distinct (give_names calls base') \<and> set (give_names calls base') \<inter> insert n given = {}"
    using 2(1) [OF nb [symmetric] refl ok(2)] 2(4) by simp
  then show ?case using nb ok(1) by auto
qed simp

text \<open>
  (C38) No two bots get the same name, in whatever order unique and random names are asked for, provided the
  names of the list differ and none is another one followed by digits. The list of the game does not
  satisfy this.
\<close>

theorem nicknames_distinct:
  assumes "names \<noteq> []" "distinct names" "apart (set names)" "\<forall>(un, u) \<in> set calls. unit_draw u"
  shows "distinct (give_names calls (map Plain names))"
proof -
  have "names_ok (map Plain names) {}"
    using assms(2,3) by (simp add: names_ok_def comp_def nick_name_def image_image)
  then show ?thesis using give_names_fresh [of "map Plain names" "{}" calls] assms(1,4) by simp
qed

theorem nicknames_distinct_witness:
  "distinct (give_names [(True, 0), (False, 0), (True, 1 / 2), (False, 0), (True, 0)] (map Plain [''Eva'', ''NFT'']))"
proof (rule nicknames_distinct)
  have "''Eva'' @ ds \<noteq> ''NFT''" "''NFT'' @ ds \<noteq> ''Eva''" "ds \<noteq> [] \<Longrightarrow> ''Eva'' @ ds \<noteq> ''Eva''" "ds \<noteq> [] \<Longrightarrow> ''NFT'' @ ds \<noteq> ''NFT''" for ds
    by simp_all
  then show "apart (set [''Eva'', ''NFT''])" by (auto simp: apart_def)
qed simp_all

text \<open>A name that is in the list twice is given out twice as unique.\<close>

lemma unique_repeats: "give_names [(True, u), (True, v)] [Plain n, Plain n] = [n, n]"
  by (simp add: NickNames_unique_def)

section \<open>Costs and effects of skills\<close>

lemma SkillParams_cost [simp]: "sp_cost (SkillParams effect cost) lvl = 100" "sp_effect (SkillParams effect cost) = effect"
  by (simp_all add: SkillParams_def Let_def)

text \<open>
  Every skill costs 100 at every level: the constructor of \<open>SkillParams\<close> overwrites the cost by the
  experience, so the costs of the table have no effect; there are 59 skills.
\<close>

theorem skill_costs_lost:
  "length (SkillCalculator pw) = 59 \<and> (\<forall>s \<in> set (SkillCalculator pw). \<forall>lvl. sp_cost s lvl = 100 \<and> sp_exp s = None)"
proof -
  let ?P = "\<lambda>arr :: skill_params list. length arr = 59 \<and> (\<forall>s \<in> set arr. \<forall>lvl. sp_cost s lvl = 100 \<and> sp_exp s = None)"
  have rows: "\<forall>(key, s) \<in> set (SkillCalculator_rows pw). \<forall>lvl. sp_cost s lvl = 100 \<and> sp_exp s = None"
    by (simp add: SkillCalculator_rows_def) (simp add: SkillParams_def)
  have "?P (SkillCalculator pw)"
    unfolding SkillCalculator_def
  proof (rule foldl_invariant)
    show "?P (replicate 59 (DEFAULT_SKILL_CALC pw))" by (simp add: DEFAULT_SKILL_CALC_def) (simp add: SkillParams_def)
    fix arr r assume "?P arr" and r: "r \<in> set (SkillCalculator_rows pw)"
    then show "?P (case r of (key, s) \<Rightarrow> case map_of SkillType key of Some i \<Rightarrow> ta_set arr i s | None \<Rightarrow> arr)"
      using rows by (auto simp: ta_set_def split: option.splits dest!: set_update_subset_insert [THEN subsetD])
  qed
  then show ?thesis .
qed

end
