(* ===== verification/Skill_Panel.thy ===== *)
theory Skill_Panel
  imports Names_Skills
begin

text \<open>
  The skill panel of \<^verbatim>\<open>scripts/userGUI/Skills.js\<close>: icons, the places of the 32 slots and the object
  \<open>UPGUIController\<close>. The elements of the page are records of what the code gives them. The levels shown
  are random numbers, not those of a bot.
\<close>

section \<open>Icons and places\<close>

definition icon_location :: "int \<Rightarrow> string" where
  "icon_location i = ''graphics/skills/icons/image_part_'' @ show_int (i + 1) @ ''.png''"

definition IcoLocations :: "string list" where
  "IcoLocations = map (\<lambda>i. icon_location (int i)) [0..<56]"

definition nullableSkillLocation :: string where
  "nullableSkillLocation = ''graphics/skills/icons/image_part_0.png''"

definition emptySlot :: string where
  "emptySlot = ''graphics/skills/icons/slot_empty.png''"

definition UP_GUI_SlotsCoords :: "string list" where
  "UP_GUI_SlotsCoords = [
     ''top: 4px;left: 31px;'', ''top: 87px;left: 0px;'',
     ''top: 132px;left: 0px;'', ''top: 222px;left: 33px;'',
     ''top: 49px;left: 14px;'', ''top: 170px;left: 14px;'',
     ''top: 108px;left: 33px;'', ''top: 70px;left: 45px;'',
     ''top: 145px;left: 46px;'', ''top: 112px;left: 75px;'',
     ''top: 16px;left: 74px;'', ''top: 206px;left: 74px;'',
     ''top: 6px;left: 356px;'', ''top: 57px;left: 356px;'',
     ''top: 117px;left: 356px;'', ''top: 158px;left: 351px;'',
     ''top: 85px;left: 112px;'', ''top: 126px;left: 124px;'',
     ''top: 41px;left: 137px;'', ''top: 8px;left: 183px;'',
     ''top: 0px;left: 233px;'', ''top: 2px;left: 300px;'',
     ''top: 31px;left: 268px;'', ''top: 41px;left: 317px;'',
     ''top: 60px;left: 240px;'', ''top: 70px;left: 280px;'',
     ''top: 90px;left: 320px;'', ''top: 130px;left: 310px;'',
     ''top: 110px;left: 260px;'', ''top: 100px;left: 220px;'',
     ''top: 110px;left: 180px;'', ''top: 70px;left: 200px;'']"

section \<open>The panel\<close>

text \<open>One \<open>GuiSkill\<close>: identifier, class and style of the slot, the text of its level, the source of its icon.\<close>

record gui_skill =
  slot_id :: string
  slot_class :: string
  slot_style :: string
  skill_lvl :: int
  skill_icon :: string

text \<open>\<open>UP_visual\<close> are the elements put into the panel, in order.\<close>

record gui_up =
  UP_visibility :: string
  UP_visual :: "string list"
  SkillHTMLElements :: "gui_skill list"

definition set_visibility :: "bool \<Rightarrow> gui_up \<Rightarrow> gui_up" where
  "set_visibility val p = p\<lparr>UP_visibility := (if val then ''visible'' else ''hidden'')\<rparr>"

definition get_visibility :: "gui_up \<Rightarrow> bool" where
  "get_visibility p \<longleftrightarrow> UP_visibility p = ''visible''"

definition gui_slot :: "rat \<Rightarrow> nat \<Rightarrow> gui_skill" where
  "gui_slot u i =
     \<lparr>slot_id = ''GUI_UP_skill_'' @ show_int (int i), slot_class = ''GUI_UP_empty_slot'',
      slot_style = UP_GUI_SlotsCoords ! i, skill_lvl = RandInt u 0 5000, skill_icon = IcoLocations ! i\<rparr>"

text \<open>The constructor; the visibility is what the page has, \<open>us\<close> are the draws for the levels.\<close>

definition add_slot :: "(nat \<Rightarrow> rat) \<Rightarrow> gui_up \<Rightarrow> nat \<Rightarrow> gui_up" where
  "add_slot us p i =
     (let k = gui_slot (us i) i
      in p\<lparr>UP_visual := UP_visual p @ [slot_id k], SkillHTMLElements := SkillHTMLElements p @ [k]\<rparr>)"

definition GUIUPControlls :: "string \<Rightarrow> (nat \<Rightarrow> rat) \<Rightarrow> gui_up" where
  "GUIUPControlls vis us =
     foldl (add_slot us) \<lparr>UP_visibility = vis, UP_visual = [], SkillHTMLElements = []\<rparr> [0..<MaxSkillsCount]"

definition UPGUIController :: "string \<Rightarrow> (nat \<Rightarrow> rat) \<Rightarrow> gui_up" where
  "UPGUIController vis us = set_visibility False (GUIUPControlls vis us)"

section \<open>The slots\<close>

lemma foldl_add_slot:
  "SkillHTMLElements (foldl (add_slot us) p ks) = SkillHTMLElements p @ map (\<lambda>i. gui_slot (us i) i) ks
    \<and> UP_visual (foldl (add_slot us) p ks) = UP_visual p @ map (\<lambda>i. slot_id (gui_slot (us i) i)) ks"
  by (induction ks arbitrary: p) (simp_all add: add_slot_def Let_def)

lemma distinct_places: "distinct UP_GUI_SlotsCoords"
  by code_simp

lemma length_places: "length UP_GUI_SlotsCoords = 32"
  by (simp add: UP_GUI_SlotsCoords_def)

text \<open>
  The skill panel starts hidden with 32 slots; no two share an identifier, a place or an icon, the panel
  contains them in order, and the levels shown are between 0 and 5000, whatever the bot has.
\<close>

theorem skill_panel_slots:
  assumes "\<And>i. unit_draw (us i)"
  shows "\<not> get_visibility (UPGUIController vis us) \<and> length (SkillHTMLElements (UPGUIController vis us)) = 32
    \<and> distinct (map slot_id (SkillHTMLElements (UPGUIController vis us)))
    \<and> distinct (map slot_style (SkillHTMLElements (UPGUIController vis us)))
    \<and> distinct (map skill_icon (SkillHTMLElements (UPGUIController vis us)))
    \<and> UP_visual (UPGUIController vis us) = map slot_id (SkillHTMLElements (UPGUIController vis us))
    \<and> (\<forall>k \<in> set (SkillHTMLElements (UPGUIController vis us)). 0 \<le> skill_lvl k \<and> skill_lvl k \<le> 5000)"
proof -
  have el: "SkillHTMLElements (UPGUIController vis us) = map (\<lambda>i. gui_slot (us i) i) [0..<32]"
    and vi: "UP_visual (UPGUIController vis us) = map (\<lambda>i. slot_id (gui_slot (us i) i)) [0..<32]"
    by (simp_all add: UPGUIController_def GUIUPControlls_def set_visibility_def foldl_add_slot MaxSkillsCount_def)
  have "map (\<lambda>i. slot_style (gui_slot (us i) i)) [0..<32] = UP_GUI_SlotsCoords"
    using map_nth [of UP_GUI_SlotsCoords] by (simp add: gui_slot_def length_places)
  then have st: "distinct (map slot_style (map (\<lambda>i. gui_slot (us i) i) [0..<32]))"
    using distinct_places by (simp add: comp_def)
  have sid: "distinct (map slot_id (map (\<lambda>i. gui_slot (us i) i) [0..<32]))"
    by (simp add: comp_def gui_slot_def distinct_map inj_on_def) (auto dest: show_int_inj)
  have ic: "distinct (map skill_icon (map (\<lambda>i. gui_slot (us i) i) [0..<32]))"
    by (simp add: comp_def gui_slot_def IcoLocations_def icon_location_def distinct_map inj_on_def) (auto dest: show_int_inj)
  have "0 \<le> skill_lvl k \<and> skill_lvl k \<le> 5000" if "k \<in> set (map (\<lambda>i. gui_slot (us i) i) [0..<32])" for k
    using that RandInt_range [OF assms, of 0 5000] by (auto simp: gui_slot_def)
  then show ?thesis
    unfolding el vi using st sid ic
    by (simp add: UPGUIController_def set_visibility_def get_visibility_def comp_def)
qed

theorem skill_panel_slots_witness: "length (SkillHTMLElements (UPGUIController [] (\<lambda>_. 1 / 2))) = 32"
  using skill_panel_slots [of "\<lambda>_. 1 / 2" "[]"] by simp

end
