(* ===== verification/Spec2Isabelle.thy ===== *)
theory Spec2Isabelle
  imports Geophys Program_Safety Packs Admin_Panel Frames Lightning Map_View Names_Skills Skill_Panel
begin

text \<open>
  This development verifies the JavaScript of the repository: the reference implementation of the game
  under \<^verbatim>\<open>docs/reference/js_reference/scripts\<close>, a sandbox that runs in one browser page, and the admin panel
  \<^verbatim>\<open>crates/server/openmines-server/admin/app.js\<close>. Both are event-driven programs on shared state. The
  definitions are translated statement by statement; the properties carry the numbers (C1) to (C40).

  \<^bold>\<open>The sandbox.\<close> A map of blocks in byte layers (\<^verbatim>\<open>wmap.js\<close>) is shared by everything: bots walk on it, dig
  and build (\<^verbatim>\<open>bot.js\<close>), loose blocks fall and living blocks grow on timers (\<^verbatim>\<open>geophys.js\<close>), buildings are
  written into it (\<^verbatim>\<open>entitys/\<close>), the mouse paints on it (\<^verbatim>\<open>controls.js\<close>). A bot has a hold and items
  (\<^verbatim>\<open>cargo.js\<close>) and a program, a grid of cells with a call stack that a timer executes (\<^verbatim>\<open>programmator.js\<close>);
  an index files bots by chunks of 32 by 32 cells. The renderer (\<^verbatim>\<open>wrenderer.js\<close>) changes the world a little in
  every frame, follows the current bot, draws everything and updates the panels (\<^verbatim>\<open>userGUI/\<close>).
  \<^bold>\<open>The admin panel\<close> polls the game server by HTTP, one refresh at a time, shows its answers in tables and on
  a map that can be moved and zoomed, and sends commands.

  \<^bold>\<open>Theories, with the sources they model\<close>
  \<^item> \<open>JS_Prelude\<close>: exceptions as sums (\<open>ebind\<close>), 32-bit conversions, typed arrays, insertion-ordered sets,
    \<open>RandInt\<close>, loop rules, row-major indices, and the locale \<open>event_system\<close> (an invariant of a program run
    from an event loop).
  \<^item> \<open>Blocks\<close>: block statistics, block enumeration, random pickers (\<^verbatim>\<open>tables/DataTables.js\<close>).
  \<^item> \<open>World_Map\<close>: \<open>WorldMap\<close>, its writers and readers and the run-length format it is loaded from
    (\<^verbatim>\<open>wmap.js\<close>). Invariant \<open>map_ok\<close>: layers of the right length, solid blocks only in the terrain, all living
    blocks listed (C7). The locale \<open>tile_store\<close> is the contract of a writer of one cell.
  \<^item> \<open>Pack_Store\<close>, \<open>Packs\<close>: the container of buildings, which refines the write-once map of the locale
    \<open>write_once\<close>, and the ten kinds of buildings with their plans, site check and construction
    (\<^verbatim>\<open>entitys/packs.js\<close>, \<^verbatim>\<open>entitys/entity.js\<close>).
  \<^item> \<open>Cargo\<close>: crystals, geology hold (an instance of the locale \<open>bounded_lifo\<close>), items (\<^verbatim>\<open>cargo.js\<close>).
  \<^item> \<open>Bots_Container\<close>, \<open>Bot\<close>: the index of bots with its exact queries by radius, and every action of a bot
    (\<^verbatim>\<open>bot.js\<close>). An action is a function on a context of map, index and bot; \<open>ctx_ok\<close> says that all three
    agree. \<open>idx_frame\<close> is what an action leaves alone: other bots, sizes, items.
  \<^item> \<open>Geophys\<close>: one cycle of falling, active chunks, growth (\<^verbatim>\<open>geophys.js\<close>). The cycle refines a relation of
    single falls (\<open>fall_step\<close>), whose potential, the total depth of blocks, shows that falling ends.
  \<^item> \<open>Program_State\<close>, \<open>Programmator\<close>, \<open>Program_Safety\<close>: cells, frames (an instance of the locale
    \<open>frame_stack\<close>), variables, the 111 handlers and \<open>Execute\<close>; progress and preservation for well-formed
    programs, calls and returns, fast cells (\<^verbatim>\<open>programmator.js\<close>).
  \<^item> \<open>Vectors\<close>, \<open>Controls\<close>, \<open>Sandbox\<close>: helpers (\<^verbatim>\<open>usefuladitions.js\<close>), keys, mouse, options, timers
    (\<^verbatim>\<open>controls.js\<close>, parts of \<^verbatim>\<open>main.js\<close> and \<^verbatim>\<open>wrenderer.js\<close>), start, editor messages, new bots. All events form
    the relation \<open>sandbox_step\<close>; \<open>sandbox_ok\<close> is its invariant (C2).
  \<^item> \<open>Animations\<close>, \<open>Canvas_Lines\<close>, \<open>Lightning\<close>, \<open>Terrain_View\<close>, \<open>Map_View\<close>, \<open>Panels\<close>, \<open>Bot_View\<close>,
    \<open>Names_Skills\<close>, \<open>Skill_Panel\<close>: what is shown and the tables it comes from. Drawing is a list of what is
    drawn, with its place (\<^verbatim>\<open>tables/minestileset.js\<close>, \<^verbatim>\<open>tables/MapTables.js\<close>, \<^verbatim>\<open>tables/items.js\<close>, \<^verbatim>\<open>userGUI/\<close>, parts of
    \<^verbatim>\<open>wrenderer.js\<close>, \<^verbatim>\<open>bot.js\<close> and \<^verbatim>\<open>DataTables.js\<close>).
  \<^item> \<open>Frames\<close>: a whole turn of the render cycle, which composes world, views, pools and panels; all events of the
    screen form \<open>screen_step\<close> with the invariant \<open>screen_ok\<close> (C3).
  \<^item> \<open>Admin_Map\<close>, \<open>Admin_Tables\<close>, \<open>Admin_Panel\<close>: coordinates and drawing of the panel's map, tables, forms and
    the state machine of requests: every handler and every continuation after an answer is one step
    (\<open>panel_step\<close>), the requests under way are part of the state (C5).

  \<^bold>\<open>Properties.\<close> Invariants: \<open>event_system\<close> is interpreted for the sandbox, the screen, the panel and
  the pool of drops, so that each invariant is proved per event and holds in every reachable state.
  Refinements of abstract specifications: falling, the hold, the container of buildings, the inventory
  panel. Termination: the loop of a held key, the scan of empty cells, settling of the sand, the end of
  drops and of refreshes; where a loop can fail to end it is a \<open>partial_function (option)\<close> (\<open>move_loop\<close>,
  \<open>find_place\<close>) and both cases are proved, the condition under which it returns (C8) and one under which it
  does not (C32). Some theorems state what the code does although it cannot be meant: these are the
  findings of the manifest, such as (C33), (C34) and (C36). No fuel is used anywhere.

  \<^bold>\<open>Conventions of the model\<close>
  \<^item> Bytes are \<open>8 word\<close>, other integral numbers \<open>int\<close> with \<open>to_int32\<close> where the code converts, fractions \<open>rat\<close>:
    rounding of floating point is not modelled. Comparisons of square roots are comparisons of squares.
  \<^item> An exception ends a handler and loses its state: the state after an exception is not modelled.
  \<^item> Random draws are arguments \<open>u\<close> with \<open>0 \<le> u < 1\<close>. A handler of the page gets a sequence of clock readings;
    one action of a bot reads the clock once.
  \<^item> Strings are lists of 8-bit characters; texts outside that range (the caption of a bar, names) are
    arguments.
  \<^item> What the browser computes is an argument: size of the canvas, width of a text, \<open>toFixed\<close>,
    \<open>toLowerCase\<close>, answers to requests, the powers of \<open>Math.LN2\<close> in the skill tables.
  \<^item> A jump to a label that was not compiled is the exception \<open>UncompiledLabel\<close>; programs are well formed
    (\<open>program_wf\<close>) if they have none and consist of whole lines.
  \<^item> Objects shared by reference are numbers into a list or store (bots, animations, drops, end points
    of a lightning).
  \<^item> The animations an action of a bot starts are not part of the action; in \<open>screen_step\<close> they may start at
    any time.

  \<^bold>\<open>Not modelled\<close>
  \<^item> The game server in Rust, which is another language and no part of these scripts.
  \<^item> \<^verbatim>\<open>maps/test.js\<close>, one line of data, which is an argument of the start; \<^verbatim>\<open>Console.js\<close>, an empty file.
  \<^item> \<open>nameByIDtable\<close>, texts stored in a byte array, where they become zeros, and read by nothing.
  \<^item> Fonts, fill colours, constant places of texts, style sheets and focus of windows, debug logging
    and the texts \<open>toString\<close> makes for it.
  \<^item> A frame at the same clock reading as the last one with bots on the page: the code divides by zero and
    the camera is no number until the next frame (\<open>RUpdate\<close> is \<open>None\<close>).
\<close>

end
